(* ===== verification/Elio_Prelude.thy ===== *)
theory Elio_Prelude
  imports Complex_Main "HOL-Library.Word" "HOL-Library.AList"
begin

text \<open>
  Shared vocabulary of the development: machine integers, byte strings and their
  big-endian encoding, the C and C++ standard library routines the sources call on
  characters and strings (\<open>isalnum\<close>, \<open>tolower\<close>, \<open>std::string::find\<close>, \<open>std::to_string\<close>,
  \<open>std::stoull\<close>), and association lists as the model of \<open>std::unordered_map\<close> and
  \<open>std::unordered_set\<close>: a list in \<^emph>\<open>some\<close> iteration order with distinct keys.
  The collections \<open>elio_simps\<close> and \<open>codec_simps\<close> carry the component proofs.
\<close>

named_theorems elio_simps \<open>rewriting of the shared string and container operations\<close>
named_theorems codec_simps \<open>rewriting of encoders and decoders\<close>

section \<open>Machine integers and bytes\<close>

type_synonym byte = "8 word"
type_synonym bytes = "byte list"
type_synonym u16 = "16 word"
type_synonym u32 = "32 word"
type_synonym u64 = "64 word"

text \<open>A \<open>std::string\<close> and a \<open>std::vector<uint8_t>\<close> hold the same bytes; the code converts
  between them by iterator copies.\<close>

definition byte_of_char :: "char \<Rightarrow> byte" where
  "byte_of_char c = of_nat (of_char c)"

definition char_of_byte :: "byte \<Rightarrow> char" where
  "char_of_byte b = char_of (unat b)"

definition to_bytes :: "string \<Rightarrow> bytes" where
  "to_bytes s = map byte_of_char s"

definition to_str :: "bytes \<Rightarrow> string" where
  "to_str bs = map char_of_byte bs"

lemma unat_byte_of_char: "unat (byte_of_char c) = of_char c"
  by (simp only: byte_of_char_def unat_of_nat) simp

lemma char_of_byte_of_char [simp]: "char_of_byte (byte_of_char c) = c"
  by (simp add: char_of_byte_def unat_byte_of_char)

lemma byte_of_char_of_byte [simp]: "byte_of_char (char_of_byte b) = b"
proof -
  have "unat b < 256" using unsigned_less [of b, where ?'a = nat] by simp
  then show ?thesis by (simp add: byte_of_char_def char_of_byte_def)
qed

lemma to_str_to_bytes [simp]: "to_str (to_bytes s) = s"
  by (simp add: to_str_def to_bytes_def o_def)

lemma to_bytes_to_str [simp]: "to_bytes (to_str bs) = bs"
  by (simp add: to_str_def to_bytes_def o_def)

lemma length_to_bytes [simp]: "length (to_bytes s) = length s"
  by (simp add: to_bytes_def)

lemma length_to_str [simp]: "length (to_str bs) = length bs"
  by (simp add: to_str_def)

section \<open>Big-endian integers and host memory\<close>

text \<open>
  \<open>be_bytes n x\<close> are the \<open>n\<close> low bytes of \<open>x\<close>, most significant first (network byte
  order); \<open>be_val\<close> reads them back. \<open>mem_bytes\<close> is the memory image of an unsigned integer
  on a host of the given endianness and \<open>hton\<close> is \<open>htons\<close>, \<open>htonl\<close> and \<open>htobe64\<close> on that host
  (its own inverse, so also \<open>ntohs\<close>, \<open>ntohl\<close> and \<open>be64toh\<close>).
\<close>

fun be_bytes :: "nat \<Rightarrow> nat \<Rightarrow> bytes" where
  "be_bytes 0 x = []"
| "be_bytes (Suc n) x = be_bytes n (x div 256) @ [of_nat (x mod 256)]"

definition be_val :: "bytes \<Rightarrow> nat" where
  "be_val bs = foldl (\<lambda>a b. a * 256 + unat b) 0 bs"

datatype endian = Little | Big

definition mem_bytes :: "endian \<Rightarrow> nat \<Rightarrow> nat \<Rightarrow> bytes" where
  "mem_bytes e n x = (case e of Big \<Rightarrow> be_bytes n x | Little \<Rightarrow> rev (be_bytes n x))"

definition mem_val :: "endian \<Rightarrow> bytes \<Rightarrow> nat" where
  "mem_val e bs = (case e of Big \<Rightarrow> be_val bs | Little \<Rightarrow> be_val (rev bs))"

definition hton :: "endian \<Rightarrow> nat \<Rightarrow> nat \<Rightarrow> nat" where
  "hton e n x = (case e of Big \<Rightarrow> x mod 256 ^ n | Little \<Rightarrow> be_val (rev (be_bytes n x)))"

lemma length_be_bytes [simp]: "length (be_bytes n x) = n"
  by (induction n arbitrary: x) auto

lemma be_val_Nil [simp]: "be_val [] = 0"
  by (simp add: be_val_def)

lemma be_val_snoc [simp]: "be_val (bs @ [b]) = be_val bs * 256 + unat b"
  by (simp add: be_val_def)

lemma unat_byte_of_nat: "unat (of_nat (x mod 256) :: byte) = x mod 256"
  by (simp only: unat_of_nat) simp

lemma be_val_be_bytes [codec_simps]: "be_val (be_bytes n x) = x mod 256 ^ n"
proof (induction n arbitrary: x)
  case (Suc n)
  have "(x div 256) mod 256 ^ n * 256 + x mod 256 = x mod (256 * 256 ^ n)"
    by (simp add: mod_mult2_eq)
  then show ?case by (simp add: Suc.IH unat_byte_of_nat)
qed simp

lemma be_val_less: "be_val bs < 256 ^ length bs"
proof (induction bs rule: rev_induct)
  case (snoc b bs)
  have "unat b < 256" using unsigned_less [of b, where ?'a = nat] by simp
  with snoc show ?case by simp
qed simp

lemma be_bytes_be_val [codec_simps]: "be_bytes (length bs) (be_val bs) = bs"
proof (induction bs rule: rev_induct)
  case (snoc b bs)
  have "unat b < 256" using unsigned_less [of b, where ?'a = nat] by simp
  with snoc show ?case by simp
qed simp

lemma be_bytes_mod: "be_bytes n (x mod 256 ^ n) = be_bytes n x"
  using be_bytes_be_val [of "be_bytes n x"] by (simp add: be_val_be_bytes)

lemma hton_less: "hton e n x < 256 ^ n"
  using be_val_less [of "rev (be_bytes n x)"] by (simp add: hton_def split: endian.split)

lemma be_bytes_hton_Little: "be_bytes n (hton Little n x) = rev (be_bytes n x)"
  using be_bytes_be_val [of "rev (be_bytes n x)"] by (simp add: hton_def)

text \<open>What reaches the wire does not depend on the host: it is the big-endian image.\<close>

lemma mem_bytes_hton [codec_simps]: "mem_bytes e n (hton e n x) = be_bytes n x"
  using be_bytes_hton_Little [of n x]
  by (cases e) (simp_all add: mem_bytes_def hton_def be_bytes_mod)

lemma hton_hton [codec_simps]: "hton e n (hton e n x) = x mod 256 ^ n"
  by (cases e) (simp_all add: hton_def be_val_be_bytes
      be_bytes_be_val [of "rev (be_bytes n x)", simplified])

lemma mem_val_mem_bytes [codec_simps]: "mem_val e (mem_bytes e n x) = x mod 256 ^ n"
  by (cases e) (simp_all add: mem_val_def mem_bytes_def be_val_be_bytes)

lemma hton_mem_val [codec_simps]: "length bs = n \<Longrightarrow> hton e n (mem_val e bs) = be_val bs"
  using be_val_less [of bs] be_bytes_be_val [of "rev bs"]
  by (cases e) (auto simp: hton_def mem_val_def)

lemma length_mem_bytes [simp]: "length (mem_bytes e n x) = n"
  by (simp add: mem_bytes_def split: endian.split)

section \<open>Characters\<close>

definition isdigit :: "char \<Rightarrow> bool" where
  "isdigit c \<longleftrightarrow> 48 \<le> (of_char c :: nat) \<and> (of_char c :: nat) \<le> 57"

definition isupper :: "char \<Rightarrow> bool" where
  "isupper c \<longleftrightarrow> 65 \<le> (of_char c :: nat) \<and> (of_char c :: nat) \<le> 90"

definition islower :: "char \<Rightarrow> bool" where
  "islower c \<longleftrightarrow> 97 \<le> (of_char c :: nat) \<and> (of_char c :: nat) \<le> 122"

definition isalnum :: "char \<Rightarrow> bool" where
  "isalnum c \<longleftrightarrow> isdigit c \<or> isupper c \<or> islower c"

definition isspace :: "char \<Rightarrow> bool" where
  "isspace c \<longleftrightarrow> (of_char c :: nat) = 32 \<or> (9 \<le> (of_char c :: nat) \<and> (of_char c :: nat) \<le> 13)"

definition tolower :: "char \<Rightarrow> char" where
  "tolower c = (if isupper c then char_of ((of_char c :: nat) + 32) else c)"

lemmas char_class_defs = isdigit_def isupper_def islower_def isalnum_def isspace_def

lemma isdigit_not_isspace: "isdigit c \<Longrightarrow> \<not> isspace c"
  by (auto simp: char_class_defs)

section \<open>Strings: searching and slicing\<close>

definition starts_with :: "string \<Rightarrow> string \<Rightarrow> bool" where
  "starts_with p s \<longleftrightarrow> take (length p) s = p"

fun find_pat :: "string \<Rightarrow> string \<Rightarrow> nat option" where
  "find_pat p [] = (if p = [] then Some 0 else None)"
| "find_pat p (c # cs) =
     (if starts_with p (c # cs) then Some 0 else map_option Suc (find_pat p cs))"

text \<open>\<open>s.find(p, pos)\<close>; \<open>None\<close> is \<open>npos\<close>.\<close>

definition str_find :: "string \<Rightarrow> string \<Rightarrow> nat \<Rightarrow> nat option" where
  "str_find p s pos =
     (if pos \<le> length s then map_option ((+) pos) (find_pat p (drop pos s)) else None)"

text \<open>\<open>s.find(c)\<close> for a character.\<close>

fun find_char :: "char \<Rightarrow> string \<Rightarrow> nat option" where
  "find_char c [] = None"
| "find_char c (x # xs) = (if x = c then Some 0 else map_option Suc (find_char c xs))"

text \<open>\<open>s.substr(pos, n)\<close> for \<open>pos \<le> s.size()\<close>; beyond that the code would throw, and each
  call below is guarded by the position it was found at.\<close>

definition substr :: "string \<Rightarrow> nat \<Rightarrow> nat \<Rightarrow> string" where
  "substr s pos n = take n (drop pos s)"

definition str_contains :: "string \<Rightarrow> string \<Rightarrow> bool" where
  "str_contains p s \<longleftrightarrow> str_find p s 0 \<noteq> None"

lemma starts_with_append [simp]: "starts_with p (p @ s)"
  by (simp add: starts_with_def)

lemma find_pat_bound: "find_pat p s = Some i \<Longrightarrow> i + length p \<le> length s"
proof (induction s arbitrary: i)
  case (Cons c cs)
  show ?case
  proof (cases "starts_with p (c # cs)")
    case True
    then have "length p = length (take (length p) (c # cs))" by (simp add: starts_with_def)
    then have "length p \<le> length (c # cs)" by (simp add: min_def split: if_splits)
    with True Cons.prems show ?thesis by simp
  next
    case False
    with Cons show ?thesis by (auto simp: map_option_case split: option.splits)
  qed
qed (auto split: if_splits)

lemma find_pat_split: "find_pat p s = Some i \<Longrightarrow> s = take i s @ p @ drop (i + length p) s"
proof (induction s arbitrary: i)
  case (Cons c cs)
  show ?case
  proof (cases "starts_with p (c # cs)")
    case True
    with Cons.prems have "i = 0" by simp
    with True show ?thesis
      by (metis append_take_drop_id append_Nil add_0 starts_with_def take0)
  next
    case False
    with Cons.prems obtain j where "find_pat p cs = Some j" "i = Suc j" by auto
    with Cons.IH [of j] show ?thesis by simp
  qed
qed (auto split: if_splits)

lemma find_char_bound: "find_char c s = Some i \<Longrightarrow> i < length s \<and> s ! i = c"
  by (induction s arbitrary: i) (auto split: if_splits)

lemma find_char_None [elio_simps]: "find_char c s = None \<longleftrightarrow> c \<notin> set s"
  by (induction s) auto

lemma find_char_append [elio_simps]: "c \<notin> set s \<Longrightarrow> find_char c (s @ c # t) = Some (length s)"
  by (induction s) auto

lemma find_char_take: "find_char c s = Some i \<Longrightarrow> c \<notin> set (take i s)"
  by (induction s arbitrary: i) (auto split: if_splits)

section \<open>Decimal numbers\<close>

definition digit_char :: "nat \<Rightarrow> char" where
  "digit_char d = char_of (48 + d)"

text \<open>\<open>std::to_string\<close> and \<open>operator<<\<close> on unsigned integers.\<close>

fun to_string :: "nat \<Rightarrow> string" where
  "to_string n = (if n < 10 then [digit_char n] else to_string (n div 10) @ [digit_char (n mod 10)])"

declare to_string.simps [simp del]

definition digits_val :: "string \<Rightarrow> nat" where
  "digits_val ds = foldl (\<lambda>a c. a * 10 + (of_char c - 48)) 0 ds"

text \<open>
  \<open>strtoull\<close> in base 10, as \<open>std::stoull\<close> and \<open>std::istream >> uint64_t\<close> use it: leading white
  space and a sign are accepted, a minus sign negates modulo \<open>2\<^sup>6\<^sup>4\<close>, the number ends at the
  first character that is not a digit, and no digits or a value of \<open>2\<^sup>6\<^sup>4\<close> and more is an
  error. The result is the value and the rest of the input.
\<close>

definition split_sign :: "string \<Rightarrow> bool \<times> string" where
  "split_sign s = (case s of [] \<Rightarrow> (False, [])
     | c # r \<Rightarrow> if c = CHR ''-'' then (True, r) else if c = CHR ''+'' then (False, r) else (False, s))"

definition strtoull :: "string \<Rightarrow> (u64 \<times> string) option" where
  "strtoull s =
     (case split_sign (dropWhile isspace s) of (neg, u) \<Rightarrow>
        let ds = takeWhile isdigit u; v = digits_val ds
        in if ds = [] \<or> 2 ^ 64 \<le> v then None
           else Some (if neg then - of_nat v else of_nat v, dropWhile isdigit u))"

definition stoull :: "string \<Rightarrow> u64 option" where
  "stoull s = map_option fst (strtoull s)"

lemma digits_val_snoc [simp]: "digits_val (ds @ [c]) = digits_val ds * 10 + (of_char c - 48)"
  by (simp add: digits_val_def)

lemma digits_val_Nil [simp]: "digits_val [] = 0"
  by (simp add: digits_val_def)

lemma of_char_digit_char: "d < 10 \<Longrightarrow> (of_char (digit_char d) :: nat) = 48 + d"
  by (simp add: digit_char_def)

lemma isdigit_digit_char: "d < 10 \<Longrightarrow> isdigit (digit_char d)"
  by (simp add: isdigit_def of_char_digit_char)

lemma to_string_digits: "set (to_string n) \<subseteq> Collect isdigit"
proof (induction n rule: to_string.induct)
  case (1 n)
  then show ?case
    by (subst to_string.simps) (auto simp: isdigit_digit_char)
qed

lemma to_string_isdigit: "c \<in> set (to_string n) \<Longrightarrow> isdigit c"
  using to_string_digits [of n] by auto

lemma to_string_not_Nil [simp]: "to_string n \<noteq> []"
  by (subst to_string.simps) simp

lemma digits_val_to_string [simp]: "digits_val (to_string n) = n"
proof (induction n rule: to_string.induct)
  case (1 n)
  show ?case
  proof (cases "n < 10")
    case True
    then show ?thesis
      using digits_val_snoc [of "[]"] by (simp add: to_string.simps of_char_digit_char)
  next
    case False
    with 1 show ?thesis by (simp add: to_string.simps [of n] of_char_digit_char)
  qed
qed

lemma to_string_inj [simp]: "to_string m = to_string n \<longleftrightarrow> m = n"
  by (metis digits_val_to_string)

text \<open>Printing and parsing are inverse, whatever follows the number.\<close>

lemma strtoull_to_string:
  assumes "n < 2 ^ 64" and "r = [] \<or> \<not> isdigit (hd r)"
  shows "strtoull (to_string n @ r) = Some (of_nat n, r)"
proof -
  obtain c cs where ns: "to_string n = c # cs" by (cases "to_string n") auto
  have dig: "isdigit d" if "d \<in> set (to_string n)" for d
    using that by (rule to_string_isdigit)
  have c: "isdigit c" using dig [of c] ns by simp
  then have sp: "\<not> isspace c" and sg: "c \<noteq> CHR ''-''" "c \<noteq> CHR ''+''"
    by (auto simp: char_class_defs)
  have "split_sign (dropWhile isspace (to_string n @ r)) = (False, to_string n @ r)"
    using sp sg by (simp add: ns split_sign_def)
  moreover have "takeWhile isdigit (to_string n @ r) = to_string n"
    and "dropWhile isdigit (to_string n @ r) = r"
    using assms(2) by (auto simp: dig takeWhile_append dropWhile_append neq_Nil_conv takeWhile_eq_Nil_iff hd_Cons_tl
        dropWhile_eq_self_iff)
  ultimately show ?thesis using assms(1) by (simp add: strtoull_def)
qed

lemma stoull_to_string: "n < 2 ^ 64 \<Longrightarrow> stoull (to_string n) = Some (of_nat n)"
  using strtoull_to_string [of n "[]"] by (simp add: stoull_def)

section \<open>Association lists\<close>

text \<open>\<open>m[k] = v\<close>, \<open>m.erase(k)\<close>, \<open>m.find(k)\<close> of \<open>std::unordered_map\<close>; the list is the iteration
  order, which the standard leaves open.\<close>

abbreviation al_get :: "('k \<times> 'v) list \<Rightarrow> 'k \<Rightarrow> 'v option" where
  "al_get \<equiv> map_of"

abbreviation al_put :: "'k \<Rightarrow> 'v \<Rightarrow> ('k \<times> 'v) list \<Rightarrow> ('k \<times> 'v) list" where
  "al_put \<equiv> AList.update"

abbreviation al_del :: "'k \<Rightarrow> ('k \<times> 'v) list \<Rightarrow> ('k \<times> 'v) list" where
  "al_del \<equiv> AList.delete"

definition al_adjust :: "'k \<Rightarrow> ('v \<Rightarrow> 'v) \<Rightarrow> ('k \<times> 'v) list \<Rightarrow> ('k \<times> 'v) list" where
  "al_adjust k f m = (case map_of m k of None \<Rightarrow> m | Some v \<Rightarrow> AList.update k (f v) m)"

abbreviation al_keys :: "('k \<times> 'v) list \<Rightarrow> 'k list" where
  "al_keys m \<equiv> map fst m"

abbreviation al_wf :: "('k \<times> 'v) list \<Rightarrow> bool" where
  "al_wf m \<equiv> distinct (map fst m)"

definition al_total :: "('v \<Rightarrow> 'n::comm_monoid_add) \<Rightarrow> ('k \<times> 'v) list \<Rightarrow> 'n" where
  "al_total f m = sum_list (map (f \<circ> snd) m)"

lemma al_get_put [elio_simps]: "al_get (al_put k v m) = (al_get m)(k \<mapsto> v)"
  by (rule update_conv')

lemma al_get_del [elio_simps]: "al_get (al_del k m) = (al_get m)(k := None)"
  by (rule delete_conv')

lemma al_get_adjust [elio_simps]:
  "al_get (al_adjust k f m) = (al_get m)(k := map_option f (al_get m k))"
  by (auto simp: al_adjust_def update_conv' fun_eq_iff split: option.split)

lemma al_wf_put [elio_simps]: "al_wf m \<Longrightarrow> al_wf (al_put k v m)"
  by (rule distinct_update)

lemma al_wf_del [elio_simps]: "al_wf m \<Longrightarrow> al_wf (al_del k m)"
  by (rule distinct_delete)

lemma al_wf_adjust [elio_simps]: "al_wf m \<Longrightarrow> al_wf (al_adjust k f m)"
  by (simp add: al_adjust_def distinct_update split: option.split)

lemma al_dom: "dom (al_get m) = set (al_keys m)"
  by (simp add: dom_map_of_conv_image_fst)

lemma al_get_None [elio_simps]: "al_get m k = None \<longleftrightarrow> k \<notin> fst ` set m"
  by (rule map_of_eq_None_iff)

lemma al_total_put_new:
  fixes f :: "'v \<Rightarrow> 'n::comm_monoid_add"
  shows "al_get m k = None \<Longrightarrow> al_total f (al_put k v m) = al_total f m + f v"
  by (induction m) (auto simp: al_total_def add.commute add.left_commute split: if_splits)

lemma al_total_put:
  fixes f :: "'v \<Rightarrow> 'n::ab_group_add"
  shows "al_wf m \<Longrightarrow> al_get m k = Some w \<Longrightarrow> al_total f (al_put k v m) = al_total f m - f w + f v"
  by (induction m) (auto simp: al_total_def algebra_simps split: if_splits)

lemma al_total_del:
  fixes f :: "'v \<Rightarrow> 'n::ab_group_add"
  shows "al_wf m \<Longrightarrow> al_get m k = Some w \<Longrightarrow> al_total f (al_del k m) = al_total f m - f w"
  by (induction m) (auto simp: al_total_def algebra_simps delete_id [unfolded image_iff] split: if_splits)

lemma al_total_Nil [simp]: "al_total f [] = 0"
  by (simp add: al_total_def)

lemma al_total_adjust:
  "(\<And>v. f (g v) = f v) \<Longrightarrow> al_total f (al_adjust k g m) = al_total f m"
proof -
  assume fg: "\<And>v. f (g v) = f v"
  have "al_get m k = Some v \<Longrightarrow> al_total f (al_put k (g v) m) = al_total f m" for v
    by (induction m) (auto simp: al_total_def fg split: if_splits)
  then show ?thesis by (simp add: al_adjust_def split: option.split)
qed

lemma al_total_nat_mono:
  fixes f :: "'v \<Rightarrow> nat"
  shows "al_get m k = Some v \<Longrightarrow> f v \<le> al_total f m"
  by (induction m) (auto simp: al_total_def split: if_splits)

lemma al_total_of_nat: "al_total (\<lambda>v. of_nat (f v)) m = of_nat (al_total f m)"
  by (induction m) (auto simp: al_total_def)

end
