(* ===== verification/Ieee_Float.thy ===== *)
theory Ieee_Float
  imports Elio_Prelude
begin

text \<open>
  The C++ \<open>float\<close> and \<open>double\<close> arithmetic the sources use, as IEEE 754 binary32 and
  binary64 with round to nearest, ties to even. A finite value is the rational number it
  denotes; every operation computes exactly and rounds once, as the standard requires.
  The sign of a zero is not represented: no source expression divides by a signed zero or
  inspects one. The theory provides the conversions from unsigned integers, the literals,
  the four operations and the comparisons that the eviction policy, the usage thresholds
  and the peer ranking need.
\<close>

datatype fp = NaN | PInf | NInf | Fin rat

text \<open>
  \<open>bit_len n\<close> is the number of binary digits of a positive integer and \<open>ilog2 x\<close> the exponent
  of the leading bit of a positive rational.
\<close>

fun bit_len :: "int \<Rightarrow> int" where
  "bit_len n = (if n \<le> 0 then 0 else 1 + bit_len (n div 2))"

declare bit_len.simps [simp del]

definition ilog2 :: "rat \<Rightarrow> int" where
  "ilog2 x =
     (case quotient_of x of (n, d) \<Rightarrow>
        let k = bit_len n - bit_len d
        in if 2 powi k \<le> x then k else k - 1)"

definition round_half_even :: "rat \<Rightarrow> int" where
  "round_half_even y =
     (let f = \<lfloor>y\<rfloor>; r = y - of_int f
      in if r < 1/2 then f else if 1/2 < r then f + 1 else if even f then f else f + 1)"

definition fp_round :: "int \<Rightarrow> int \<Rightarrow> int \<Rightarrow> rat \<Rightarrow> fp" where
  "fp_round p emin emax x =
     (if x = 0 then Fin 0
      else let a = \<bar>x\<bar>; q = 2 powi (max (ilog2 a) emin - p + 1);
               v = of_int (round_half_even (a / q)) * q
           in if 2 powi (emax + 1) \<le> v then (if 0 < x then PInf else NInf)
              else Fin (sgn x * v))"

definition rnd32 :: "rat \<Rightarrow> fp" where
  "rnd32 = fp_round 24 (- 126) 127"

definition rnd64 :: "rat \<Rightarrow> fp" where
  "rnd64 = fp_round 53 (- 1022) 1023"

text \<open>Conversions: from an unsigned integer, and from one width to the other.\<close>

definition float_of_u64 :: "u64 \<Rightarrow> fp" where
  "float_of_u64 w = rnd32 (of_nat (unat w))"

definition double_of_u64 :: "u64 \<Rightarrow> fp" where
  "double_of_u64 w = rnd64 (of_nat (unat w))"

fun to_float :: "fp \<Rightarrow> fp" where
  "to_float (Fin r) = rnd32 r"
| "to_float x = x"

text \<open>Operations, parameterised by the rounding of the result type.\<close>

fun fp_neg :: "fp \<Rightarrow> fp" where
  "fp_neg NaN = NaN"
| "fp_neg PInf = NInf"
| "fp_neg NInf = PInf"
| "fp_neg (Fin r) = Fin (- r)"

fun fp_add :: "(rat \<Rightarrow> fp) \<Rightarrow> fp \<Rightarrow> fp \<Rightarrow> fp" where
  "fp_add rnd NaN _ = NaN"
| "fp_add rnd _ NaN = NaN"
| "fp_add rnd PInf NInf = NaN"
| "fp_add rnd NInf PInf = NaN"
| "fp_add rnd PInf _ = PInf"
| "fp_add rnd _ PInf = PInf"
| "fp_add rnd NInf _ = NInf"
| "fp_add rnd _ NInf = NInf"
| "fp_add rnd (Fin a) (Fin b) = rnd (a + b)"

definition fp_inf :: "rat \<Rightarrow> fp" where
  "fp_inf s = (if 0 < s then PInf else if s < 0 then NInf else NaN)"

text \<open>
  The 64-bit object representation of a double: sign, 11 bits of biased exponent, 52 bits of
  fraction. \<open>double_bits\<close> is for values a double can hold; every NaN has one representation.
\<close>

definition double_of_bits :: "u64 \<Rightarrow> fp" where
  "double_of_bits w =
     (let n = uint w; sgn = (if n div 2 ^ 63 = 0 then 1 else - 1);
          ex = n div 2 ^ 52 mod 2 ^ 11; fr = of_int (n mod 2 ^ 52)
      in if ex = 2047 then (if fr = 0 then fp_inf sgn else NaN)
         else if ex = 0 then Fin (sgn * fr * 2 powi (- 1074))
         else Fin (sgn * (fr + 2 ^ 52) * 2 powi (ex - 1075)))"

definition double_bits :: "fp \<Rightarrow> u64" where
  "double_bits x =
     (case x of
        NaN \<Rightarrow> 0x7FF8000000000000
      | PInf \<Rightarrow> 0x7FF0000000000000
      | NInf \<Rightarrow> 0xFFF0000000000000
      | Fin r \<Rightarrow>
          if r = 0 then 0
          else let a = \<bar>r\<bar>; ex = max (ilog2 a) (- 1022); m = \<lfloor>a * 2 powi (52 - ex)\<rfloor>;
                   body = (if m < 2 ^ 52 then m else (ex + 1023) * 2 ^ 52 + (m - 2 ^ 52))
               in of_int (body + (if r < 0 then 2 ^ 63 else 0)))"

fun fp_sign :: "fp \<Rightarrow> rat" where
  "fp_sign PInf = 1"
| "fp_sign NInf = - 1"
| "fp_sign (Fin r) = sgn r"
| "fp_sign NaN = 0"

fun fp_mul :: "(rat \<Rightarrow> fp) \<Rightarrow> fp \<Rightarrow> fp \<Rightarrow> fp" where
  "fp_mul rnd NaN _ = NaN"
| "fp_mul rnd _ NaN = NaN"
| "fp_mul rnd (Fin a) (Fin b) = rnd (a * b)"
| "fp_mul rnd x y = fp_inf (fp_sign x * fp_sign y)"

text \<open>Division; a zero divisor comes from an unsigned integer, so it is a positive zero.\<close>

fun fp_div :: "(rat \<Rightarrow> fp) \<Rightarrow> fp \<Rightarrow> fp \<Rightarrow> fp" where
  "fp_div rnd NaN _ = NaN"
| "fp_div rnd _ NaN = NaN"
| "fp_div rnd (Fin a) (Fin b) = (if b = 0 then fp_inf (sgn a) else rnd (a / b))"
| "fp_div rnd (Fin a) _ = Fin 0"
| "fp_div rnd x (Fin b) = fp_inf (fp_sign x * (if b < 0 then - 1 else 1))"
| "fp_div rnd _ _ = NaN"

text \<open>\<open>x > y\<close>; every comparison with a NaN is false.\<close>

fun fp_gt :: "fp \<Rightarrow> fp \<Rightarrow> bool" where
  "fp_gt NaN _ = False"
| "fp_gt _ NaN = False"
| "fp_gt PInf y = (y \<noteq> PInf)"
| "fp_gt NInf _ = False"
| "fp_gt (Fin a) PInf = False"
| "fp_gt (Fin a) NInf = True"
| "fp_gt (Fin a) (Fin b) = (b < a)"

definition fp_ge :: "fp \<Rightarrow> fp \<Rightarrow> bool" where
  "fp_ge x y \<longleftrightarrow> fp_gt x y \<or> (x = y \<and> x \<noteq> NaN)"

section \<open>Order properties\<close>

lemma fp_gt_irrefl [simp]: "\<not> fp_gt x x"
  by (cases x) auto

lemma fp_gt_trans: "fp_gt x y \<Longrightarrow> fp_gt y z \<Longrightarrow> fp_gt x z"
  by (cases x; cases y; cases z) auto

lemma fp_gt_total: "x \<noteq> NaN \<Longrightarrow> y \<noteq> NaN \<Longrightarrow> fp_gt x y \<or> x = y \<or> fp_gt y x"
  by (cases x; cases y) auto

lemma fp_gt_NaN [simp]: "\<not> fp_gt NaN y" "\<not> fp_gt x NaN"
  by (cases y; simp) (cases x; simp)

end
