(* ===== verification/Lru_Cache.thy ===== *)
theory Lru_Cache
  imports Ieee_Float
begin

text \<open>
  The in-memory cache tier: \<open>Chunk\<close> and \<open>LRUCache\<close> of \<open>src/cache/lru_cache.cpp\<close>.

  The doubly linked \<open>lru_list_\<close> is a list of nodes, each a pair of an identity and a key,
  and \<open>lru_map_\<close> maps a key to the identity its iterator points at, so that an erase through
  a dangling iterator would be visible. \<open>uint64_t\<close> counters are 64-bit words and wrap. The
  clock is read once per operation and is an argument. The mutex makes each public operation
  atomic, so operations are functions on the state; the two eviction loops are partial
  functions, whose value \<open>None\<close> is a call that never returns.
\<close>

section \<open>Chunks\<close>

datatype HeatLevel = Cold | Warm | Hot

record Chunk =
  ck_key :: string
  ck_data :: bytes
  ck_last_access_time :: u64
  ck_creation_time :: u64
  ck_access_count :: u64
  ck_replica_count :: u32
  ck_heat_level :: HeatLevel
  ck_persisted :: bool

definition size64 :: "bytes \<Rightarrow> u64" where
  "size64 bs = of_nat (length bs)"

definition new_chunk :: "u64 \<Rightarrow> string \<Rightarrow> bytes \<Rightarrow> Chunk" where
  "new_chunk now key data =
     \<lparr>ck_key = key, ck_data = data, ck_last_access_time = now, ck_creation_time = now,
      ck_access_count = 0, ck_replica_count = 1, ck_heat_level = Cold, ck_persisted = False\<rparr>"

text \<open>\<open>Chunk::compute_heat_level\<close>: accesses per hour since the last access, in doubles.\<close>

definition compute_heat_level :: "u64 \<Rightarrow> u32 \<Rightarrow> u32 \<Rightarrow> Chunk \<Rightarrow> Chunk" where
  "compute_heat_level now hot warm c =
     (let h0 = fp_div rnd64 (double_of_u64 (now - ck_last_access_time c)) (Fin 3600);
          hours = (if fp_gt h0 (Fin 0) then h0 else rnd64 (1/100));
          rate = fp_div rnd64 (double_of_u64 (ck_access_count c)) hours
      in c\<lparr>ck_heat_level :=
             (if fp_gt rate (Fin (of_nat (unat hot))) then Hot
              else if fp_ge rate (Fin (of_nat (unat warm))) then Warm else Cold)\<rparr>)"

definition heat_value :: "HeatLevel \<Rightarrow> rat" where
  "heat_value h = (case h of Cold \<Rightarrow> 0 | Warm \<Rightarrow> 1 | Hot \<Rightarrow> 2)"

text \<open>
  \<open>Chunk::compute_eviction_score\<close>: the first two products and their sum are \<open>float\<close>
  operations; the third operand is a \<open>double\<close>, so its product and the last sum are \<open>double\<close>
  operations and the result is narrowed to \<open>float\<close> again.
\<close>

definition compute_eviction_score :: "u64 \<Rightarrow> fp \<Rightarrow> fp \<Rightarrow> fp \<Rightarrow> Chunk \<Rightarrow> fp" where
  "compute_eviction_score now w1 w2 w3 c =
     (let t = to_float (double_of_u64 (now - ck_last_access_time c));
          r = rnd32 (of_nat (unat (ck_replica_count c)));
          a = fp_add rnd32 (fp_mul rnd32 w1 t) (fp_mul rnd32 w2 r);
          b = fp_mul rnd64 w3 (Fin (heat_value (ck_heat_level c)))
      in to_float (fp_add rnd64 a b))"

section \<open>The cache state\<close>

record CacheStats =
  st_total_items :: u64
  st_total_bytes :: u64
  st_hits :: u64
  st_misses :: u64
  st_evictions :: u64
  st_hot_items :: u64
  st_warm_items :: u64
  st_cold_items :: u64

definition zero_stats :: CacheStats where
  "zero_stats = \<lparr>st_total_items = 0, st_total_bytes = 0, st_hits = 0, st_misses = 0,
     st_evictions = 0, st_hot_items = 0, st_warm_items = 0, st_cold_items = 0\<rparr>"

definition hit_rate :: "CacheStats \<Rightarrow> fp" where
  "hit_rate st =
     (let total = st_hits st + st_misses st
      in if 0 < total then fp_div rnd32 (float_of_u64 (st_hits st)) (float_of_u64 total) else Fin 0)"

record LRUCache =
  max_capacity :: u64
  current_size :: u64
  stats :: CacheStats
  eviction_weight_time :: fp
  eviction_weight_replica :: fp
  eviction_weight_heat :: fp
  hot_threshold :: u32
  warm_threshold :: u32
  eviction_protection_sec :: u64
  lru_list :: "(nat \<times> string) list"
  cache :: "(string \<times> Chunk) list"
  lru_map :: "(string \<times> nat) list"
  next_node :: nat
  has_eviction_callback :: bool
  eviction_calls :: "(string \<times> bytes) list"

text \<open>The two constructors; \<open>eviction_calls\<close> logs the invocations of the eviction callback.\<close>

definition new_lru_weighted :: "u64 \<Rightarrow> fp \<Rightarrow> fp \<Rightarrow> fp \<Rightarrow> LRUCache" where
  "new_lru_weighted cap w1 w2 w3 =
     \<lparr>max_capacity = cap, current_size = 0, stats = zero_stats,
      eviction_weight_time = w1, eviction_weight_replica = w2, eviction_weight_heat = w3,
      hot_threshold = 100, warm_threshold = 10, eviction_protection_sec = 60,
      lru_list = [], cache = [], lru_map = [], next_node = 0,
      has_eviction_callback = False, eviction_calls = []\<rparr>"

definition new_lru :: "u64 \<Rightarrow> LRUCache" where
  "new_lru cap = new_lru_weighted cap (Fin 1) (rnd32 (1/2)) (rnd32 (3/10))"

definition erase_node :: "nat \<Rightarrow> LRUCache \<Rightarrow> LRUCache" where
  "erase_node n s = s\<lparr>lru_list := filter (\<lambda>x. fst x \<noteq> n) (lru_list s)\<rparr>"

definition push_front :: "string \<Rightarrow> LRUCache \<Rightarrow> LRUCache" where
  "push_front key s = s\<lparr>lru_list := (next_node s, key) # lru_list s, next_node := Suc (next_node s)\<rparr>"

definition touch :: "string \<Rightarrow> LRUCache \<Rightarrow> LRUCache" where
  "touch key s =
     (case al_get (lru_map s) key of
        None \<Rightarrow> s
      | Some n \<Rightarrow>
          let s1 = push_front key (erase_node n s)
          in s1\<lparr>lru_map := al_put key (next_node s) (lru_map s1)\<rparr>)"

section \<open>Eviction\<close>

definition EVICTION_SAMPLE_SIZE :: nat where
  "EVICTION_SAMPLE_SIZE = 32"

text \<open>The body of the sampling loop: the candidate and its score so far.\<close>

definition chunk_score :: "u64 \<Rightarrow> LRUCache \<Rightarrow> Chunk \<Rightarrow> fp" where
  "chunk_score now s c =
     compute_eviction_score now (eviction_weight_time s) (eviction_weight_replica s)
       (eviction_weight_heat s) c"

definition sample_step :: "u64 \<Rightarrow> LRUCache \<Rightarrow> nat \<times> string \<Rightarrow> string \<times> fp \<Rightarrow> string \<times> fp" where
  "sample_step now s node acc =
     (case al_get (cache s) (snd node) of
        None \<Rightarrow> acc
      | Some c \<Rightarrow>
          if now - ck_last_access_time c < eviction_protection_sec s then acc
          else let score = chunk_score now s c
               in if fp_gt score (snd acc) then (snd node, score) else acc)"

definition select_eviction_target :: "u64 \<Rightarrow> LRUCache \<Rightarrow> string" where
  "select_eviction_target now s =
     (if lru_list s = [] then ''''
      else let sample = take EVICTION_SAMPLE_SIZE (rev (lru_list s));
               target = fst (fold (sample_step now s) sample ('''', Fin (- 1)))
           in if target = '''' then snd (last (lru_list s)) else target)"

definition unlink_key :: "string \<Rightarrow> LRUCache \<Rightarrow> LRUCache" where
  "unlink_key key s =
     (case al_get (lru_map s) key of
        None \<Rightarrow> s
      | Some n \<Rightarrow> (erase_node n s)\<lparr>lru_map := al_del key (lru_map s)\<rparr>)"

definition evict_one :: "u64 \<Rightarrow> LRUCache \<Rightarrow> LRUCache" where
  "evict_one now s =
     (if lru_list s = [] then s
      else let key = select_eviction_target now s
           in if key = '''' then s
              else let s1 = unlink_key key s
                   in case al_get (cache s1) key of
                        None \<Rightarrow> s1
                      | Some c \<Rightarrow>
                          s1\<lparr>current_size := current_size s1 - size64 (ck_data c),
                             eviction_calls :=
                               (if has_eviction_callback s1
                                then eviction_calls s1 @ [(key, ck_data c)] else eviction_calls s1),
                             cache := al_del key (cache s1),
                             stats := (stats s1)\<lparr>st_evictions := st_evictions (stats s1) + 1\<rparr>\<rparr>)"

text \<open>\<open>while (cond && !lru_list_.empty()) evict_one();\<close>\<close>

partial_function (option) evict_while ::
    "u64 \<Rightarrow> (LRUCache \<Rightarrow> bool) \<Rightarrow> LRUCache \<Rightarrow> LRUCache option" where
  "evict_while now cond s =
     (if cond s \<and> lru_list s \<noteq> [] then evict_while now cond (evict_one now s) else Some s)"

definition usage :: "LRUCache \<Rightarrow> fp" where
  "usage s = fp_div rnd32 (float_of_u64 (current_size s)) (float_of_u64 (max_capacity s))"

definition above_threshold :: "LRUCache \<Rightarrow> bool" where
  "above_threshold s \<longleftrightarrow> fp_gt (usage s) (rnd32 (8/10))"

definition above_target :: "LRUCache \<Rightarrow> bool" where
  "above_target s \<longleftrightarrow> fp_gt (usage s) (rnd32 (6/10))"

definition evict_to_target :: "u64 \<Rightarrow> LRUCache \<Rightarrow> LRUCache option" where
  "evict_to_target now s = evict_while now above_target s"

definition maybe_evict :: "u64 \<Rightarrow> LRUCache \<Rightarrow> LRUCache option" where
  "maybe_evict now s = (if above_threshold s then evict_while now above_target s else Some s)"

section \<open>Public operations\<close>

definition lru_get :: "u64 \<Rightarrow> string \<Rightarrow> LRUCache \<Rightarrow> Chunk option \<times> LRUCache" where
  "lru_get now key s =
     (case al_get (cache s) key of
        None \<Rightarrow> (None, s\<lparr>stats := (stats s)\<lparr>st_misses := st_misses (stats s) + 1\<rparr>\<rparr>)
      | Some c \<Rightarrow>
          let s1 = touch key s;
              c1 = compute_heat_level now (hot_threshold s) (warm_threshold s)
                     (c\<lparr>ck_last_access_time := now, ck_access_count := ck_access_count c + 1\<rparr>)
          in (Some c1,
              s1\<lparr>stats := (stats s1)\<lparr>st_hits := st_hits (stats s1) + 1\<rparr>,
                 cache := al_put key c1 (cache s1)\<rparr>))"

text \<open>\<open>current_size_ + data.size() > max_capacity_\<close>, the guard of the loop in \<open>put\<close>.\<close>

definition needs_room :: "bytes \<Rightarrow> LRUCache \<Rightarrow> bool" where
  "needs_room data s \<longleftrightarrow> max_capacity s < current_size s + size64 data"

definition insert_new :: "u64 \<Rightarrow> string \<Rightarrow> bytes \<Rightarrow> LRUCache \<Rightarrow> LRUCache" where
  "insert_new now key data s =
     (let c = compute_heat_level now (hot_threshold s) (warm_threshold s) (new_chunk now key data);
          s1 = push_front key (s\<lparr>cache := al_put key c (cache s)\<rparr>)
      in s1\<lparr>lru_map := al_put key (next_node s) (lru_map s1),
            current_size := current_size s1 + size64 data,
            stats := (stats s1)\<lparr>st_total_items := st_total_items (stats s1) + 1,
                                st_total_bytes := st_total_bytes (stats s1) + size64 data\<rparr>\<rparr>)"

definition overwrite :: "u64 \<Rightarrow> string \<Rightarrow> bytes \<Rightarrow> Chunk \<Rightarrow> LRUCache \<Rightarrow> LRUCache" where
  "overwrite now key data old s =
     touch key (s\<lparr>cache := al_put key (new_chunk now key data) (cache s),
                  current_size := current_size s - size64 (ck_data old) + size64 data\<rparr>)"

definition lru_put :: "u64 \<Rightarrow> string \<Rightarrow> bytes \<Rightarrow> LRUCache \<Rightarrow> (bool \<times> LRUCache) option" where
  "lru_put now key data s =
     (if max_capacity s < size64 data then Some (False, s)
      else case al_get (cache s) key of
             Some old \<Rightarrow> Some (True, overwrite now key data old s)
           | None \<Rightarrow>
               (case evict_while now (needs_room data) s of
                  None \<Rightarrow> None
                | Some s1 \<Rightarrow>
                    map_option (\<lambda>s2. (True, s2)) (maybe_evict now (insert_new now key data s1))))"

definition lru_remove :: "string \<Rightarrow> LRUCache \<Rightarrow> bool \<times> LRUCache" where
  "lru_remove key s =
     (case al_get (cache s) key of
        None \<Rightarrow> (False, s)
      | Some c \<Rightarrow>
          let n = size64 (ck_data c);
              s1 = unlink_key key
                     (s\<lparr>current_size := current_size s - n,
                        stats := (stats s)\<lparr>st_total_items := st_total_items (stats s) - 1,
                                           st_total_bytes := st_total_bytes (stats s) - n\<rparr>\<rparr>)
          in (True, s1\<lparr>cache := al_del key (cache s1)\<rparr>))"

definition lru_exists :: "string \<Rightarrow> LRUCache \<Rightarrow> bool" where
  "lru_exists key s \<longleftrightarrow> al_get (cache s) key \<noteq> None"

definition lru_clear :: "LRUCache \<Rightarrow> LRUCache" where
  "lru_clear s = s\<lparr>cache := [], lru_list := [], lru_map := [], current_size := 0, stats := zero_stats\<rparr>"

definition set_eviction_callback :: "bool \<Rightarrow> LRUCache \<Rightarrow> LRUCache" where
  "set_eviction_callback b s = s\<lparr>has_eviction_callback := b\<rparr>"

definition count_heat :: "HeatLevel \<Rightarrow> (string \<times> Chunk) list \<Rightarrow> u64" where
  "count_heat h m = of_nat (length (filter (\<lambda>x. ck_heat_level (snd x) = h) m))"

definition update_heat_counts :: "u64 \<Rightarrow> LRUCache \<Rightarrow> LRUCache" where
  "update_heat_counts now s =
     (let m = map (\<lambda>x. (fst x, compute_heat_level now (hot_threshold s) (warm_threshold s) (snd x)))
                (cache s)
      in s\<lparr>cache := m,
           stats := (stats s)\<lparr>st_hot_items := count_heat Hot m, st_warm_items := count_heat Warm m,
                              st_cold_items := count_heat Cold m\<rparr>\<rparr>)"

definition lru_stats :: "u64 \<Rightarrow> LRUCache \<Rightarrow> CacheStats \<times> LRUCache" where
  "lru_stats now s = (let s1 = update_heat_counts now s in (stats s1, s1))"

definition update_chunk_metadata :: "string \<Rightarrow> u32 \<Rightarrow> HeatLevel \<Rightarrow> LRUCache \<Rightarrow> LRUCache" where
  "update_chunk_metadata key replicas heat s =
     s\<lparr>cache := al_adjust key (\<lambda>c. c\<lparr>ck_replica_count := replicas, ck_heat_level := heat\<rparr>) (cache s)\<rparr>"

definition set_heat_thresholds :: "u32 \<Rightarrow> u32 \<Rightarrow> LRUCache \<Rightarrow> LRUCache" where
  "set_heat_thresholds hot warm s = s\<lparr>hot_threshold := hot, warm_threshold := warm\<rparr>"

section \<open>Invariant, abstraction and runs\<close>

text \<open>
  Every node of the recency list is the target of exactly the iterator stored for its key,
  the three containers index the same keys, and the byte counter is the sum of the sizes of
  the cached chunks, modulo the width of the counter.
\<close>

definition lru_inv :: "LRUCache \<Rightarrow> bool" where
  "lru_inv s \<longleftrightarrow>
     al_wf (cache s) \<and> al_wf (lru_map s) \<and> distinct (map fst (lru_list s)) \<and>
     (\<forall>n k. (n, k) \<in> set (lru_list s) \<longleftrightarrow> al_get (lru_map s) k = Some n) \<and>
     dom (al_get (lru_map s)) = dom (al_get (cache s)) \<and>
     (\<forall>x\<in>set (lru_list s). fst x < next_node s) \<and>
     current_size s = al_total (\<lambda>c. size64 (ck_data c)) (cache s) \<and>
     (\<forall>k c. al_get (cache s) k = Some c \<longrightarrow> ck_key c = k)"

text \<open>A chunk of the sample that the loop may choose, with its score.\<close>

definition eligible :: "u64 \<Rightarrow> LRUCache \<Rightarrow> nat \<times> string \<Rightarrow> fp option" where
  "eligible now s node =
     (case al_get (cache s) (snd node) of
        None \<Rightarrow> None
      | Some c \<Rightarrow> if now - ck_last_access_time c < eviction_protection_sec s then None
                  else Some (chunk_score now s c))"

definition contents :: "LRUCache \<Rightarrow> string \<Rightarrow> bytes option" where
  "contents s k = map_option ck_data (al_get (cache s) k)"

datatype ('t, 'k, 'v) cache_op = OpPut 't 'k 'v | OpGet 't 'k | OpDel 'k

text \<open>
  A run of operations, paired with the map of what was last written: an accepted store
  writes, a refused one does not, a removal erases. \<open>None\<close> is a run that hangs.
\<close>

fun cache_run ::
    "('t \<Rightarrow> 'k \<Rightarrow> 'v \<Rightarrow> 'c \<Rightarrow> (bool \<times> 'c) option) \<Rightarrow> ('t \<Rightarrow> 'k \<Rightarrow> 'c \<Rightarrow> ('v option \<times> 'c) option) \<Rightarrow>
     ('k \<Rightarrow> 'c \<Rightarrow> bool \<times> 'c) \<Rightarrow> ('t, 'k, 'v) cache_op list \<Rightarrow> 'c \<times> ('k \<Rightarrow> 'v option) \<Rightarrow>
     ('c \<times> ('k \<Rightarrow> 'v option)) option" where
  "cache_run put get del [] (c, w) = Some (c, w)"
| "cache_run put get del (OpPut t k v # ops) (c, w) =
     (case put t k v c of
        None \<Rightarrow> None
      | Some (b, c') \<Rightarrow> cache_run put get del ops (c', if b then w(k \<mapsto> v) else w))"
| "cache_run put get del (OpGet t k # ops) (c, w) =
     (case get t k c of None \<Rightarrow> None | Some (r, c') \<Rightarrow> cache_run put get del ops (c', w))"
| "cache_run put get del (OpDel k # ops) (c, w) = cache_run put get del ops (snd (del k c), w(k := None))"

definition lru_lookup :: "u64 \<Rightarrow> string \<Rightarrow> LRUCache \<Rightarrow> bytes option \<times> LRUCache" where
  "lru_lookup now k s = (map_option ck_data (fst (lru_get now k s)), snd (lru_get now k s))"

definition lru_fetch :: "u64 \<Rightarrow> string \<Rightarrow> LRUCache \<Rightarrow> (bytes option \<times> LRUCache) option" where
  "lru_fetch now k s = Some (lru_lookup now k s)"

definition cached_bytes :: "LRUCache \<Rightarrow> nat" where
  "cached_bytes s = al_total (\<lambda>c. length (ck_data c)) (cache s)"

text \<open>One rule per public operation; an operation that hangs has no successor.\<close>

definition ex_cache :: LRUCache where
  "ex_cache = insert_new 0 ''a'' [7] (new_lru 16)"

inductive lru_step :: "LRUCache \<Rightarrow> LRUCache \<Rightarrow> bool" where
  step_get: "lru_step s (snd (lru_get now k s))"
| step_put: "lru_put now k data s = Some (b, t) \<Longrightarrow> lru_step s t"
| step_remove: "lru_step s (snd (lru_remove k s))"
| step_clear: "lru_step s (lru_clear s)"
| step_stats: "lru_step s (snd (lru_stats now s))"
| step_maybe_evict: "maybe_evict now s = Some t \<Longrightarrow> lru_step s t"
| step_evict_to_target: "evict_to_target now s = Some t \<Longrightarrow> lru_step s t"
| step_metadata: "lru_step s (update_chunk_metadata k r h s)"
| step_thresholds: "lru_step s (set_heat_thresholds a b s)"
| step_callback: "lru_step s (set_eviction_callback f s)"

inductive lru_reachable :: "LRUCache \<Rightarrow> bool" where
  lru_start: "lru_reachable (new_lru_weighted cap w1 w2 w3)"
| lru_next: "lru_reachable s \<Longrightarrow> lru_step s t \<Longrightarrow> lru_reachable t"

section \<open>The representation invariant\<close>

lemma lru_inv_cong:
  "cache s = cache t \<Longrightarrow> lru_map s = lru_map t \<Longrightarrow> lru_list s = lru_list t \<Longrightarrow>
   next_node s = next_node t \<Longrightarrow> current_size s = current_size t \<Longrightarrow> lru_inv s \<longleftrightarrow> lru_inv t"
  by (simp add: lru_inv_def)

lemma lru_inv_new: "lru_inv (new_lru_weighted cap w1 w2 w3)"
  by (simp add: lru_inv_def new_lru_weighted_def)

lemma lru_inv_wf: "lru_inv s \<Longrightarrow> al_wf (cache s)" "lru_inv s \<Longrightarrow> al_wf (lru_map s)"
  by (simp_all add: lru_inv_def)

lemma lru_inv_node: "lru_inv s \<Longrightarrow> (n, k) \<in> set (lru_list s) \<longleftrightarrow> al_get (lru_map s) k = Some n"
  by (simp add: lru_inv_def)

lemma lru_inv_dom: "lru_inv s \<Longrightarrow> (al_get (lru_map s) k = None) = (al_get (cache s) k = None)"
  unfolding lru_inv_def by (metis domIff)

lemma lru_inv_size:
  "lru_inv s \<Longrightarrow> current_size s = al_total (\<lambda>c. size64 (ck_data c)) (cache s)"
  by (simp add: lru_inv_def)

lemma lru_inv_cached_node:
  assumes "lru_inv s" and "al_get (cache s) k = Some c"
  obtains n where "al_get (lru_map s) k = Some n" and "(n, k) \<in> set (lru_list s)"
  using assms lru_inv_dom [of s k] lru_inv_node [of s _ k] by (cases "al_get (lru_map s) k") auto

lemma lru_inv_node_cached:
  "lru_inv s \<Longrightarrow> (n, k) \<in> set (lru_list s) \<Longrightarrow> \<exists>c. al_get (cache s) k = Some c"
  using lru_inv_dom [of s k] lru_inv_node [of s n k] by fastforce

lemma touch_fields [simp]:
  "cache (touch k s) = cache s" "current_size (touch k s) = current_size s"
  "stats (touch k s) = stats s" "max_capacity (touch k s) = max_capacity s"
  "hot_threshold (touch k s) = hot_threshold s" "warm_threshold (touch k s) = warm_threshold s"
  by (auto simp: touch_def push_front_def erase_node_def Let_def split: option.split)

lemma unlink_key_fields [simp]:
  "cache (unlink_key k s) = cache s" "current_size (unlink_key k s) = current_size s"
  "stats (unlink_key k s) = stats s" "max_capacity (unlink_key k s) = max_capacity s"
  "next_node (unlink_key k s) = next_node s"
  by (auto simp: unlink_key_def erase_node_def split: option.split)

lemma erased_nodes:
  assumes "lru_inv s" and "al_get (lru_map s) k = Some n"
  shows "(m, j) \<in> set (filter (\<lambda>x. fst x \<noteq> n) (lru_list s)) \<longleftrightarrow> j \<noteq> k \<and> al_get (lru_map s) j = Some m"
proof -
  have d: "distinct (map fst (lru_list s))" using assms(1) by (simp add: lru_inv_def)
  have nk: "(n, k) \<in> set (lru_list s)" using assms by (simp add: lru_inv_node)
  have "(m, j) \<in> set (lru_list s) \<and> m \<noteq> n \<longleftrightarrow> j \<noteq> k \<and> (m, j) \<in> set (lru_list s)"
    using d nk assms by (metis eq_key_imp_eq_value lru_inv_node option.inject)
  then show ?thesis using assms(1) by (auto simp: lru_inv_node)
qed

lemma lru_inv_touch:
  assumes inv: "lru_inv s"
  shows "lru_inv (touch k s)"
proof (cases "al_get (lru_map s) k")
  case None
  then show ?thesis using inv by (simp add: touch_def)
next
  case (Some n)
  let ?t = "touch k s"
  have l: "lru_list ?t = (next_node s, k) # filter (\<lambda>x. fst x \<noteq> n) (lru_list s)"
    and m: "lru_map ?t = al_put k (next_node s) (lru_map s)" and nn: "next_node ?t = Suc (next_node s)"
    using Some by (simp_all add: touch_def push_front_def erase_node_def Let_def)
  have bound: "\<forall>x\<in>set (lru_list s). fst x < next_node s" using inv by (simp add: lru_inv_def)
  have nodes: "(a, j) \<in> set (lru_list ?t) \<longleftrightarrow> al_get (lru_map ?t) j = Some a" for a j
    using erased_nodes [OF inv Some, of a j] by (auto simp: l m update_conv')
  have dist: "distinct (map fst (lru_list ?t))"
    using inv bound by (auto simp: l lru_inv_def distinct_map_filter)
  have "k \<in> dom (al_get (lru_map s))" using Some by (rule domI)
  with inv have dom: "dom (al_get (lru_map ?t)) = dom (al_get (cache s))"
    by (simp add: lru_inv_def m update_conv' insert_absorb)
  have bound': "\<forall>x\<in>set (lru_list ?t). fst x < next_node ?t"
    using bound by (auto simp: l nn intro: less_SucI)
  have wf: "al_wf (lru_map ?t)" using inv by (simp add: m lru_inv_def distinct_update)
  from inv show ?thesis
    using nodes dist dom bound' wf unfolding lru_inv_def by simp
qed

lemma lru_inv_drop:
  assumes inv: "lru_inv s" and c: "al_get (cache s) k = Some c"
  shows "lru_inv ((unlink_key k s)\<lparr>current_size := current_size s - size64 (ck_data c),
                                  cache := al_del k (cache s)\<rparr>)" (is "lru_inv ?t")
proof -
  obtain n where n: "al_get (lru_map s) k = Some n" using inv c by (rule lru_inv_cached_node)
  have l: "lru_list (unlink_key k s) = filter (\<lambda>x. fst x \<noteq> n) (lru_list s)"
    and m: "lru_map (unlink_key k s) = al_del k (lru_map s)"
    using n by (simp_all add: unlink_key_def erase_node_def)
  have "(a, j) \<in> set (lru_list ?t) \<longleftrightarrow> al_get (lru_map ?t) j = Some a" for a j
    using erased_nodes [OF inv n, of a j] by (auto simp: l m delete_conv')
  moreover have "distinct (map fst (lru_list ?t))"
    using inv by (simp add: l lru_inv_def distinct_map_filter)
  moreover have "dom (al_get (lru_map ?t)) = dom (al_get (cache ?t))"
    using inv by (simp add: lru_inv_def m delete_conv')
  moreover have "\<forall>x\<in>set (lru_list ?t). fst x < next_node s"
    using inv by (auto simp: l lru_inv_def)
  moreover have "current_size ?t = al_total (\<lambda>c. size64 (ck_data c)) (cache ?t)"
    using inv c by (simp add: lru_inv_def al_total_del)
  ultimately show ?thesis
    using inv by (auto simp: lru_inv_def m distinct_delete delete_conv' split: if_splits)
qed

lemma lru_inv_evict_one: "lru_inv s \<Longrightarrow> lru_inv (evict_one now s)"
proof -
  assume inv: "lru_inv s"
  let ?k = "select_eviction_target now s"
  show ?thesis
  proof (cases "lru_list s = [] \<or> ?k = ''''")
    case True
    then show ?thesis using inv by (auto simp: evict_one_def Let_def)
  next
    case False
    show ?thesis
    proof (cases "al_get (cache s) ?k")
      case None
      then have "unlink_key ?k s = s"
        using lru_inv_dom [OF inv, of ?k] by (simp add: unlink_key_def)
      then show ?thesis using False None inv by (simp add: evict_one_def Let_def)
    next
      case (Some c)
      show ?thesis
        using lru_inv_drop [OF inv Some] False Some
        by (subst lru_inv_cong [of _ "(unlink_key ?k s)\<lparr>current_size := current_size s - size64 (ck_data c),
              cache := al_del ?k (cache s)\<rparr>"]) (simp_all add: evict_one_def Let_def)
    qed
  qed
qed

lemma evict_while_invariant:
  assumes ret: "evict_while now cond s = Some t" and "P s" and step: "\<And>s. P s \<Longrightarrow> P (evict_one now s)"
  shows "P t \<and> (\<not> cond t \<or> lru_list t = [])"
proof -
  have "now = now \<longrightarrow> cond = cond \<longrightarrow> P s \<longrightarrow> P t \<and> (\<not> cond t \<or> lru_list t = [])"
  proof (rule evict_while.raw_induct [where P = "\<lambda>n c s t. n = now \<longrightarrow> c = cond \<longrightarrow> P s \<longrightarrow>
        P t \<and> (\<not> cond t \<or> lru_list t = [])", OF _ ret])
    fix f n c s t
    assume IH: "\<And>n c s t. f n c s = Some t \<Longrightarrow> n = now \<longrightarrow> c = cond \<longrightarrow> P s \<longrightarrow>
        P t \<and> (\<not> cond t \<or> lru_list t = [])"
      and eq: "(if c s \<and> lru_list s \<noteq> [] then f n c (evict_one n s) else Some s) = Some t"
    show "n = now \<longrightarrow> c = cond \<longrightarrow> P s \<longrightarrow> P t \<and> (\<not> cond t \<or> lru_list t = [])"
    proof (intro impI)
      assume "n = now" "c = cond" "P s"
      with eq show "P t \<and> (\<not> cond t \<or> lru_list t = [])"
        using IH [of n c "evict_one n s" t] step [OF \<open>P s\<close>] by (cases "c s \<and> lru_list s \<noteq> []") auto
    qed
  qed
  then show ?thesis using \<open>P s\<close> by simp
qed

section \<open>Victim selection\<close>

lemma fold_sample_target:
  "fst (fold (sample_step now s) xs acc) \<in> insert (fst acc) (snd ` set xs)"
proof (induction xs arbitrary: acc)
  case (Cons x xs)
  have "fst (sample_step now s x acc) \<in> {fst acc, snd x}"
    by (auto simp: sample_step_def Let_def split: option.split)
  with Cons [of "sample_step now s x acc"] show ?case by auto
qed simp

lemma select_in_list:
  assumes "lru_list s \<noteq> []"
  shows "select_eviction_target now s \<in> snd ` set (lru_list s)"
proof -
  let ?xs = "take EVICTION_SAMPLE_SIZE (rev (lru_list s))"
  have "set ?xs \<subseteq> set (lru_list s)" using set_take_subset [of _ "rev (lru_list s)"] by simp
  moreover have "fst (fold (sample_step now s) ?xs ('''', Fin (- 1))) \<in> insert '''' (snd ` set ?xs)"
    using fold_sample_target [of now s ?xs "('''', Fin (- 1))"] by simp
  ultimately show ?thesis using assms by (auto simp: select_eviction_target_def Let_def)
qed

lemma sample_step_eligible:
  "sample_step now s x acc =
     (case eligible now s x of None \<Rightarrow> acc
      | Some f \<Rightarrow> if fp_gt f (snd acc) then (snd x, f) else acc)"
  by (simp add: sample_step_def eligible_def Let_def split: option.split)

lemma fold_sample_best:
  assumes "snd acc \<noteq> NaN"
  shows "let r = fold (sample_step now s) xs acc in
     snd r \<noteq> NaN \<and> \<not> fp_gt (snd acc) (snd r) \<and>
     (\<forall>x\<in>set xs. \<forall>f. eligible now s x = Some f \<longrightarrow> \<not> fp_gt f (snd r)) \<and>
     (r = acc \<or> (\<exists>x\<in>set xs. fst r = snd x \<and> eligible now s x = Some (snd r)))"
  using assms
proof (induction xs arbitrary: acc)
  case (Cons x xs)
  let ?a = "sample_step now s x acc"
  let ?r = "fold (sample_step now s) xs ?a"
  have a: "snd ?a \<noteq> NaN" "\<not> fp_gt (snd acc) (snd ?a)"
    "\<And>f. eligible now s x = Some f \<Longrightarrow> \<not> fp_gt f (snd ?a)"
    "?a = acc \<or> (fst ?a = snd x \<and> eligible now s x = Some (snd ?a))"
    using Cons.prems fp_gt_trans [of "snd acc" _ "snd acc"]
    by (auto simp: sample_step_eligible split: option.split if_splits)
  have IH: "snd ?r \<noteq> NaN" "\<not> fp_gt (snd ?a) (snd ?r)"
    "\<forall>x\<in>set xs. \<forall>f. eligible now s x = Some f \<longrightarrow> \<not> fp_gt f (snd ?r)"
    "?r = ?a \<or> (\<exists>x\<in>set xs. fst ?r = snd x \<and> eligible now s x = Some (snd ?r))"
    using Cons.IH [OF a(1)] by (simp_all add: Let_def)
  have mono: "\<not> fp_gt f (snd ?r)" if "\<not> fp_gt f (snd ?a)" for f
    using that IH(1,2) a(1) fp_gt_total [of "snd ?a" "snd ?r"] fp_gt_trans [of f "snd ?r" "snd ?a"] by auto
  show ?case
    using a(4) IH(1,3,4) mono [OF a(2)] mono [OF a(3)] by (auto simp: Let_def)
qed (simp add: Let_def)

section \<open>Eviction removes entries and nothing else\<close>

lemma evict_one_cache:
  "cache (evict_one now s) = cache s \<or>
   cache (evict_one now s) = al_del (select_eviction_target now s) (cache s)"
  by (auto simp: evict_one_def Let_def split: option.split)

lemma evict_one_max_capacity [simp]: "max_capacity (evict_one now s) = max_capacity s"
  by (auto simp: evict_one_def Let_def split: option.split)

lemma evict_one_le: "al_get (cache (evict_one now s)) \<subseteq>\<^sub>m al_get (cache s)"
  using evict_one_cache [of now s] by (auto simp: map_le_def delete_conv' split: if_splits)

lemma evict_one_list:
  assumes "lru_inv s" and "lru_list s \<noteq> []" and "select_eviction_target now s \<noteq> ''''"
  shows "lru_list (evict_one now s) = filter (\<lambda>x. snd x \<noteq> select_eviction_target now s) (lru_list s)"
proof -
  let ?k = "select_eviction_target now s"
  obtain n where n: "(n, ?k) \<in> set (lru_list s)" using select_in_list [OF assms(2)] by force
  then have m: "al_get (lru_map s) ?k = Some n" using assms(1) by (simp add: lru_inv_node)
  have "\<forall>x\<in>set (lru_list s). (fst x \<noteq> n) = (snd x \<noteq> ?k)"
  proof
    fix x assume x: "x \<in> set (lru_list s)"
    obtain a j where xj: "x = (a, j)" by (cases x)
    show "(fst x \<noteq> n) = (snd x \<noteq> ?k)"
      using erased_nodes [OF assms(1) m, of a j] x lru_inv_node [OF assms(1), of a j]
      by (auto simp: xj)
  qed
  then have f: "filter (\<lambda>x. fst x \<noteq> n) (lru_list s) = filter (\<lambda>x. snd x \<noteq> ?k) (lru_list s)"
    by (simp cong: filter_cong)
  show ?thesis
    using assms m f by (auto simp: evict_one_def Let_def unlink_key_def erase_node_def split: option.split)
qed

lemma evict_one_shrinks:
  assumes "lru_inv s" and "lru_list s \<noteq> []" and "'''' \<notin> snd ` set (lru_list s)"
  shows "length (lru_list (evict_one now s)) < length (lru_list s)"
    and "snd ` set (lru_list (evict_one now s)) \<subseteq> snd ` set (lru_list s)"
proof -
  let ?k = "select_eviction_target now s"
  have k: "?k \<in> snd ` set (lru_list s)" by (rule select_in_list [OF assms(2)])
  with assms(3) have "?k \<noteq> ''''" by metis
  note l = evict_one_list [OF assms(1,2) this]
  show "length (lru_list (evict_one now s)) < length (lru_list s)"
    using k by (auto simp: l intro!: length_filter_less)
  show "snd ` set (lru_list (evict_one now s)) \<subseteq> snd ` set (lru_list s)"
    by (auto simp: l)
qed

lemma evict_while_returns:
  assumes "lru_inv s" and "'''' \<notin> snd ` set (lru_list s)"
  shows "\<exists>t. evict_while now cond s = Some t"
  using assms
proof (induction "length (lru_list s)" arbitrary: s rule: less_induct)
  case less
  show ?case
  proof (cases "cond s \<and> lru_list s \<noteq> []")
    case True
    have "\<exists>t. evict_while now cond (evict_one now s) = Some t"
      using less.prems True evict_one_shrinks [of s now] lru_inv_evict_one [of s now]
      by (intro less.hyps) auto
    then show ?thesis using True by (subst evict_while.simps) simp
  next
    case False
    then show ?thesis by (subst evict_while.simps) auto
  qed
qed

lemma evict_while_props:
  assumes "evict_while now cond s = Some t"
  shows "lru_inv s \<Longrightarrow> lru_inv t" and "al_get (cache t) \<subseteq>\<^sub>m al_get (cache s)"
    and "max_capacity t = max_capacity s" and "\<not> cond t \<or> lru_list t = []"
proof -
  show "lru_inv s \<Longrightarrow> lru_inv t"
    using evict_while_invariant [OF assms, of lru_inv] lru_inv_evict_one by blast
  show "al_get (cache t) \<subseteq>\<^sub>m al_get (cache s)"
    using evict_while_invariant [OF assms, of "\<lambda>x. al_get (cache x) \<subseteq>\<^sub>m al_get (cache s)"]
      map_le_trans [OF evict_one_le] map_le_refl by blast
  show "max_capacity t = max_capacity s"
    using evict_while_invariant [OF assms, of "\<lambda>x. max_capacity x = max_capacity s"] by simp
  show "\<not> cond t \<or> lru_list t = []"
    using evict_while_invariant [OF assms, of "\<lambda>_. True"] by simp
qed

section \<open>Every operation keeps the invariant\<close>

lemma lru_inv_replace:
  assumes inv: "lru_inv s" and old: "al_get (cache s) k = Some c" and key: "ck_key c' = k"
  shows "lru_inv (s\<lparr>cache := al_put k c' (cache s),
                    current_size := current_size s - size64 (ck_data c) + size64 (ck_data c')\<rparr>)"
proof -
  have "k \<in> dom (al_get (cache s))" using old by (rule domI)
  then show ?thesis
    using inv old key
    by (simp add: lru_inv_def distinct_update update_conv' insert_absorb al_total_put del: map_of_eq_Some_iff)
qed

lemma lru_inv_insert_new:
  assumes inv: "lru_inv s" and new: "al_get (cache s) k = None"
  shows "lru_inv (insert_new now k data s)"
proof -
  let ?t = "insert_new now k data s"
  let ?c = "compute_heat_level now (hot_threshold s) (warm_threshold s) (new_chunk now k data)"
  have c: "ck_key ?c = k" "ck_data ?c = data" by (simp_all add: compute_heat_level_def new_chunk_def Let_def)
  have l: "lru_list ?t = (next_node s, k) # lru_list s" and m: "lru_map ?t = al_put k (next_node s) (lru_map s)"
    and nn: "next_node ?t = Suc (next_node s)" and ca: "cache ?t = al_put k ?c (cache s)"
    and sz: "current_size ?t = current_size s + size64 data"
    by (simp_all add: insert_new_def push_front_def Let_def)
  have none: "al_get (lru_map s) k = None" using inv new by (simp add: lru_inv_dom)
  have bound: "\<forall>x\<in>set (lru_list s). fst x < next_node s" using inv by (simp add: lru_inv_def)
  have "(a, j) \<in> set (lru_list ?t) \<longleftrightarrow> al_get (lru_map ?t) j = Some a" for a j
    using none lru_inv_node [OF inv, of a j] by (auto simp: l m update_conv')
  moreover have "distinct (map fst (lru_list ?t))"
    using inv bound by (auto simp: l lru_inv_def)
  moreover have "\<forall>x\<in>set (lru_list ?t). fst x < next_node ?t"
    using bound by (auto simp: l nn intro: less_SucI)
  moreover have "current_size ?t = al_total (\<lambda>c. size64 (ck_data c)) (cache ?t)"
    using inv new c by (simp add: ca sz lru_inv_def al_total_put_new)
  moreover have "al_wf (cache ?t)" "al_wf (lru_map ?t)"
    "dom (al_get (lru_map ?t)) = dom (al_get (cache ?t))"
    "\<forall>j d. al_get (cache ?t) j = Some d \<longrightarrow> ck_key d = j"
    using inv c by (simp_all add: ca m lru_inv_def distinct_update update_conv' del: map_of_eq_Some_iff)
  ultimately show ?thesis unfolding lru_inv_def by blast
qed

lemma lru_inv_maybe_evict: "lru_inv s \<Longrightarrow> maybe_evict now s = Some t \<Longrightarrow> lru_inv t"
  by (auto simp: maybe_evict_def dest: evict_while_props(1) split: if_splits)

lemma overwrite_inv:
  assumes "lru_inv s" and "al_get (cache s) key = Some old"
  shows "lru_inv (overwrite now key data old s)"
  unfolding overwrite_def
  using lru_inv_replace [OF assms, of "new_chunk now key data"]
  by (intro lru_inv_touch) (simp add: new_chunk_def)

lemma lru_inv_put:
  assumes "lru_inv s" and "lru_put now key data s = Some (b, t)"
  shows "lru_inv t"
proof (cases "max_capacity s < size64 data")
  case True
  with assms show ?thesis by (simp add: lru_put_def)
next
  case big: False
  show ?thesis
  proof (cases "al_get (cache s) key")
    case None
    with assms(2) big obtain s1 where s1: "evict_while now (needs_room data) s = Some s1"
      and t: "maybe_evict now (insert_new now key data s1) = Some t"
      by (auto simp: lru_put_def split: option.splits)
    note e = evict_while_props [OF s1]
    have "al_get (cache s1) key = None"
      using None e(2) by (metis domIff map_le_def)
    then show ?thesis
      using e(1) assms(1) t lru_inv_insert_new lru_inv_maybe_evict by blast
  next
    case (Some old)
    with assms big overwrite_inv show ?thesis by (auto simp: lru_put_def)
  qed
qed

lemma lru_get_hit_state:
  assumes "al_get (cache s) key = Some c"
  obtains c1 where "lru_get now key s = (Some c1,
      (touch key s)\<lparr>stats := (stats s)\<lparr>st_hits := st_hits (stats s) + 1\<rparr>,
                   cache := al_put key c1 (cache s)\<rparr>)"
    and "ck_key c1 = ck_key c" and "ck_data c1 = ck_data c" and "ck_last_access_time c1 = now"
    and "ck_access_count c1 = ck_access_count c + 1"
proof -
  let ?c1 = "compute_heat_level now (hot_threshold s) (warm_threshold s)
      (c\<lparr>ck_last_access_time := now, ck_access_count := ck_access_count c + 1\<rparr>)"
  show thesis
    by (rule that [of ?c1]) (use assms in \<open>simp_all add: lru_get_def compute_heat_level_def Let_def\<close>)
qed

lemma lru_inv_get: "lru_inv s \<Longrightarrow> lru_inv (snd (lru_get now key s))"
proof (cases "al_get (cache s) key")
  case None
  assume "lru_inv s"
  then show ?thesis by (simp add: lru_get_def None) (subst lru_inv_cong [of _ s]; simp)
next
  case (Some c)
  assume inv: "lru_inv s"
  obtain c1 where g: "lru_get now key s = (Some c1,
      (touch key s)\<lparr>stats := (stats s)\<lparr>st_hits := st_hits (stats s) + 1\<rparr>,
                   cache := al_put key c1 (cache s)\<rparr>)"
    and c1: "ck_key c1 = ck_key c" "ck_data c1 = ck_data c"
    using Some by (rule lru_get_hit_state)
  have k: "ck_key c = key" using inv Some by (simp add: lru_inv_def)
  have "lru_inv ((touch key s)\<lparr>cache := al_put key c1 (cache s), current_size := current_size s\<rparr>)"
    using lru_inv_replace [OF lru_inv_touch [OF inv, of key], of key c c1] Some c1 k by simp
  then show ?thesis
    by (subst lru_inv_cong [of _ "(touch key s)\<lparr>cache := al_put key c1 (cache s),
          current_size := current_size s\<rparr>"]) (simp_all add: g)
qed

lemma lru_inv_remove: "lru_inv s \<Longrightarrow> lru_inv (snd (lru_remove key s))"
proof (cases "al_get (cache s) key")
  case None
  assume "lru_inv s"
  then show ?thesis by (simp add: lru_remove_def None)
next
  case (Some c)
  assume inv: "lru_inv s"
  let ?s0 = "s\<lparr>current_size := current_size s - size64 (ck_data c),
                stats := (stats s)\<lparr>st_total_items := st_total_items (stats s) - 1,
                  st_total_bytes := st_total_bytes (stats s) - size64 (ck_data c)\<rparr>\<rparr>"
  have u: "lru_list (unlink_key key ?s0) = lru_list (unlink_key key s)"
    "lru_map (unlink_key key ?s0) = lru_map (unlink_key key s)"
    by (auto simp: unlink_key_def erase_node_def split: option.split)
  show ?thesis
    using lru_inv_drop [OF inv Some]
    by (subst lru_inv_cong [of _ "(unlink_key key s)\<lparr>current_size := current_size s - size64 (ck_data c),
              cache := al_del key (cache s)\<rparr>"]) (simp_all add: lru_remove_def Some Let_def u)
qed

lemma lru_inv_cache_map:
  assumes "lru_inv s" and "al_wf m" and "dom (al_get m) = dom (al_get (cache s))"
    and "al_total (\<lambda>c. size64 (ck_data c)) m = al_total (\<lambda>c. size64 (ck_data c)) (cache s)"
    and "\<forall>k c. al_get m k = Some c \<longrightarrow> ck_key c = k"
  shows "lru_inv (s\<lparr>cache := m\<rparr>)"
  using assms by (simp add: lru_inv_def del: map_of_eq_Some_iff)

lemma lru_inv_adjust:
  assumes "lru_inv s" and "\<And>c. ck_data (f c) = ck_data c" and "\<And>c. ck_key (f c) = ck_key c"
  shows "lru_inv (s\<lparr>cache := al_adjust k f (cache s)\<rparr>)"
proof -
  have "dom (al_get (al_adjust k f (cache s))) = dom (al_get (cache s))"
    by (auto simp: al_get_adjust dom_def split: if_splits)
  then show ?thesis
    using assms
    by (auto simp: lru_inv_def al_wf_adjust al_get_adjust al_total_adjust split: if_splits
        simp del: map_of_eq_Some_iff)
qed

lemma map_of_map_snd: "map_of (map (\<lambda>x. (fst x, f (snd x))) m) = (\<lambda>k. map_option f (map_of m k))"
  by (induction m) (auto simp: fun_eq_iff)

lemma lru_inv_update_heat_counts: "lru_inv s \<Longrightarrow> lru_inv (update_heat_counts now s)"
proof -
  assume inv: "lru_inv s"
  let ?f = "compute_heat_level now (hot_threshold s) (warm_threshold s)"
  let ?m = "map (\<lambda>x. (fst x, ?f (snd x))) (cache s)"
  have f: "ck_data (?f c) = ck_data c" "ck_key (?f c) = ck_key c" for c
    by (simp_all add: compute_heat_level_def Let_def)
  have "al_total (\<lambda>c. size64 (ck_data c)) ?m = al_total (\<lambda>c. size64 (ck_data c)) (cache s)"
    by (simp add: al_total_def o_def f)
  moreover have "dom (al_get ?m) = dom (al_get (cache s))"
    by (auto simp: map_of_map_snd dom_def)
  moreover have "al_wf ?m" using inv by (simp add: lru_inv_def o_def)
  moreover have "\<forall>k c. al_get ?m k = Some c \<longrightarrow> ck_key c = k"
    using inv f by (auto simp: map_of_map_snd lru_inv_def simp del: map_of_eq_Some_iff)
  ultimately have "lru_inv (s\<lparr>cache := ?m\<rparr>)" using inv by (intro lru_inv_cache_map)
  then show ?thesis
    by (subst lru_inv_cong [of _ "s\<lparr>cache := ?m\<rparr>"]) (simp_all add: update_heat_counts_def Let_def)
qed

lemma lru_inv_clear: "lru_inv (lru_clear s)"
  by (simp add: lru_clear_def lru_inv_def)

lemma lru_inv_update_chunk_metadata: "lru_inv s \<Longrightarrow> lru_inv (update_chunk_metadata k r h s)"
  unfolding update_chunk_metadata_def by (rule lru_inv_adjust) simp_all

lemma lru_inv_set_heat_thresholds: "lru_inv s \<Longrightarrow> lru_inv (set_heat_thresholds a b s)"
  by (subst lru_inv_cong [of _ s]) (simp_all add: set_heat_thresholds_def)

lemma lru_inv_set_eviction_callback: "lru_inv s \<Longrightarrow> lru_inv (set_eviction_callback b s)"
  by (subst lru_inv_cong [of _ s]) (simp_all add: set_eviction_callback_def)

section \<open>What the cache promises its clients\<close>

text \<open>
  A bounded cache may forget entries at any time, so its contract is a sub-map contract: a
  store that reports success leaves at most the old contents with the new binding, a refused
  one at most the old contents, a lookup that answers answers from the contents, a removal
  removes. \<open>lookup\<close> is the abstraction of the concrete state to a map, and \<open>admits\<close> the
  stores the contract is about.
\<close>

locale bounded_cache =
  fixes lookup :: "'c \<Rightarrow> 'k \<Rightarrow> 'v option"
    and put :: "'t \<Rightarrow> 'k \<Rightarrow> 'v \<Rightarrow> 'c \<Rightarrow> (bool \<times> 'c) option"
    and get :: "'t \<Rightarrow> 'k \<Rightarrow> 'c \<Rightarrow> ('v option \<times> 'c) option"
    and del :: "'k \<Rightarrow> 'c \<Rightarrow> bool \<times> 'c"
    and invar :: "'c \<Rightarrow> bool"
    and admits :: "'k \<Rightarrow> 'v \<Rightarrow> bool"
  assumes invar_put: "invar c \<Longrightarrow> admits k v \<Longrightarrow> put t k v c = Some (b, c') \<Longrightarrow> invar c'"
    and invar_get: "invar c \<Longrightarrow> get t k c = Some (r, c') \<Longrightarrow> invar c'"
    and invar_del: "invar c \<Longrightarrow> invar (snd (del k c))"
    and put_stored: "invar c \<Longrightarrow> admits k v \<Longrightarrow> put t k v c = Some (True, c') \<Longrightarrow>
          lookup c' \<subseteq>\<^sub>m (lookup c)(k \<mapsto> v)"
    and put_refused: "invar c \<Longrightarrow> admits k v \<Longrightarrow> put t k v c = Some (False, c') \<Longrightarrow>
          lookup c' \<subseteq>\<^sub>m lookup c"
    and get_value: "invar c \<Longrightarrow> get t k c = Some (Some v, c') \<Longrightarrow> lookup c k = Some v"
    and get_keeps: "invar c \<Longrightarrow> get t k c = Some (r, c') \<Longrightarrow> lookup c' \<subseteq>\<^sub>m lookup c"
    and del_value: "invar c \<Longrightarrow> lookup c k \<noteq> None \<Longrightarrow> fst (del k c)"
    and del_removes: "invar c \<Longrightarrow> lookup (snd (del k c)) \<subseteq>\<^sub>m (lookup c)(k := None)"

context bounded_cache
begin

lemma put_le:
  assumes "invar c" and "admits k v" and "put t k v c = Some (b, c')" and "lookup c \<subseteq>\<^sub>m w"
  shows "lookup c' \<subseteq>\<^sub>m (if b then w(k \<mapsto> v) else w)"
proof (cases b)
  case True
  with assms have "lookup c' \<subseteq>\<^sub>m (lookup c)(k \<mapsto> v)" by (auto intro: put_stored)
  also have "(lookup c)(k \<mapsto> v) \<subseteq>\<^sub>m w(k \<mapsto> v)" using assms(4) by (simp add: map_le_upd)
  finally (map_le_trans) show ?thesis using True by simp
next
  case False
  with assms have "lookup c' \<subseteq>\<^sub>m lookup c" by (auto intro: put_refused)
  then show ?thesis using assms(4) False by (auto intro: map_le_trans)
qed

lemma run_sound:
  "cache_run put get del ops (c, w) = Some (c', w') \<Longrightarrow> invar c \<Longrightarrow> lookup c \<subseteq>\<^sub>m w \<Longrightarrow>
   (\<And>t k v. OpPut t k v \<in> set ops \<Longrightarrow> admits k v) \<Longrightarrow> invar c' \<and> lookup c' \<subseteq>\<^sub>m w'"
proof (induction ops arbitrary: c w)
  case (Cons x ops)
  have adm: "\<And>t k v. OpPut t k v \<in> set ops \<Longrightarrow> admits k v"
    using Cons.prems(4) by (meson list.set_intros(2))
  show ?case
  proof (cases x)
    case (OpPut t k v)
    with Cons.prems obtain b c1 where p: "put t k v c = Some (b, c1)"
      and r: "cache_run put get del ops (c1, if b then w(k \<mapsto> v) else w) = Some (c', w')"
      by (auto split: option.splits)
    have a: "admits k v" using OpPut Cons.prems(4) by (meson list.set_intros(1))
    show ?thesis
      using Cons.IH [OF r invar_put [OF Cons.prems(2) a p] put_le [OF Cons.prems(2) a p Cons.prems(3)]] adm
      by blast
  next
    case (OpGet t k)
    with Cons.prems obtain v c1 where g: "get t k c = Some (v, c1)"
      and r: "cache_run put get del ops (c1, w) = Some (c', w')"
      by (auto split: option.splits)
    have "lookup c1 \<subseteq>\<^sub>m w"
      using get_keeps [OF Cons.prems(2) g] Cons.prems(3) by (rule map_le_trans)
    then show ?thesis using Cons.IH [OF r invar_get [OF Cons.prems(2) g]] adm by blast
  next
    case (OpDel k)
    have "lookup (snd (del k c)) \<subseteq>\<^sub>m (lookup c)(k := None)" using Cons.prems(2) by (rule del_removes)
    also have "(lookup c)(k := None) \<subseteq>\<^sub>m w(k := None)" using Cons.prems(3) by (auto simp: map_le_def)
    finally (map_le_trans) have "lookup (snd (del k c)) \<subseteq>\<^sub>m w(k := None)" .
    moreover have "cache_run put get del ops (snd (del k c), w(k := None)) = Some (c', w')"
      using OpDel Cons.prems(1) by simp
    ultimately show ?thesis using Cons.IH invar_del [OF Cons.prems(2)] adm by blast
  qed
qed simp

text \<open>A cached value is never stale: it is the one last written under its key.\<close>

lemma never_stale:
  assumes "cache_run put get del ops (c, lookup c) = Some (c', w')" and "invar c"
    and "\<And>t k v. OpPut t k v \<in> set ops \<Longrightarrow> admits k v"
    and "get t k c' = Some (Some v, c'')"
  shows "w' k = Some v"
proof -
  have "invar c'" "lookup c' \<subseteq>\<^sub>m w'" using run_sound [OF assms(1,2) _ assms(3)] by simp_all
  then show ?thesis using get_value [OF _ assms(4)] by (metis domI map_le_def)
qed

end

section \<open>The LRU cache implements the contract\<close>

lemma contents_eq: "contents s = map_option ck_data \<circ> al_get (cache s)"
  by (auto simp: contents_def)

lemma contents_mono: "al_get (cache t) \<subseteq>\<^sub>m al_get (cache s) \<Longrightarrow> contents t \<subseteq>\<^sub>m contents s"
  by (auto simp: map_le_def contents_def dom_def)

lemma contents_put_new: "contents (insert_new now k data s) = (contents s)(k \<mapsto> data)"
  by (auto simp: contents_def insert_new_def push_front_def Let_def update_conv' compute_heat_level_def
      new_chunk_def)

lemma maybe_evict_le: "maybe_evict now s = Some t \<Longrightarrow> contents t \<subseteq>\<^sub>m contents s"
  by (auto simp: maybe_evict_def intro!: contents_mono dest: evict_while_props(2) split: if_splits)

lemma lru_put_stored:
  assumes "lru_put now k data s = Some (True, t)"
  shows "contents t \<subseteq>\<^sub>m (contents s)(k \<mapsto> data)"
proof (cases "al_get (cache s) k")
  case None
  with assms obtain s1 where s1: "evict_while now (needs_room data) s = Some s1"
    and t: "maybe_evict now (insert_new now k data s1) = Some t"
    by (auto simp: lru_put_def split: option.splits if_splits)
  have "contents t \<subseteq>\<^sub>m (contents s1)(k \<mapsto> data)"
    using maybe_evict_le [OF t] by (simp add: contents_put_new)
  also have "\<dots> \<subseteq>\<^sub>m (contents s)(k \<mapsto> data)"
    by (intro map_le_upd contents_mono evict_while_props(2) [OF s1])
  finally (map_le_trans) show ?thesis .
next
  case (Some old)
  with assms have "t = overwrite now k data old s" by (auto simp: lru_put_def split: if_splits)
  then have "contents t = (contents s)(k \<mapsto> data)"
    by (auto simp: contents_def overwrite_def update_conv' new_chunk_def)
  then show ?thesis by simp
qed

lemma lru_put_refused: "lru_put now k data s = Some (False, t) \<Longrightarrow> t = s"
  by (auto simp: lru_put_def split: if_splits option.splits)

lemma lru_get_value: "map_option ck_data (fst (lru_get now k s)) = contents s k"
  by (auto simp: lru_get_def contents_def Let_def compute_heat_level_def split: option.split)

lemma lru_get_keeps: "contents (snd (lru_get now k s)) = contents s"
  by (rule ext) (auto simp: lru_get_def contents_def Let_def compute_heat_level_def update_conv' split: option.split)

lemma lru_remove_contents: "contents (snd (lru_remove k s)) = (contents s)(k := None)"
  by (rule ext) (auto simp: lru_remove_def contents_def Let_def delete_conv' split: option.split)

interpretation lru: bounded_cache contents lru_put lru_fetch lru_remove lru_inv "\<lambda>_ _. True"
proof (unfold_locales, goal_cases)
  case 1 then show ?case using lru_inv_put by blast
next
  case 2 then show ?case by (auto simp: lru_fetch_def lru_lookup_def lru_inv_get)
next
  case 3 then show ?case by (rule lru_inv_remove)
next
  case 4 then show ?case by (intro lru_put_stored)
next
  case 5 then show ?case by (auto dest: lru_put_refused)
next
  case 6 then show ?case by (simp add: lru_fetch_def lru_lookup_def lru_get_value)
next
  case 7 then show ?case by (auto simp: lru_fetch_def lru_lookup_def lru_get_keeps)
next
  case 8 then show ?case by (auto simp: lru_remove_def contents_def Let_def split: option.split)
next
  case 9 then show ?case by (simp add: lru_remove_contents)
qed

section \<open>Capacity\<close>

lemma lru_inv_cached_bytes: "lru_inv s \<Longrightarrow> current_size s = of_nat (cached_bytes s)"
  by (simp add: lru_inv_size cached_bytes_def size64_def al_total_of_nat)

lemma cached_bytes_insert_new:
  "al_get (cache s) k = None \<Longrightarrow> cached_bytes (insert_new now k data s) = cached_bytes s + length data"
  by (simp add: cached_bytes_def insert_new_def push_front_def Let_def al_total_put_new
      compute_heat_level_def new_chunk_def)

lemma al_total_del_le:
  fixes f :: "'v \<Rightarrow> nat"
  shows "al_total f (al_del k m) \<le> al_total f m"
  by (induction m) (auto simp: al_total_def)

lemma cached_bytes_evict_one: "cached_bytes (evict_one now s) \<le> cached_bytes s"
  using evict_one_cache [of now s] al_total_del_le
  by (auto simp: cached_bytes_def)

lemma cached_bytes_evict_while:
  "evict_while now cond s = Some t \<Longrightarrow> cached_bytes t \<le> cached_bytes s"
  using evict_while_invariant [of now cond s t "\<lambda>x. cached_bytes x \<le> cached_bytes s"]
    cached_bytes_evict_one order_trans by blast

lemma cached_bytes_maybe_evict:
  "maybe_evict now s = Some t \<Longrightarrow> cached_bytes t \<le> cached_bytes s"
  by (auto simp: maybe_evict_def dest: cached_bytes_evict_while split: if_splits)

lemma lru_inv_empty_list: "lru_inv s \<Longrightarrow> lru_list s = [] \<Longrightarrow> cache s = []"
proof -
  assume inv: "lru_inv s" and "lru_list s = []"
  then have "al_get (lru_map s) k \<noteq> Some n" for k n using lru_inv_node [OF inv, of n k] by simp
  then have "dom (al_get (lru_map s)) = {}" by (metis domD equals0I)
  then have "dom (al_get (cache s)) = {}" using inv by (simp add: lru_inv_def)
  then show ?thesis by (simp add: dom_map_of_conv_image_fst)
qed

lemma size64_le: "length data < 2 ^ 64 \<Longrightarrow> size64 data \<le> w \<longleftrightarrow> length data \<le> unat w"
  by (simp add: size64_def word_le_nat_alt unat_of_nat)

lemma room_made:
  assumes inv: "lru_inv s1" and cap: "unat (max_capacity s1) < 2 ^ 63"
    and fits: "length data \<le> unat (max_capacity s1)" and old: "cached_bytes s1 \<le> unat (max_capacity s1)"
    and stop: "\<not> needs_room data s1 \<or> lru_list s1 = []"
  shows "cached_bytes s1 + length data \<le> unat (max_capacity s1)"
proof (cases "lru_list s1 = []")
  case True
  then show ?thesis using lru_inv_empty_list [OF inv] fits by (simp add: cached_bytes_def)
next
  case False
  have eq: "current_size s1 + size64 data = of_nat (cached_bytes s1 + length data)"
    by (simp add: lru_inv_cached_bytes [OF inv] size64_def)
  have "cached_bytes s1 + length data < 2 ^ 64" using cap fits old by simp
  then have "unat (current_size s1 + size64 data) = cached_bytes s1 + length data"
    by (simp only: eq unat_of_nat) simp
  then show ?thesis using stop False by (simp add: needs_room_def word_less_nat_alt)
qed

section \<open>Reachable states\<close>

lemma lru_step_inv: "lru_step s t \<Longrightarrow> lru_inv s \<Longrightarrow> lru_inv t"
proof (induction rule: lru_step.induct)
  case (step_stats s now)
  then show ?case by (simp add: lru_stats_def Let_def lru_inv_update_heat_counts)
qed (auto intro: lru_inv_get lru_inv_put lru_inv_remove lru_inv_clear lru_inv_maybe_evict
      evict_while_props(1) lru_inv_update_chunk_metadata lru_inv_set_heat_thresholds
      lru_inv_set_eviction_callback simp: evict_to_target_def)

lemma lru_reachable_inv: "lru_reachable s \<Longrightarrow> lru_inv s"
  by (induction rule: lru_reachable.induct) (auto intro: lru_inv_new lru_step_inv)

lemma evict_while_stuck:
  assumes "cond s" and "lru_list s \<noteq> []" and "evict_one now s = s"
  shows "evict_while now cond s = None"
proof (rule ccontr)
  assume "evict_while now cond s \<noteq> None"
  then obtain t where ret: "evict_while now cond s = Some t" by auto
  have "s \<noteq> s \<or> cond \<noteq> cond \<or> now \<noteq> now"
  proof (rule evict_while.raw_induct [where P = "\<lambda>n c x t. x \<noteq> s \<or> c \<noteq> cond \<or> n \<noteq> now", OF _ ret])
    fix f n c x t
    assume IH: "\<And>n c x t. f n c x = Some t \<Longrightarrow> x \<noteq> s \<or> c \<noteq> cond \<or> n \<noteq> now"
      and eq: "(if c x \<and> lru_list x \<noteq> [] then f n c (evict_one n x) else Some x) = Some t"
    show "x \<noteq> s \<or> c \<noteq> cond \<or> n \<noteq> now"
      using assms eq IH [of n c "evict_one n x" t] by (auto split: if_splits)
  qed
  then show False by simp
qed

lemma lru_put_fits:
  assumes "al_get (cache s) key = None" and "\<not> needs_room data s" and "size64 data \<le> max_capacity s"
    and "\<not> above_threshold (insert_new now key data s)"
  shows "lru_put now key data s = Some (True, insert_new now key data s)"
  using assms by (simp add: lru_put_def maybe_evict_def evict_while.simps)

lemma lru_put_crowds_out:
  assumes "lru_list s = []" and "lru_inv s" and "size64 data \<le> max_capacity s" and "key \<noteq> ''''"
    and "above_threshold (insert_new now key data s)"
  shows "\<exists>t. lru_put now key data s = Some (True, t) \<and> contents t = Map.empty"
proof -
  let ?i = "insert_new now key data s"
  have cache: "cache s = []" using lru_inv_empty_list assms by blast
  have "fp_gt (rnd32 (8/10)) (rnd32 (6/10))" by code_simp
  then have target: "above_target x" if "above_threshold x" for x
    using that fp_gt_trans unfolding above_threshold_def above_target_def by blast
  have inv: "lru_inv ?i" using assms(2) cache by (intro lru_inv_insert_new) simp_all
  have l: "lru_list ?i = [(next_node s, key)]"
    using assms(1) by (simp add: insert_new_def push_front_def Let_def)
  then have "select_eviction_target now ?i = key"
    using select_in_list [of ?i now] by simp
  then have "lru_list (evict_one now ?i) = []"
    using evict_one_list [OF inv] l assms(4) by simp
  moreover have "lru_inv (evict_one now ?i)" using inv by (rule lru_inv_evict_one)
  ultimately have e: "cache (evict_one now ?i) = []" "lru_list (evict_one now ?i) = []"
    using lru_inv_empty_list by blast+
  have "evict_while now above_target ?i = evict_while now above_target (evict_one now ?i)"
    using l target [OF assms(5)] by (subst evict_while.simps) simp
  also have "\<dots> = Some (evict_one now ?i)" using e(2) by (subst evict_while.simps) simp
  finally have "maybe_evict now ?i = Some (evict_one now ?i)"
    using assms(5) by (simp add: maybe_evict_def)
  moreover have "evict_while now (needs_room data) s = Some s"
    using assms(1) by (subst evict_while.simps) simp
  ultimately have "lru_put now key data s = Some (True, evict_one now ?i)"
    using assms(3) cache by (simp add: lru_put_def not_less)
  moreover have "contents (evict_one now ?i) = Map.empty" using e(1) by (auto simp: contents_def)
  ultimately show ?thesis by blast
qed

lemma select_best:
  assumes "lru_list s \<noteq> []" and "'''' \<notin> set (map snd (lru_list s))"
  shows "let sample = take EVICTION_SAMPLE_SIZE (rev (lru_list s)); k = select_eviction_target now s in
     (k = snd (last (lru_list s)) \<and>
        (\<forall>x\<in>set sample. \<forall>f. eligible now s x = Some f \<longrightarrow> \<not> fp_gt f (Fin (- 1)))) \<or>
     (\<exists>x\<in>set sample. \<exists>f. k = snd x \<and> eligible now s x = Some f \<and>
        (\<forall>y\<in>set sample. \<forall>g. eligible now s y = Some g \<longrightarrow> \<not> fp_gt g f))"
proof -
  let ?xs = "take EVICTION_SAMPLE_SIZE (rev (lru_list s))"
  let ?r = "fold (sample_step now s) ?xs ('''', Fin (- 1))"
  have b: "\<forall>x\<in>set ?xs. \<forall>f. eligible now s x = Some f \<longrightarrow> \<not> fp_gt f (snd ?r)"
    "?r = ('''', Fin (- 1)) \<or> (\<exists>x\<in>set ?xs. fst ?r = snd x \<and> eligible now s x = Some (snd ?r))"
    using fold_sample_best [of "('''', Fin (- 1))" now s ?xs] by (simp_all add: Let_def)
  show ?thesis
  proof (cases "?r = ('''', Fin (- 1))")
    case True
    then show ?thesis
      using assms(1) b(1) by (auto simp: Let_def select_eviction_target_def)
  next
    case False
    with b(2) obtain x where x: "x \<in> set ?xs" "fst ?r = snd x" "eligible now s x = Some (snd ?r)" by auto
    have "x \<in> set (lru_list s)" using x(1) set_take_subset [of _ "rev (lru_list s)"] by auto
    then have "fst ?r \<noteq> ''''" using x(2) assms(2) by (metis image_eqI set_map)
    then have "select_eviction_target now s = snd x"
      using assms(1) x(2) by (simp add: select_eviction_target_def Let_def)
    then show ?thesis using x b(1) by (auto simp: Let_def)
  qed
qed

lemma touch_recency:
  assumes "lru_inv s" and "al_get (cache s) k = Some c"
  shows "map snd (lru_list (touch k s)) = k # removeAll k (map snd (lru_list s))"
proof -
  obtain n where n: "al_get (lru_map s) k = Some n" using assms by (rule lru_inv_cached_node)
  have "\<forall>x\<in>set (lru_list s). (fst x \<noteq> n) = (snd x \<noteq> k)"
  proof
    fix x assume "x \<in> set (lru_list s)"
    then show "(fst x \<noteq> n) = (snd x \<noteq> k)"
      using erased_nodes [OF assms(1) n, of "fst x" "snd x"] lru_inv_node [OF assms(1), of "fst x" "snd x"] by auto
  qed
  then have "filter (\<lambda>x. fst x \<noteq> n) (lru_list s) = filter (\<lambda>x. snd x \<noteq> k) (lru_list s)"
    by (simp cong: filter_cong)
  moreover have "removeAll k (map snd l) = map snd (filter (\<lambda>x. snd x \<noteq> k) l)"
    for l :: "(nat \<times> string) list"
    by (induction l) auto
  ultimately show ?thesis
    using n by (simp add: touch_def push_front_def erase_node_def Let_def)
qed

lemma overwrite_bytes:
  assumes "lru_inv s" and "al_get (cache s) k = Some old"
  shows "cached_bytes (overwrite now k data old s) + length (ck_data old) = cached_bytes s + length data"
proof -
  have "al_wf (cache s)" using assms(1) by (rule lru_inv_wf)
  then have "int (al_total (\<lambda>c. length (ck_data c)) (al_put k (new_chunk now k data) (cache s)))
      = int (cached_bytes s) - int (length (ck_data old)) + int (length data)"
    using al_total_put [of "cache s" k old "\<lambda>c. int (length (ck_data c))" "new_chunk now k data"] assms(2)
    by (simp add: al_total_of_nat [symmetric] cached_bytes_def new_chunk_def)
  then show ?thesis by (simp add: overwrite_def cached_bytes_def)
qed

section \<open>Properties\<close>

text \<open>A concrete cache for the examples: one entry of one byte, capacity 16.\<close>

lemma new_lru_simps:
  "lru_list (new_lru cap) = []" "lru_map (new_lru cap) = []" "cache (new_lru cap) = []"
  "current_size (new_lru cap) = 0" "max_capacity (new_lru cap) = cap" "next_node (new_lru cap) = 0"
  by (simp_all add: new_lru_def new_lru_weighted_def)

lemma insert_new_simps:
  "lru_list (insert_new now k d s) = (next_node s, k) # lru_list s"
  "cache (insert_new now k d s) =
     al_put k (compute_heat_level now (hot_threshold s) (warm_threshold s) (new_chunk now k d)) (cache s)"
  "current_size (insert_new now k d s) = current_size s + size64 d"
  "max_capacity (insert_new now k d s) = max_capacity s"
  by (simp_all add: insert_new_def push_front_def Let_def)

lemma ex_cache_list: "lru_list ex_cache = [(0, ''a'')]"
  by (simp add: ex_cache_def insert_new_simps new_lru_simps)

lemma ex_cache_put: "lru_put 0 ''a'' [7] (new_lru 16) = Some (True, ex_cache)"
proof -
  have "\<not> above_threshold (insert_new 0 ''a'' [7] (new_lru 16))"
    by (simp add: above_threshold_def usage_def insert_new_simps new_lru_simps size64_def) code_simp
  then show ?thesis
    unfolding ex_cache_def
    by (intro lru_put_fits) (simp_all add: needs_room_def new_lru_simps size64_def)
qed

lemma lru_put_total:
  assumes "lru_inv s" and "'''' \<notin> set (map snd (lru_list s))" and "key \<noteq> ''''"
  shows "\<exists>r. lru_put now key data s = Some r"
proof (cases "max_capacity s < size64 data \<or> al_get (cache s) key \<noteq> None")
  case True
  then show ?thesis by (auto simp: lru_put_def)
next
  case False
  obtain s1 where s1: "evict_while now (needs_room data) s = Some s1"
    using evict_while_returns [of s now] assms by auto
  note e = evict_while_props [OF s1]
  have none: "al_get (cache s1) key = None" using False e(2) by (metis domIff map_le_def)
  have inv: "lru_inv (insert_new now key data s1)"
    using e(1) assms(1) none lru_inv_insert_new by blast
  have "'''' \<notin> snd ` set (lru_list s1)"
  proof
    assume "'''' \<in> snd ` set (lru_list s1)"
    then obtain n where "(n, '''') \<in> set (lru_list s1)" by force
    then obtain c where "al_get (cache s1) '''' = Some c"
      using e(1) assms(1) lru_inv_node_cached by blast
    then have "al_get (cache s) '''' = Some c" using e(2) by (metis domI map_le_def)
    then obtain m where "(m, '''') \<in> set (lru_list s)"
      using assms(1) lru_inv_cached_node by blast
    then show False using assms(2) by force
  qed
  then have "'''' \<notin> snd ` set (lru_list (insert_new now key data s1))"
    using assms(3) by (auto simp: insert_new_def push_front_def Let_def)
  then have "\<exists>t. evict_while now above_target (insert_new now key data s1) = Some t"
    by (intro evict_while_returns inv)
  then show ?thesis
    using False s1 by (auto simp: lru_put_def maybe_evict_def)
qed

lemma ex_cache_bytes: "cached_bytes ex_cache = 1"
proof -
  have "cached_bytes (new_lru 16) = 0" by (simp add: cached_bytes_def new_lru_simps al_total_def)
  moreover have "al_get (cache (new_lru 16)) ''a'' = None" by (simp add: new_lru_simps)
  ultimately show ?thesis by (simp add: ex_cache_def cached_bytes_insert_new)
qed

text \<open>
  C4. In every reachable state each node of the recency list is the target of exactly the
  iterator kept for its key, no key occurs twice in the list, the list and the cache hold the
  same keys, and \<open>current_size_\<close> is the number of cached bytes modulo its width. So
  \<open>touch\<close>, \<open>evict_one\<close> and \<open>remove\<close> never erase through a dangling iterator.
\<close>

theorem lru_iterators_valid:
  assumes "lru_reachable s"
  shows "(\<forall>n k. (n, k) \<in> set (lru_list s) \<longleftrightarrow> al_get (lru_map s) k = Some n) \<and>
         distinct (map snd (lru_list s)) \<and> set (map snd (lru_list s)) = set (al_keys (cache s)) \<and>
         current_size s = of_nat (cached_bytes s)"
proof -
  have inv: "lru_inv s" using assms by (rule lru_reachable_inv)
  have "inj_on snd (set (lru_list s))"
    by (rule inj_onI) (metis inv lru_inv_node option.inject prod.collapse)
  moreover have "distinct (lru_list s)" using inv by (simp add: lru_inv_def distinct_map)
  ultimately have "distinct (map snd (lru_list s))" by (simp add: distinct_map)
  moreover have "set (map snd (lru_list s)) = set (al_keys (cache s))"
  proof -
    have "k \<in> snd ` set (lru_list s) \<longleftrightarrow> k \<in> dom (al_get (cache s))" for k
      using lru_inv_node [OF inv, of _ k] lru_inv_dom [OF inv, of k] by force
    then show ?thesis by (auto simp: dom_map_of_conv_image_fst)
  qed
  ultimately show ?thesis using inv lru_inv_cached_bytes by (simp add: lru_inv_node)
qed

theorem lru_iterators_valid_witness:
  "\<exists>s. lru_reachable s \<and> lru_list s \<noteq> [] \<and>
     (\<forall>n k. (n, k) \<in> set (lru_list s) \<longleftrightarrow> al_get (lru_map s) k = Some n) \<and>
     current_size s = of_nat (cached_bytes s)"
proof -
  have "lru_reachable (new_lru 16)" unfolding new_lru_def by (rule lru_start)
  then have "lru_reachable ex_cache"
    by (rule lru_next) (rule step_put [OF ex_cache_put])
  then show ?thesis
    using lru_iterators_valid [of ex_cache] ex_cache_list
    by (intro exI [of _ ex_cache]) (metis list.distinct(1))
qed

text \<open>
  Freshness. After any sequence of stores, lookups and removals on a new cache, a
  lookup that finds a value finds the value of the last accepted store under that key, and
  not one that was removed or overwritten. The map \<open>w\<close> is the record of accepted stores.
\<close>

theorem lru_never_stale:
  assumes "cache_run lru_put lru_fetch lru_remove ops (new_lru_weighted cap w1 w2 w3, Map.empty) = Some (s, w)"
    and "fst (lru_lookup now k s) = Some v"
  shows "w k = Some v"
proof -
  have "contents (new_lru_weighted cap w1 w2 w3) = Map.empty"
    by (auto simp: contents_def new_lru_weighted_def)
  then show ?thesis
    using lru.never_stale [of ops "new_lru_weighted cap w1 w2 w3" s w now k v] assms lru_inv_new
    by (cases "lru_lookup now k s") (simp add: lru_fetch_def)
qed

theorem lru_never_stale_witness:
  "\<exists>s w. cache_run lru_put lru_fetch lru_remove [OpPut 0 ''a'' [7], OpGet 5 ''a'']
       (new_lru 16, Map.empty) = Some (s, w) \<and>
     fst (lru_lookup 9 ''a'' s) = Some [7] \<and> w ''a'' = Some [7]"
proof -
  let ?s = "snd (lru_lookup 5 ''a'' ex_cache)"
  let ?w = "Map.empty(''a'' \<mapsto> [7::byte])"
  have run: "cache_run lru_put lru_fetch lru_remove [OpPut 0 ''a'' [7], OpGet 5 ''a'']
       (new_lru 16, Map.empty) = Some (?s, ?w)"
    by (cases "lru_lookup 5 ''a'' ex_cache") (simp add: ex_cache_put lru_fetch_def)
  have "fst (lru_lookup 9 ''a'' ?s) = contents ex_cache ''a''"
    by (simp add: lru_lookup_def lru_get_value lru_get_keeps)
  also have "\<dots> = Some [7]"
    by (simp add: ex_cache_def contents_put_new)
  finally have get: "fst (lru_lookup 9 ''a'' ?s) = Some [7]" .
  show ?thesis
    using run get lru_never_stale [OF run [unfolded new_lru_def] get] by blast
qed

text \<open>
  C12. Termination. A store returns whenever neither the stored key nor a cached key is the
  empty string: each iteration of the eviction loops removes an entry.
\<close>

theorem lru_put_returns:
  assumes "lru_inv s" and "'''' \<notin> set (map snd (lru_list s))" and "key \<noteq> ''''"
  shows "\<exists>r. lru_put now key data s = Some r"
  using assms by (rule lru_put_total)

theorem lru_put_returns_witness:
  "'''' \<notin> set (map snd (lru_list ex_cache)) \<and> (\<exists>r. lru_put 3 ''b'' (replicate 12 0) ex_cache = Some r)"
proof -
  have inv: "lru_inv ex_cache"
    unfolding ex_cache_def new_lru_def by (intro lru_inv_insert_new lru_inv_new) (simp add: new_lru_weighted_def)
  have keys: "'''' \<notin> set (map snd (lru_list ex_cache))" by (simp add: ex_cache_list)
  show ?thesis using keys lru_put_returns [OF inv keys, of "''b''" 3 "replicate 12 0"] by simp
qed

text \<open>
  A store hangs while holding the cache lock when the only cached key is the empty
  string and the new item does not fit beside it: \<open>evict_one\<close> returns without evicting on
  an empty victim key, and the loop in \<open>put\<close> keeps calling it. The P2P upload path stores
  under whatever key a peer sends, the empty one included.
\<close>

theorem lru_put_hangs_on_empty_key:
  assumes "lru_list s = [(n, '''')]" and "size64 data \<le> max_capacity s"
    and "al_get (cache s) key = None" and "needs_room data s"
  shows "lru_put now key data s = None"
proof -
  have "select_eviction_target now s = ''''"
    using select_in_list [of s now] assms(1) by simp
  then have "evict_one now s = s" by (simp add: evict_one_def Let_def)
  then have "evict_while now (needs_room data) s = None"
    using assms by (intro evict_while_stuck) simp_all
  then show ?thesis using assms by (simp add: lru_put_def)
qed

theorem lru_put_hangs_on_empty_key_witness:
  "lru_put 0 '''' [1, 2, 3, 4, 5] (new_lru 8) = Some (True, insert_new 0 '''' [1, 2, 3, 4, 5] (new_lru 8)) \<and>
   lru_put 1 ''b'' [1, 2, 3, 4, 5] (insert_new 0 '''' [1, 2, 3, 4, 5] (new_lru 8)) = None"
proof
  let ?s = "insert_new 0 '''' [1, 2, 3, 4, 5] (new_lru 8)"
  have above: "\<not> above_threshold ?s"
    by (simp add: above_threshold_def usage_def insert_new_simps new_lru_simps size64_def) code_simp
  then show "lru_put 0 '''' [1, 2, 3, 4, 5] (new_lru 8) = Some (True, ?s)"
    by (intro lru_put_fits) (simp_all add: needs_room_def new_lru_simps size64_def)
  show "lru_put 1 ''b'' [1, 2, 3, 4, 5] ?s = None"
    by (rule lru_put_hangs_on_empty_key [of _ 0])
      (simp_all add: insert_new_simps new_lru_simps needs_room_def size64_def)
qed

text \<open>
  C15. Storing under a new key never takes the cache above its capacity, and the store is
  refused exactly when the item alone is larger than the capacity.
\<close>

theorem lru_put_within_capacity:
  assumes "lru_inv s" and "unat (max_capacity s) < 2 ^ 63" and "length data < 2 ^ 64"
    and "cached_bytes s \<le> unat (max_capacity s)" and "al_get (cache s) key = None"
    and "lru_put now key data s = Some (b, t)"
  shows "cached_bytes t \<le> unat (max_capacity s) \<and> (b \<longleftrightarrow> length data \<le> unat (max_capacity s))"
proof (cases "max_capacity s < size64 data")
  case True
  then show ?thesis using assms size64_le [of data "max_capacity s"] by (auto simp: lru_put_def)
next
  case False
  then have fits: "length data \<le> unat (max_capacity s)"
    using size64_le [OF assms(3), of "max_capacity s"] by (simp add: not_less)
  from False assms(5,6) obtain s1 where s1: "evict_while now (needs_room data) s = Some s1"
    and t: "maybe_evict now (insert_new now key data s1) = Some t" and b: "b"
    by (auto simp: lru_put_def split: option.splits)
  note e = evict_while_props [OF s1]
  have none: "al_get (cache s1) key = None" using assms(5) e(2) by (metis domIff map_le_def)
  have "cached_bytes s1 + length data \<le> unat (max_capacity s1)"
    using e assms(1,2,4) fits cached_bytes_evict_while [OF s1] by (intro room_made) simp_all
  then have "cached_bytes (insert_new now key data s1) \<le> unat (max_capacity s)"
    using none e(3) by (simp add: cached_bytes_insert_new)
  then show ?thesis using cached_bytes_maybe_evict [OF t] fits b by simp
qed

theorem lru_put_within_capacity_witness:
  "\<exists>b t. lru_put 3 ''b'' (replicate 12 0) ex_cache = Some (b, t) \<and> cached_bytes t \<le> 16 \<and> b"
proof -
  have inv: "lru_inv ex_cache"
    unfolding ex_cache_def new_lru_def by (intro lru_inv_insert_new lru_inv_new) (simp add: new_lru_weighted_def)
  have cap: "unat (max_capacity ex_cache) = 16" and new: "al_get (cache ex_cache) ''b'' = None"
    by (simp_all add: ex_cache_def insert_new_simps new_lru_simps)
  obtain b t where r: "lru_put 3 ''b'' (replicate 12 0) ex_cache = Some (b, t)"
    using lru_put_total [OF inv, of "''b''" 3 "replicate 12 0"] by (auto simp: ex_cache_list)
  have "cached_bytes t \<le> 16 \<and> b"
    using lru_put_within_capacity [OF inv _ _ _ new r] by (simp add: cap ex_cache_bytes)
  then show ?thesis using r by blast
qed

text \<open>
  Overwriting an existing key evicts nothing: the cached bytes change by exactly the
  difference of the two sizes, so the cache can stay above its capacity afterwards.
\<close>

theorem lru_put_overwrite_bytes:
  assumes "lru_inv s" and "al_get (cache s) key = Some old" and "size64 data \<le> max_capacity s"
  shows "\<exists>t. lru_put now key data s = Some (True, t) \<and> max_capacity t = max_capacity s \<and>
     cached_bytes t + length (ck_data old) = cached_bytes s + length data"
  using assms overwrite_bytes [OF assms(1,2), of now data]
  by (auto simp: lru_put_def not_less [symmetric] overwrite_def)

theorem lru_put_overwrite_bytes_witness:
  "\<exists>s t. lru_put 1 ''a'' (replicate 16 0) s = Some (True, t) \<and> cached_bytes s \<le> unat (max_capacity s) \<and>
     unat (max_capacity t) < cached_bytes t"
proof -
  let ?s = "insert_new 0 ''b'' [1, 2, 3] ex_cache"
  have inv: "lru_inv ?s"
    unfolding ex_cache_def new_lru_def
    by (intro lru_inv_insert_new lru_inv_new) (simp_all add: new_lru_simps [unfolded new_lru_def] insert_new_simps)
  obtain old where old: "al_get (cache ?s) ''a'' = Some old" "ck_data old = [7]"
    by (simp add: ex_cache_def insert_new_simps new_lru_simps compute_heat_level_def new_chunk_def Let_def)
  have "al_get (cache ex_cache) ''b'' = None"
    by (simp add: ex_cache_def insert_new_simps new_lru_simps)
  then have "cached_bytes ?s = 4" by (simp add: cached_bytes_insert_new ex_cache_bytes)
  moreover have "max_capacity ?s = 16"
    by (simp add: ex_cache_def insert_new_simps new_lru_simps)
  ultimately have facts: "cached_bytes ?s = 4" "max_capacity ?s = 16" by simp_all
  have "\<exists>t. lru_put 1 ''a'' (replicate 16 0) ?s = Some (True, t) \<and> max_capacity t = 16 \<and> cached_bytes t = 19"
    using facts lru_put_overwrite_bytes [OF inv old(1), of "replicate 16 0" 1] old(2)
    by (auto simp: size64_def)
  then obtain t where "lru_put 1 ''a'' (replicate 16 0) ?s = Some (True, t)"
    "max_capacity t = 16" "cached_bytes t = 19" by blast
  then show ?thesis using facts by (intro exI [of _ ?s] exI [of _ t]) simp
qed

text \<open>
  The victim is the sampled entry with the highest eviction score among those outside
  the protection period; when no sampled entry qualifies it is the least recently used one.
  The sample are the 32 least recently used entries.
\<close>

theorem select_eviction_target_best:
  assumes "lru_list s \<noteq> []" and "'''' \<notin> set (map snd (lru_list s))"
  shows "let sample = take EVICTION_SAMPLE_SIZE (rev (lru_list s)); k = select_eviction_target now s in
     (k = snd (last (lru_list s)) \<and>
        (\<forall>x\<in>set sample. \<forall>f. eligible now s x = Some f \<longrightarrow> \<not> fp_gt f (Fin (- 1)))) \<or>
     (\<exists>x\<in>set sample. \<exists>f. k = snd x \<and> eligible now s x = Some f \<and>
        (\<forall>y\<in>set sample. \<forall>g. eligible now s y = Some g \<longrightarrow> \<not> fp_gt g f))"
  using assms by (rule select_best)

theorem select_eviction_target_best_witness:
  "lru_list ex_cache \<noteq> [] \<and> select_eviction_target 0 ex_cache = ''a''"
  using select_eviction_target_best [of ex_cache 0] select_in_list [of ex_cache 0]
  by (simp add: ex_cache_list)

text \<open>
  A store that reports success may leave nothing cached: an item above 80 percent of an
  empty cache's capacity is accepted and evicted again before \<open>put\<close> returns.
\<close>

theorem lru_put_reports_dropped_item:
  assumes "lru_list s = []" and "lru_inv s" and "size64 data \<le> max_capacity s" and "key \<noteq> ''''"
    and "above_threshold (insert_new now key data s)"
  shows "\<exists>t. lru_put now key data s = Some (True, t) \<and> contents t key = None"
  using lru_put_crowds_out [OF assms] by auto

theorem lru_put_reports_dropped_item_witness:
  "\<exists>t. lru_put 0 ''a'' (replicate 9 0) (new_lru 10) = Some (True, t) \<and> contents t ''a'' = None"
proof (rule lru_put_reports_dropped_item)
  show "above_threshold (insert_new 0 ''a'' (replicate 9 0) (new_lru 10))"
    by (simp add: above_threshold_def usage_def insert_new_simps new_lru_simps size64_def) code_simp
qed (simp_all add: new_lru_simps size64_def lru_inv_new [of 10 "Fin 1" "rnd32 (1/2)" "rnd32 (3/10)", folded new_lru_def])

text \<open>
  A hit returns the stored bytes, refreshes the access time, moves the key to the front
  of the recency list and keeps the order of all other keys; a miss changes only the miss
  counter.
\<close>

theorem lru_get_recency:
  assumes "lru_inv s"
  shows "case lru_get now k s of
      (None, t) \<Rightarrow> contents s k = None \<and> t = s\<lparr>stats := (stats s)\<lparr>st_misses := st_misses (stats s) + 1\<rparr>\<rparr>
    | (Some c, t) \<Rightarrow> contents s k = Some (ck_data c) \<and> ck_last_access_time c = now \<and>
        al_get (cache t) k = Some c \<and> map snd (lru_list t) = k # removeAll k (map snd (lru_list s))"
proof (cases "al_get (cache s) k")
  case None
  then show ?thesis by (simp add: lru_get_def contents_def)
next
  case (Some c)
  obtain c1 where g: "lru_get now k s = (Some c1,
      (touch k s)\<lparr>stats := (stats s)\<lparr>st_hits := st_hits (stats s) + 1\<rparr>, cache := al_put k c1 (cache s)\<rparr>)"
    and c1: "ck_data c1 = ck_data c" "ck_last_access_time c1 = now"
    using Some by (rule lru_get_hit_state)
  then show ?thesis
    using touch_recency [OF assms Some] Some by (simp add: contents_def update_conv')
qed

theorem lru_get_recency_witness:
  "lru_inv ex_cache \<and> contents ex_cache ''a'' = Some [7] \<and>
   map snd (lru_list (snd (lru_get 5 ''a'' ex_cache))) = [''a'']"
proof -
  have inv: "lru_inv ex_cache"
    unfolding ex_cache_def new_lru_def by (intro lru_inv_insert_new lru_inv_new) (simp add: new_lru_weighted_def)
  have c: "contents ex_cache ''a'' = Some [7]" by (simp add: ex_cache_def contents_put_new)
  show ?thesis
    using inv c lru_get_recency [OF inv, of "''a''" 5]
    by (auto simp: ex_cache_list split: prod.splits option.splits)
qed

end
