(* ===== verification/Chunk_Manager.thy ===== *)
theory Chunk_Manager
  imports Lru_Cache
begin

text \<open>
  The two-tier chunk store: \<open>ChunkManager\<close> of \<open>src/cache/chunk_manager.cpp\<close>, a memory tier
  (the \<open>LRUCache\<close> of the theory before) over plain files with an index in memory.

  The file system is part of the state: the regular files by path, and what the system
  allows (creating directories, opening for writing and reading, listing, renaming).
  \<open>fs_store p bs\<close> is what a file holds after \<open>bs\<close> was written to it, shorter than \<open>bs\<close> when
  the device is full: the code does not look at the stream after the write. An exception
  caught by a handler is the branch that returns \<open>false\<close>. SHA-256 (\<open>elio::hash\<close>) and the
  JSON printer are parameters. A store can hang in the eviction loop of the memory tier, and
  then the operation that made it has the value \<open>None\<close>.
\<close>

section \<open>Paths\<close>

definition safe_char :: "char \<Rightarrow> bool" where
  "safe_char c \<longleftrightarrow> isalnum c \<or> c = CHR ''.'' \<or> c = CHR ''_'' \<or> c = CHR ''-'' \<or> c = CHR ''#''"

definition sanitize_chunk_filename :: "string \<Rightarrow> string" where
  "sanitize_chunk_filename chunk_id =
     (let out = map (\<lambda>c. if safe_char c then c else CHR ''_'') chunk_id
      in if out = '''' \<or> out = ''.'' \<or> out = ''..'' then ''_'' else out)"

text \<open>\<open>fs::path\<close>: \<open>operator/\<close> with a relative right operand, \<open>extension\<close> and \<open>stem\<close>.\<close>

definition path_join :: "string \<Rightarrow> string \<Rightarrow> string" where
  "path_join a b = (if a = '''' \<or> last a = CHR ''/'' then a @ b else a @ ''/'' @ b)"

definition split_ext :: "string \<Rightarrow> string \<times> string" where
  "split_ext name =
     (let tl' = rev (takeWhile (\<lambda>c. c \<noteq> CHR ''.'') (rev name));
          stem = take (length name - length tl' - 1) name
      in if length tl' = length name \<or> stem = '''' \<or> name = ''..'' then (name, '''')
         else (stem, CHR ''.'' # tl'))"

definition chunks_dir :: "string \<Rightarrow> string" where
  "chunks_dir base = path_join base ''chunks''"

definition chunk_path :: "string \<Rightarrow> string \<Rightarrow> string" where
  "chunk_path base chunk_id =
     path_join (chunks_dir base) (sanitize_chunk_filename chunk_id @ ''.chunk'')"

section \<open>State\<close>

record FileSystem =
  files :: "(string \<times> bytes) list"
  fs_mkdir_ok :: "string \<Rightarrow> bool"
  fs_write_ok :: "string \<Rightarrow> bool"
  fs_read_ok :: "string \<Rightarrow> bool"
  fs_remove_ok :: "string \<Rightarrow> bool"
  fs_list_ok :: "string \<Rightarrow> bool"
  fs_stat_ok :: "string \<Rightarrow> bool"
  fs_rename_ok :: "string \<Rightarrow> string \<Rightarrow> bool"
  fs_store :: "string \<Rightarrow> bytes \<Rightarrow> bytes"

record CacheConfig =
  memory_cache_size_mb :: u64
  disk_cache_size_mb :: u64
  chunk_size_mb :: u32
  cfg_eviction_threshold :: fp
  cfg_eviction_target :: fp
  cfg_disk_cache_path :: string
  cfg_eviction_protection_sec :: u32
  cfg_weight_time :: fp
  cfg_weight_replica :: fp
  cfg_weight_heat :: fp
  cfg_hot_threshold :: u32
  cfg_warm_threshold :: u32

record ChunkMetadata =
  md_chunk_id :: string
  md_object_key :: string
  md_offset :: u64
  md_size :: u64
  md_hash :: string
  md_version :: u64
  md_is_immutable :: bool
  md_replica_count :: u32
  md_heat_level :: HeatLevel
  md_last_access_time :: u64
  md_creation_time :: u64

record ChunkManager =
  memory_cache :: LRUCache
  metadata :: "(string \<times> ChunkMetadata) list"
  disk_cache_path :: string
  initialized :: bool
  disk_index :: "(string \<times> u64) list"
  disk :: FileSystem

text \<open>The constructor; the multiplication to bytes is in 64 bits.\<close>

definition new_chunk_manager :: "FileSystem \<Rightarrow> CacheConfig \<Rightarrow> ChunkManager" where
  "new_chunk_manager d cfg =
     \<lparr>memory_cache =
        set_heat_thresholds (cfg_hot_threshold cfg) (cfg_warm_threshold cfg)
          (new_lru_weighted (memory_cache_size_mb cfg * 1024 * 1024)
             (cfg_weight_time cfg) (cfg_weight_replica cfg) (cfg_weight_heat cfg)),
      metadata = [], disk_cache_path = cfg_disk_cache_path cfg, initialized = False,
      disk_index = [], disk = d\<rparr>"

section \<open>Disk tier\<close>

definition persist_to_disk :: "string \<Rightarrow> bytes \<Rightarrow> ChunkManager \<Rightarrow> bool \<times> ChunkManager" where
  "persist_to_disk chunk_id data m =
     (let p = chunk_path (disk_cache_path m) chunk_id; d = disk m
      in if disk_cache_path m = '''' \<or> \<not> fs_mkdir_ok d (chunks_dir (disk_cache_path m)) \<or> \<not> fs_write_ok d p
         then (False, m)
         else (True, m\<lparr>disk := d\<lparr>files := al_put p (fs_store d p data) (files d)\<rparr>\<rparr>))"

definition load_from_disk :: "string \<Rightarrow> ChunkManager \<Rightarrow> bytes option" where
  "load_from_disk chunk_id m =
     (let p = chunk_path (disk_cache_path m) chunk_id
      in if disk_cache_path m = '''' \<or> \<not> fs_read_ok (disk m) p then None
         else al_get (files (disk m)) p)"

definition delete_from_disk :: "string \<Rightarrow> ChunkManager \<Rightarrow> bool \<times> ChunkManager" where
  "delete_from_disk chunk_id m =
     (let p = chunk_path (disk_cache_path m) chunk_id; d = disk m
      in if disk_cache_path m = '''' then (False, m)
         else if al_get (files d) p = None then (True, m)
         else if \<not> fs_remove_ok d p then (False, m)
         else (True, m\<lparr>disk := d\<lparr>files := al_del p (files d)\<rparr>\<rparr>))"

text \<open>The directory scan: the entries of a directory are the files one level below it.\<close>

definition dir_entry :: "string \<Rightarrow> string \<Rightarrow> string option" where
  "dir_entry dir p =
     (let name = drop (length (path_join dir '''')) p
      in if starts_with (path_join dir '''') p \<and> name \<noteq> '''' \<and> CHR ''/'' \<notin> set name
         then Some name else None)"

definition index_file :: "FileSystem \<Rightarrow> string \<Rightarrow> string \<times> bytes \<Rightarrow> (string \<times> u64) list \<Rightarrow> (string \<times> u64) list" where
  "index_file d dir f idx =
     (case dir_entry dir (fst f) of
        None \<Rightarrow> idx
      | Some name \<Rightarrow>
          if snd (split_ext name) = ''.chunk'' \<and> fs_stat_ok d (fst f)
          then al_put (fst (split_ext name)) (size64 (snd f)) idx else idx)"

definition initialize_disk_cache :: "ChunkManager \<Rightarrow> bool \<times> ChunkManager" where
  "initialize_disk_cache m =
     (let base = disk_cache_path m; d = disk m
      in if base = '''' \<or> \<not> fs_mkdir_ok d (chunks_dir base) \<or> \<not> fs_mkdir_ok d (path_join base ''metadata'')
         then (False, m)
         else if \<not> fs_list_ok d (chunks_dir base) then (False, m\<lparr>disk_index := []\<rparr>)
         else (True, m\<lparr>disk_index := fold (index_file d (chunks_dir base)) (files d) [],
                       initialized := True\<rparr>))"

definition disk_index_bytes :: "ChunkManager \<Rightarrow> u64" where
  "disk_index_bytes m = al_total (\<lambda>n. n) (disk_index m)"

section \<open>Chunk operations\<close>

definition get_chunk :: "u64 \<Rightarrow> string \<Rightarrow> ChunkManager \<Rightarrow> (Chunk option \<times> ChunkManager) option" where
  "get_chunk now chunk_id m =
     (case lru_get now chunk_id (memory_cache m) of
        (Some c, l) \<Rightarrow> Some (Some c, m\<lparr>memory_cache := l\<rparr>)
      | (None, l) \<Rightarrow>
          (case lru_get now chunk_id l of
             (Some c, l') \<Rightarrow> Some (Some c, m\<lparr>memory_cache := l'\<rparr>)
           | (None, l') \<Rightarrow>
               let m1 = m\<lparr>memory_cache := l'\<rparr>
               in if al_get (disk_index m1) chunk_id = None then Some (None, m1)
                  else case load_from_disk chunk_id m1 of
                         None \<Rightarrow> Some (None, m1\<lparr>disk_index := al_del chunk_id (disk_index m1)\<rparr>)
                       | Some data \<Rightarrow>
                           (case lru_put now chunk_id data l' of
                              None \<Rightarrow> None
                            | Some (_, l2) \<Rightarrow>
                                let (r, l3) = lru_get now chunk_id l2
                                in Some (r, m1\<lparr>memory_cache := l3\<rparr>))))"

definition store_with_metadata ::
    "u64 \<Rightarrow> ChunkMetadata \<Rightarrow> bytes \<Rightarrow> ChunkManager \<Rightarrow> (bool \<times> ChunkManager) option" where
  "store_with_metadata now md data m =
     (if 0 < md_size md \<and> size64 data \<noteq> md_size md then Some (False, m)
      else case lru_put now (md_chunk_id md) data (memory_cache m) of
             None \<Rightarrow> None
           | Some (success, l) \<Rightarrow>
               let m1 = m\<lparr>memory_cache := l, metadata := al_put (md_chunk_id md) md (metadata m)\<rparr>;
                   (ok, m2) = (if disk_cache_path m1 = '''' then (False, m1)
                               else persist_to_disk (md_chunk_id md) data m1);
                   m3 = (if ok then m2\<lparr>disk_index := al_put (md_chunk_id md) (size64 data) (disk_index m2)\<rparr>
                         else m2)
               in Some (success, m3))"

definition store_chunk ::
    "(bytes \<Rightarrow> string) \<Rightarrow> u64 \<Rightarrow> string \<Rightarrow> bytes \<Rightarrow> ChunkManager \<Rightarrow> (bool \<times> ChunkManager) option" where
  "store_chunk sha now chunk_id data m =
     store_with_metadata now
       \<lparr>md_chunk_id = chunk_id, md_object_key = '''', md_offset = 0, md_size = size64 data,
        md_hash = sha data, md_version = 0, md_is_immutable = True, md_replica_count = 1,
        md_heat_level = Cold, md_last_access_time = now, md_creation_time = now\<rparr> data m"

definition remove_chunk :: "string \<Rightarrow> ChunkManager \<Rightarrow> bool \<times> ChunkManager" where
  "remove_chunk chunk_id m =
     (let (from_memory, l) = lru_remove chunk_id (memory_cache m);
          from_disk_index = (al_get (disk_index m) chunk_id \<noteq> None);
          m1 = snd (delete_from_disk chunk_id
                 (m\<lparr>memory_cache := l, disk_index := al_del chunk_id (disk_index m)\<rparr>))
      in (from_memory \<or> from_disk_index, m1\<lparr>metadata := al_del chunk_id (metadata m1)\<rparr>))"

definition has_chunk :: "string \<Rightarrow> ChunkManager \<Rightarrow> bool" where
  "has_chunk chunk_id m \<longleftrightarrow> lru_exists chunk_id (memory_cache m) \<or> al_get (disk_index m) chunk_id \<noteq> None"

definition get_metadata :: "string \<Rightarrow> ChunkManager \<Rightarrow> ChunkMetadata option" where
  "get_metadata chunk_id m = al_get (metadata m) chunk_id"

definition update_metadata :: "ChunkMetadata \<Rightarrow> ChunkManager \<Rightarrow> ChunkManager" where
  "update_metadata md m =
     m\<lparr>metadata := al_put (md_chunk_id md) md (metadata m),
       memory_cache :=
         update_chunk_metadata (md_chunk_id md) (md_replica_count md) (md_heat_level md) (memory_cache m)\<rparr>"

text \<open>The chunk number is an integer division: \<open>None\<close> is the division by zero.\<close>

definition compute_chunk_id :: "string \<Rightarrow> u64 \<Rightarrow> u64 \<Rightarrow> string option" where
  "compute_chunk_id object_key offset chunk_size =
     (if chunk_size = 0 then None
      else Some (object_key @ ''_'' @ to_string (unat offset div unat chunk_size)))"

definition get_memory_cache_stats :: "u64 \<Rightarrow> ChunkManager \<Rightarrow> CacheStats \<times> ChunkManager" where
  "get_memory_cache_stats now m =
     (let (st, l) = lru_stats now (memory_cache m) in (st, m\<lparr>memory_cache := l\<rparr>))"

definition get_disk_cache_stats :: "ChunkManager \<Rightarrow> CacheStats" where
  "get_disk_cache_stats m =
     zero_stats\<lparr>st_total_items := of_nat (length (disk_index m)), st_total_bytes := disk_index_bytes m\<rparr>"

definition set_disk_cache_path :: "string \<Rightarrow> ChunkManager \<Rightarrow> ChunkManager" where
  "set_disk_cache_path path m = m\<lparr>disk_cache_path := path\<rparr>"

definition verify_chunk :: "(bytes \<Rightarrow> string) \<Rightarrow> string \<Rightarrow> bytes \<Rightarrow> ChunkManager \<Rightarrow> bool" where
  "verify_chunk sha chunk_id data m =
     (case al_get (metadata m) chunk_id of None \<Rightarrow> True | Some md \<Rightarrow> sha data = md_hash md)"

definition total_memory_usage :: "ChunkManager \<Rightarrow> u64" where
  "total_memory_usage m = current_size (memory_cache m)"

definition total_disk_usage :: "ChunkManager \<Rightarrow> u64" where
  "total_disk_usage m = disk_index_bytes m"

definition should_promote_to_disk :: "ChunkManager \<Rightarrow> bool" where
  "should_promote_to_disk m \<longleftrightarrow> disk_cache_path m \<noteq> ''''"

definition should_demote_from_memory :: "ChunkManager \<Rightarrow> bool" where
  "should_demote_from_memory m \<longleftrightarrow> fp_gt (usage (memory_cache m)) (rnd32 (8/10))"

definition promote_to_memory :: "u64 \<Rightarrow> string \<Rightarrow> ChunkManager \<Rightarrow> (bool \<times> ChunkManager) option" where
  "promote_to_memory now chunk_id m =
     (case load_from_disk chunk_id m of
        None \<Rightarrow> Some (False, m)
      | Some data \<Rightarrow> map_option (\<lambda>(b, l). (b, m\<lparr>memory_cache := l\<rparr>)) (lru_put now chunk_id data (memory_cache m)))"

definition demote_to_disk :: "u64 \<Rightarrow> string \<Rightarrow> ChunkManager \<Rightarrow> bool \<times> ChunkManager" where
  "demote_to_disk now chunk_id m =
     (case lru_get now chunk_id (memory_cache m) of
        (None, l) \<Rightarrow> (False, m\<lparr>memory_cache := l\<rparr>)
      | (Some c, l) \<Rightarrow>
          let (success, m1) = persist_to_disk chunk_id (ck_data c) (m\<lparr>memory_cache := l\<rparr>)
          in (success,
              if success
              then m1\<lparr>memory_cache := snd (lru_remove chunk_id (memory_cache m1)),
                      disk_index := al_put chunk_id (size64 (ck_data c)) (disk_index m1)\<rparr>
              else m1))"

definition trigger_eviction :: "u64 \<Rightarrow> ChunkManager \<Rightarrow> ChunkManager option" where
  "trigger_eviction now m = map_option (\<lambda>l. m\<lparr>memory_cache := l\<rparr>) (maybe_evict now (memory_cache m))"

text \<open>
  The metadata dump: a temporary file, then a rename over the old one. The printed text of
  the JSON array is the parameter \<open>dump\<close>.
\<close>

definition sync_metadata :: "(ChunkMetadata list \<Rightarrow> bytes) \<Rightarrow> ChunkManager \<Rightarrow> bool \<times> ChunkManager" where
  "sync_metadata dump m =
     (let base = disk_cache_path m; d = disk m;
          path = path_join (path_join base ''metadata'') ''cache_metadata.json'';
          tmp = path @ ''.tmp'';
          text = fs_store d tmp (dump (map snd (metadata m)));
          fs1 = al_put tmp text (files d)
      in if base = '''' \<or> \<not> fs_mkdir_ok d (path_join base ''metadata'') \<or> \<not> fs_write_ok d tmp
         then (False, m)
         else if \<not> fs_rename_ok d tmp path then (False, m\<lparr>disk := d\<lparr>files := fs1\<rparr>\<rparr>)
         else (True, m\<lparr>disk := d\<lparr>files := al_put path text (al_del tmp fs1)\<rparr>\<rparr>))"

section \<open>File names\<close>

lemma safe_char_not_slash: "safe_char c \<Longrightarrow> c \<noteq> CHR ''/''"
  by (auto simp: safe_char_def char_class_defs)

lemma sanitize_chars: "c \<in> set (sanitize_chunk_filename i) \<Longrightarrow> safe_char c"
  by (auto simp: sanitize_chunk_filename_def Let_def safe_char_def split: if_splits)

lemma sanitize_proper:
  "sanitize_chunk_filename i \<noteq> ''''" "sanitize_chunk_filename i \<noteq> ''.''" "sanitize_chunk_filename i \<noteq> ''..''"
  by (simp_all add: sanitize_chunk_filename_def Let_def)

lemma sanitize_no_slash: "CHR ''/'' \<notin> set (sanitize_chunk_filename i)"
  using sanitize_chars safe_char_not_slash by blast

lemma sanitize_id:
  assumes "\<forall>c\<in>set i. safe_char c" and "i \<noteq> ''''" and "i \<noteq> ''.''" and "i \<noteq> ''..''"
  shows "sanitize_chunk_filename i = i"
proof -
  have "map (\<lambda>c. if safe_char c then c else CHR ''_'') i = i" using assms(1) by (induction i) auto
  then show ?thesis using assms by (simp add: sanitize_chunk_filename_def Let_def)
qed

lemma sanitize_idem: "sanitize_chunk_filename (sanitize_chunk_filename i) = sanitize_chunk_filename i"
  using sanitize_chars sanitize_proper by (intro sanitize_id) auto

lemma sanitize_fixed_iff:
  "sanitize_chunk_filename i = i \<longleftrightarrow> (\<forall>c\<in>set i. safe_char c) \<and> i \<noteq> '''' \<and> i \<noteq> ''.'' \<and> i \<noteq> ''..''"
  using sanitize_chars [of _ i] sanitize_proper [of i] sanitize_id [of i] by metis

lemma path_join_prefix: "path_join a b = path_join a '''' @ b"
  by (simp add: path_join_def)

lemma dir_entry_join: "name \<noteq> '''' \<Longrightarrow> CHR ''/'' \<notin> set name \<Longrightarrow> dir_entry dir (path_join dir name) = Some name"
  by (simp add: dir_entry_def path_join_prefix [of dir name] starts_with_def)

lemma dir_entry_SomeD: "dir_entry dir p = Some name \<Longrightarrow> p = path_join dir name \<and> CHR ''/'' \<notin> set name"
  by (auto simp: dir_entry_def Let_def starts_with_def path_join_prefix [of dir name] split: if_splits)
    (metis append_eq_conv_conj)

lemma split_ext_chunk: "stem \<noteq> '''' \<Longrightarrow> split_ext (stem @ ''.chunk'') = (stem, ''.chunk'')"
  by (simp add: split_ext_def Let_def)

lemma take_before: "xs = a @ x # b \<Longrightarrow> take (length xs - length b - 1) xs = a"
  by simp

lemma split_ext_append: "name = fst (split_ext name) @ snd (split_ext name)"
proof -
  let ?t = "takeWhile (\<lambda>c. c \<noteq> CHR ''.'') (rev name)"
  let ?stem = "take (length name - length ?t - 1) name"
  have key: "?stem @ CHR ''.'' # rev ?t = name" if ne: "length ?t \<noteq> length name"
  proof -
    obtain x r where d: "dropWhile (\<lambda>c. c \<noteq> CHR ''.'') (rev name) = x # r"
      using ne by (metis append_Nil2 length_rev list.exhaust takeWhile_dropWhile_id)
    then have x: "x = CHR ''.''" by (simp add: dropWhile_eq_Cons_conv)
    have "rev name = ?t @ dropWhile (\<lambda>c. c \<noteq> CHR ''.'') (rev name)" by (simp only: takeWhile_dropWhile_id)
    then have "rev name = ?t @ CHR ''.'' # r" unfolding d x .
    then have "name = rev (?t @ CHR ''.'' # r)" by (metis rev_rev_ident)
    also have "\<dots> = rev r @ CHR ''.'' # rev ?t" by simp
    finally have n: "name = rev r @ CHR ''.'' # rev ?t" .
    have tk: "?stem = rev r" using take_before [OF n] by (simp only: length_rev)
    show ?thesis unfolding tk by (rule n [symmetric])
  qed
  show ?thesis
  proof (cases "length ?t = length name \<or> ?stem = '''' \<or> name = ''..''")
    case True
    then show ?thesis by (auto simp: split_ext_def Let_def)
  next
    case False
    then have "split_ext name = (?stem, CHR ''.'' # rev ?t)" by (simp add: split_ext_def Let_def)
    then show ?thesis using key False by (metis fst_conv snd_conv)
  qed
qed

lemma chunk_path_eq: "chunk_path base i = chunk_path base j \<longleftrightarrow> sanitize_chunk_filename i = sanitize_chunk_filename j"
  by (simp add: chunk_path_def path_join_prefix [of _ "_ @ _"])

lemma chunk_path_entry:
  "dir_entry (chunks_dir base) (chunk_path base i) = Some (sanitize_chunk_filename i @ ''.chunk'')"
  unfolding chunk_path_def using sanitize_no_slash [of i] by (intro dir_entry_join) auto

section \<open>The index after a restart\<close>

lemma split_ext_stem_set: "set (fst (split_ext name)) \<subseteq> set name"
  by (auto simp: split_ext_def Let_def dest: in_set_takeD)

lemma index_file_keys:
  "al_get (index_file d dir f idx) k \<noteq> None \<Longrightarrow> al_get idx k \<noteq> None \<or> CHR ''/'' \<notin> set k"
  using split_ext_stem_set dir_entry_SomeD
  by (fastforce simp: index_file_def al_get_put split: option.splits if_splits)

lemma index_fold_keys:
  "al_get (fold (index_file d dir) fs idx) k \<noteq> None \<Longrightarrow> al_get idx k \<noteq> None \<or> CHR ''/'' \<notin> set k"
proof (induction fs arbitrary: idx)
  case (Cons f fs)
  then show ?case using index_file_keys [of d dir f idx k] by fastforce
qed simp

lemma index_file_other:
  assumes "fst f \<noteq> chunk_path base i"
  shows "al_get (index_file d (chunks_dir base) f idx) (sanitize_chunk_filename i) =
         al_get idx (sanitize_chunk_filename i)"
proof (cases "dir_entry (chunks_dir base) (fst f)")
  case (Some name)
  have "fst (split_ext name) \<noteq> sanitize_chunk_filename i" if "snd (split_ext name) = ''.chunk''"
    using that assms dir_entry_SomeD [OF Some] split_ext_append [of name] by (auto simp: chunk_path_def)
  then show ?thesis using Some by (auto simp: index_file_def al_get_put)
qed (simp add: index_file_def)

lemma index_file_self:
  "fs_stat_ok d (chunk_path base i) \<Longrightarrow>
   al_get (index_file d (chunks_dir base) (chunk_path base i, b) idx) (sanitize_chunk_filename i) = Some (size64 b)"
  using sanitize_proper(1) [of i] by (simp add: index_file_def chunk_path_entry split_ext_chunk al_get_put)

lemma index_fold_other:
  "chunk_path base i \<notin> fst ` set fs \<Longrightarrow>
   al_get (fold (index_file d (chunks_dir base)) fs idx) (sanitize_chunk_filename i) =
   al_get idx (sanitize_chunk_filename i)"
  by (induction fs arbitrary: idx) (simp_all add: index_file_other [OF not_sym])

lemma index_fold_self:
  assumes "al_wf fs" and "al_get fs (chunk_path base i) = Some b" and "fs_stat_ok d (chunk_path base i)"
  shows "al_get (fold (index_file d (chunks_dir base)) fs idx) (sanitize_chunk_filename i) = Some (size64 b)"
  using assms
proof (induction fs arbitrary: idx)
  case (Cons f fs)
  show ?case
  proof (cases "fst f = chunk_path base i")
    case True
    then have "f = (chunk_path base i, b)" using Cons.prems(2) by (cases f) simp
    moreover have "chunk_path base i \<notin> fst ` set fs" using Cons.prems(1) True by auto
    ultimately show ?thesis using Cons.prems(3) by (simp add: index_fold_other index_file_self)
  next
    case False
    then have "al_get fs (chunk_path base i) = Some b" using Cons.prems(2) by (cases f) simp
    then show ?thesis using Cons.IH Cons.prems by simp
  qed
qed simp

section \<open>What the two tiers hold\<close>

text \<open>
  \<open>stored\<close> is what the manager can answer for a key: the memory copy, else the indexed file.
  The invariant is for a set \<open>K\<close> of keys whose file names differ, a memory tier of \<open>cap\<close>
  bytes and a disk that accepts and completes every write.
\<close>

definition stored :: "ChunkManager \<Rightarrow> string \<Rightarrow> bytes option" where
  "stored m k =
     (case contents (memory_cache m) k of
        Some v \<Rightarrow> Some v
      | None \<Rightarrow> if al_get (disk_index m) k = None then None else load_from_disk k m)"

definition disk_writes :: "FileSystem \<Rightarrow> bool" where
  "disk_writes d \<longleftrightarrow> (\<forall>p b. fs_mkdir_ok d p \<and> fs_write_ok d p \<and> fs_store d p b = b)"

definition tiers_agree :: "ChunkManager \<Rightarrow> bool" where
  "tiers_agree m \<longleftrightarrow>
     (\<forall>k v b. contents (memory_cache m) k = Some v \<longrightarrow> al_get (disk_index m) k \<noteq> None \<longrightarrow>
              load_from_disk k m = Some b \<longrightarrow> b = v)"

definition cm_inv :: "string set \<Rightarrow> nat \<Rightarrow> ChunkManager \<Rightarrow> bool" where
  "cm_inv K cap m \<longleftrightarrow>
     lru_inv (memory_cache m) \<and> unat (max_capacity (memory_cache m)) = cap \<and>
     inj_on sanitize_chunk_filename K \<and> dom (al_get (disk_index m)) \<subseteq> K \<and>
     disk_writes (disk m) \<and> tiers_agree m"

definition admitted :: "string set \<Rightarrow> nat \<Rightarrow> string \<Rightarrow> bytes \<Rightarrow> bool" where
  "admitted K cap k v \<longleftrightarrow> k \<in> K \<and> length v \<le> cap"

definition fetch_data :: "u64 \<Rightarrow> string \<Rightarrow> ChunkManager \<Rightarrow> (bytes option \<times> ChunkManager) option" where
  "fetch_data now k m = map_option (\<lambda>(r, m'). (map_option ck_data r, m')) (get_chunk now k m)"

lemma load_from_disk_fields [simp]:
  "load_from_disk k (m\<lparr>memory_cache := l\<rparr>) = load_from_disk k m"
  "load_from_disk k (m\<lparr>metadata := md\<rparr>) = load_from_disk k m"
  "load_from_disk k (m\<lparr>disk_index := ix\<rparr>) = load_from_disk k m"
  by (simp_all add: load_from_disk_def Let_def)

lemma load_after_write:
  "load_from_disk k (m\<lparr>disk := (disk m)\<lparr>files := al_put (chunk_path (disk_cache_path m) i) b (files (disk m))\<rparr>\<rparr>) =
   (if sanitize_chunk_filename k = sanitize_chunk_filename i
    then if disk_cache_path m = '''' \<or> \<not> fs_read_ok (disk m) (chunk_path (disk_cache_path m) k) then None else Some b
    else load_from_disk k m)"
  by (auto simp: load_from_disk_def Let_def al_get_put chunk_path_eq)

lemma load_after_delete:
  "load_from_disk k (snd (delete_from_disk i m)) =
   (if sanitize_chunk_filename k = sanitize_chunk_filename i \<and> fs_remove_ok (disk m) (chunk_path (disk_cache_path m) i)
    then None else load_from_disk k m)"
proof (cases "sanitize_chunk_filename k = sanitize_chunk_filename i")
  case True
  then have "chunk_path (disk_cache_path m) k = chunk_path (disk_cache_path m) i" by (simp add: chunk_path_eq)
  then show ?thesis using True by (auto simp: load_from_disk_def delete_from_disk_def Let_def al_get_del)
next
  case False
  then show ?thesis by (auto simp: load_from_disk_def delete_from_disk_def Let_def al_get_del chunk_path_eq)
qed

lemma delete_from_disk_fields [simp]:
  "memory_cache (snd (delete_from_disk i m)) = memory_cache m"
  "disk_index (snd (delete_from_disk i m)) = disk_index m"
  "metadata (snd (delete_from_disk i m)) = metadata m"
  "disk_cache_path (snd (delete_from_disk i m)) = disk_cache_path m"
  "disk_writes (disk (snd (delete_from_disk i m))) = disk_writes (disk m)"
  by (simp_all add: delete_from_disk_def Let_def disk_writes_def)

section \<open>Storing\<close>

lemma map_leI: "(\<And>k v. m k = Some v \<Longrightarrow> n k = Some v) \<Longrightarrow> m \<subseteq>\<^sub>m n"
  by (metis domIff map_le_def option.exhaust)

lemma map_leD: "m \<subseteq>\<^sub>m n \<Longrightarrow> m k = Some v \<Longrightarrow> n k = Some v"
  by (metis domI map_le_def)

lemma cm_inv_lru: "cm_inv K cap m \<Longrightarrow> lru_inv (memory_cache m)"
  by (simp add: cm_inv_def)

lemma lru_put_capacity: "lru_put now k data s = Some (b, t) \<Longrightarrow> max_capacity t = max_capacity s"
  by (auto simp: lru_put_def overwrite_def maybe_evict_def insert_new_simps dest!: evict_while_props(3)
      split: option.splits if_splits)

lemma lru_put_admitted:
  assumes "length data \<le> unat (max_capacity s)" and "lru_put now k data s = Some (b, t)"
  shows "b"
proof -
  have "length data < 2 ^ 64" using assms(1) unsigned_less [of "max_capacity s", where ?'a = nat] by simp
  then have "size64 data \<le> max_capacity s" using assms(1) size64_le by blast
  then show ?thesis using assms(2) by (auto simp: lru_put_def split: option.splits if_splits)
qed

lemma store_chunk_returns:
  "lru_put now k data (memory_cache m) = Some (b, l) \<Longrightarrow> \<exists>m'. store_chunk sha now k data m = Some (b, m')"
  by (simp add: store_chunk_def store_with_metadata_def Let_def case_prod_unfold)

text \<open>The state after a store on a disk that works.\<close>

lemma store_chunk_state:
  assumes "store_chunk sha now k data m = Some (b, m')" and "disk_writes (disk m)"
  obtains l where "lru_put now k data (memory_cache m) = Some (b, l)" and "memory_cache m' = l"
    and "disk_cache_path m' = disk_cache_path m" and "disk_writes (disk m')"
    and "al_get (metadata m') k \<noteq> None" and "map_option md_hash (al_get (metadata m') k) = Some (sha data)"
    and "disk_index m' = (if disk_cache_path m = '''' then disk_index m else al_put k (size64 data) (disk_index m))"
    and "\<And>j. load_from_disk j m' =
           (if sanitize_chunk_filename j = sanitize_chunk_filename k \<and> disk_cache_path m \<noteq> ''''
            then if fs_read_ok (disk m) (chunk_path (disk_cache_path m) j) then Some data else None
            else load_from_disk j m)"
proof -
  let ?md = "\<lparr>md_chunk_id = k, md_object_key = '''', md_offset = 0, md_size = size64 data,
        md_hash = sha data, md_version = 0, md_is_immutable = True, md_replica_count = 1,
        md_heat_level = Cold, md_last_access_time = now, md_creation_time = now\<rparr>"
  from assms(1) obtain l where l: "lru_put now k data (memory_cache m) = Some (b, l)"
    by (auto simp: store_chunk_def store_with_metadata_def Let_def split: option.splits prod.splits)
  let ?m1 = "m\<lparr>memory_cache := l, metadata := al_put k ?md (metadata m)\<rparr>"
  show thesis
  proof (cases "disk_cache_path m = ''''")
    case True
    then have "m' = ?m1"
      using assms(1) l by (simp add: store_chunk_def store_with_metadata_def Let_def)
    then show thesis using True l assms(2) by (intro that) (simp_all add: al_get_put)
  next
    case False
    then have "m' = ?m1\<lparr>disk := (disk ?m1)\<lparr>files := al_put (chunk_path (disk_cache_path ?m1) k) data (files (disk ?m1))\<rparr>,
        disk_index := al_put k (size64 data) (disk_index m)\<rparr>"
      using assms l by (simp add: store_chunk_def store_with_metadata_def Let_def persist_to_disk_def disk_writes_def)
    then show thesis using False l assms(2) load_after_write [of _ ?m1 k data]
      by (intro that) (simp_all add: al_get_put disk_writes_def)
  qed
qed

lemma stored_SomeI:
  assumes "tiers_agree m" and "al_get (disk_index m) k \<noteq> None" and "load_from_disk k m = Some v"
  shows "stored m k = Some v"
  using assms unfolding stored_def tiers_agree_def by (cases "contents (memory_cache m) k") auto

lemma stored_contents: "contents (memory_cache m) k = Some v \<Longrightarrow> stored m k = Some v"
  by (simp add: stored_def)

lemma store_chunk_le:
  assumes inv: "cm_inv K cap m" and adm: "admitted K cap k data"
    and st: "store_chunk sha now k data m = Some (b, m')"
  shows "cm_inv K cap m' \<and> stored m' \<subseteq>\<^sub>m (stored m)(k \<mapsto> data)"
proof -
  have dw: "disk_writes (disk m)" and ag: "tiers_agree m" and inj: "inj_on sanitize_chunk_filename K"
    and ix: "dom (al_get (disk_index m)) \<subseteq> K" and kK: "k \<in> K"
    using inv adm by (simp_all add: cm_inv_def admitted_def)
  obtain l where l: "lru_put now k data (memory_cache m) = Some (b, l)" and m': "memory_cache m' = l"
    and dw': "disk_writes (disk m')"
    and ix': "disk_index m' = (if disk_cache_path m = '''' then disk_index m else al_put k (size64 data) (disk_index m))"
    and ld: "\<And>j. load_from_disk j m' =
           (if sanitize_chunk_filename j = sanitize_chunk_filename k \<and> disk_cache_path m \<noteq> ''''
            then if fs_read_ok (disk m) (chunk_path (disk_cache_path m) j) then Some data else None
            else load_from_disk j m)"
    using store_chunk_state [OF st dw] by blast
  have b: "b" using lru_put_admitted [OF _ l] inv adm by (simp add: cm_inv_def admitted_def)
  have le: "contents l \<subseteq>\<^sub>m (contents (memory_cache m))(k \<mapsto> data)" using l b lru_put_stored by simp
  have mem: "contents l j = Some v \<Longrightarrow> if j = k then v = data else contents (memory_cache m) j = Some v" for j v
    using le by (force simp: map_le_def dom_def split: if_splits)
  have other: "load_from_disk j m' = load_from_disk j m \<and> al_get (disk_index m') j = al_get (disk_index m) j"
    if "j \<noteq> k" and "al_get (disk_index m') j \<noteq> None" for j
  proof -
    have "al_get (disk_index m) j \<noteq> None" using that ix' by (auto simp: al_get_put split: if_splits)
    then have "sanitize_chunk_filename j \<noteq> sanitize_chunk_filename k"
      using ix kK inj that(1) by (auto dest: inj_onD)
    then show ?thesis using that ix' ld by (auto simp: al_get_put)
  qed
  have self: "load_from_disk k m' = Some v \<Longrightarrow> v = data" for v
    using ld [of k] by (auto simp: load_from_disk_def split: if_splits)
  have ag': "tiers_agree m'"
    unfolding tiers_agree_def m'
  proof (intro allI impI)
    fix j v b' assume c: "contents l j = Some v" "al_get (disk_index m') j \<noteq> None" "load_from_disk j m' = Some b'"
    show "b' = v"
      using c mem [OF c(1)] other [of j] self ag [unfolded tiers_agree_def, rule_format, of j v b']
      by (cases "j = k") auto
  qed
  have "stored m' j = Some v \<Longrightarrow> ((stored m)(k \<mapsto> data)) j = Some v" for j v
    using mem [of j] other [of j] self stored_SomeI [OF ag, of j v] stored_contents [of m j v]
    by (cases "j = k") (auto simp: stored_def [of m'] m' split: option.splits if_splits)
  then have "stored m' \<subseteq>\<^sub>m (stored m)(k \<mapsto> data)" by (rule map_leI)
  moreover have "dom (al_get (disk_index m')) \<subseteq> K" using ix ix' kK by (auto simp: al_get_put)
  ultimately show ?thesis
    using inv dw' ag' m' lru_inv_put [OF _ l] lru_put_capacity [OF l] by (simp add: cm_inv_def)
qed

section \<open>Reading and removing\<close>

lemma lru_get_None: "fst (lru_get now k s) = None \<longleftrightarrow> contents s k = None"
  by (metis lru_get_value option.map_disc_iff)

lemma lru_get_capacity: "max_capacity (snd (lru_get now k s)) = max_capacity s"
  by (simp add: lru_get_def Let_def split: option.split)

text \<open>The capacity stays and the invariant is kept, between two states of the memory tier.\<close>

definition same_tier :: "LRUCache \<Rightarrow> LRUCache \<Rightarrow> bool" where
  "same_tier l l' \<longleftrightarrow> (lru_inv l \<longrightarrow> lru_inv l') \<and> max_capacity l' = max_capacity l"

lemma same_tier_get: "same_tier l (snd (lru_get now k l))"
  by (simp add: same_tier_def lru_inv_get lru_get_capacity)

lemma same_tier_trans: "same_tier l l' \<Longrightarrow> same_tier l' l'' \<Longrightarrow> same_tier l l''"
  by (simp add: same_tier_def)

lemma same_tier_put: "lru_put now k data l = Some (b, l') \<Longrightarrow> same_tier l l'"
  by (simp add: same_tier_def lru_inv_put lru_put_capacity)

lemma lru_get_miss:
  assumes "contents l k = None"
  shows "lru_get now k l = (None, snd (lru_get now k l))"
  using assms lru_get_None [of now k l] by (simp add: prod_eq_iff)

text \<open>What the put of a promotion leaves in memory.\<close>

lemma promoted_tier:
  assumes "contents l k = None" and "lru_put now k data l = Some (b, l')"
  shows "contents l' \<subseteq>\<^sub>m (contents l)(k \<mapsto> data)"
  using assms lru_put_stored [of now k data l l'] lru_put_refused [of now k data l l']
  by (cases b) (auto intro!: map_leI dest: map_leD)

text \<open>A read either answers from memory or promotes the indexed file.\<close>

lemma get_chunk_cases:
  assumes "get_chunk now k m = Some (r, m')"
  obtains
    (hit) l where "m' = m\<lparr>memory_cache := l\<rparr>" and "contents l = contents (memory_cache m)"
      and "map_option ck_data r = contents (memory_cache m) k" and "same_tier (memory_cache m) l"
  | (gone) l where "m' = m\<lparr>memory_cache := l, disk_index := al_del k (disk_index m)\<rparr>" and "r = None"
      and "contents l = contents (memory_cache m)" and "contents (memory_cache m) k = None"
      and "load_from_disk k m = None" and "same_tier (memory_cache m) l"
  | (promoted) l data where "m' = m\<lparr>memory_cache := l\<rparr>" and "map_option ck_data r = contents l k"
      and "contents (memory_cache m) k = None" and "al_get (disk_index m) k \<noteq> None"
      and "load_from_disk k m = Some data" and "contents l \<subseteq>\<^sub>m (contents (memory_cache m))(k \<mapsto> data)"
      and "same_tier (memory_cache m) l"
proof (cases "contents (memory_cache m) k")
  case (Some v)
  then obtain c l where g: "lru_get now k (memory_cache m) = (Some c, l)"
    by (metis lru_get_None option.collapse option.distinct(1) prod.collapse)
  then have "r = Some c" "m' = m\<lparr>memory_cache := l\<rparr>" using assms by (simp_all add: get_chunk_def)
  then show thesis
    using g lru_get_value [of now k "memory_cache m"] lru_get_keeps [of now k "memory_cache m"] same_tier_get [of "memory_cache m" now k]
    by (intro hit [of l]) simp_all
next
  case None
  define l1 where "l1 = snd (lru_get now k (memory_cache m))"
  define l2 where "l2 = snd (lru_get now k l1)"
  have c2: "contents l1 = contents (memory_cache m)" "contents l2 = contents (memory_cache m)"
    by (simp_all add: l1_def l2_def lru_get_keeps)
  have g: "lru_get now k (memory_cache m) = (None, l1)" "lru_get now k l1 = (None, l2)"
    using None c2 lru_get_miss [of "memory_cache m" k now] lru_get_miss [of l1 k now] by (simp_all flip: l1_def l2_def)
  have s2: "same_tier (memory_cache m) l2" unfolding l1_def l2_def by (rule same_tier_trans [OF same_tier_get same_tier_get])
  consider "al_get (disk_index m) k = None"
    | "al_get (disk_index m) k \<noteq> None" "load_from_disk k m = None"
    | data where "al_get (disk_index m) k \<noteq> None" "load_from_disk k m = Some data"
    by (cases "load_from_disk k m") auto
  then show thesis
  proof cases
    case 1
    then have "r = None" "m' = m\<lparr>memory_cache := l2\<rparr>" using assms g by (auto simp: get_chunk_def Let_def)
    then show thesis using c2 s2 None by (intro hit [of l2]) simp_all
  next
    case 2
    then have "r = None" "m' = m\<lparr>memory_cache := l2, disk_index := al_del k (disk_index m)\<rparr>"
      using assms g by (auto simp: get_chunk_def Let_def)
    then show thesis using c2 s2 None 2 by (intro gone [of l2]) simp_all
  next
    case 3
    then obtain b l3 where p: "lru_put now k data l2 = Some (b, l3)"
      using assms g by (auto simp: get_chunk_def Let_def split: option.splits)
    let ?l = "snd (lru_get now k l3)"
    have "r = fst (lru_get now k l3)" "m' = m\<lparr>memory_cache := ?l\<rparr>"
      using assms g 3 p by (auto simp: get_chunk_def Let_def split: prod.splits)
    then show thesis
      using 3 None c2 promoted_tier [OF _ p] same_tier_trans [OF s2 same_tier_trans [OF same_tier_put [OF p] same_tier_get]]
      by (intro promoted [of ?l data]) (simp_all add: lru_get_value lru_get_keeps)
  qed
qed

lemma get_chunk_le:
  assumes inv: "cm_inv K cap m" and g: "get_chunk now k m = Some (r, m')"
  shows "cm_inv K cap m' \<and> stored m' \<subseteq>\<^sub>m stored m \<and> (\<forall>c. r = Some c \<longrightarrow> stored m k = Some (ck_data c))"
  using g
proof (cases rule: get_chunk_cases)
  case (hit l)
  then have "tiers_agree m'" using inv by (simp add: cm_inv_def tiers_agree_def)
  then have "cm_inv K cap m'" using inv hit by (simp add: cm_inv_def same_tier_def)
  moreover have "stored m' = stored m" using hit(1,2) by (auto simp: stored_def fun_eq_iff split: option.splits)
  ultimately show ?thesis using hit(3) by (auto intro!: stored_contents)
next
  case (gone l)
  then have "tiers_agree m'" using inv by (auto simp: cm_inv_def tiers_agree_def al_get_del)
  then have "cm_inv K cap m'" using inv gone by (auto simp: cm_inv_def same_tier_def al_get_del)
  moreover have "stored m' = stored m"
    using gone by (auto simp: stored_def fun_eq_iff al_get_del split: option.splits)
  ultimately show ?thesis using gone(2) by simp
next
  case (promoted l data)
  have mem: "contents l j = Some v \<Longrightarrow> if j = k then v = data else contents (memory_cache m) j = Some v" for j v
    using map_leD [OF promoted(6), of j v] by (auto split: if_splits)
  have "tiers_agree m'"
    using inv promoted mem unfolding cm_inv_def tiers_agree_def by (fastforce split: if_splits)
  then have "cm_inv K cap m'" using inv promoted by (simp add: cm_inv_def same_tier_def)
  moreover have "stored m' j = Some v \<Longrightarrow> stored m j = Some v" for j v
  proof -
    assume "stored m' j = Some v"
    then have "contents l j = Some v \<or> al_get (disk_index m) j \<noteq> None \<and> load_from_disk j m = Some v"
      using promoted(1) by (auto simp: stored_def split: option.splits if_splits)
    moreover have "tiers_agree m" using inv by (simp add: cm_inv_def)
    ultimately show "stored m j = Some v"
      using mem [of j v] promoted(4,5) stored_SomeI [of m j v] stored_contents [of m j v]
      by (auto split: if_splits)
  qed
  moreover have "stored m k = Some data" using promoted by (simp add: stored_def)
  moreover have "r = Some c \<Longrightarrow> ck_data c = data" for c
    using promoted(2) mem [of k "ck_data c"] by simp
  ultimately show ?thesis by (auto intro!: map_leI)
qed

lemma remove_chunk_state:
  "memory_cache (snd (remove_chunk k m)) = snd (lru_remove k (memory_cache m))"
  "disk_index (snd (remove_chunk k m)) = al_del k (disk_index m)"
  "disk_writes (disk (snd (remove_chunk k m))) = disk_writes (disk m)"
  "load_from_disk j (snd (remove_chunk k m)) =
     (if sanitize_chunk_filename j = sanitize_chunk_filename k \<and> fs_remove_ok (disk m) (chunk_path (disk_cache_path m) k)
      then None else load_from_disk j m)"
  by (simp_all add: remove_chunk_def Let_def load_after_delete split: prod.split)

lemma remove_chunk_le:
  assumes inv: "cm_inv K cap m"
  shows "cm_inv K cap (snd (remove_chunk k m)) \<and> stored (snd (remove_chunk k m)) \<subseteq>\<^sub>m (stored m)(k := None)"
proof -
  let ?m = "snd (remove_chunk k m)"
  have mem: "contents (memory_cache ?m) = (contents (memory_cache m))(k := None)"
    by (simp add: remove_chunk_state lru_remove_contents)
  have cap: "max_capacity (snd (lru_remove k (memory_cache m))) = max_capacity (memory_cache m)"
    by (simp add: lru_remove_def Let_def split: option.split)
  have ld: "load_from_disk j ?m = Some v \<Longrightarrow> load_from_disk j m = Some v" for j v
    by (auto simp: remove_chunk_state split: if_splits)
  have ag: "tiers_agree m" using inv by (simp add: cm_inv_def)
  have ag': "tiers_agree ?m"
    unfolding tiers_agree_def
  proof (intro allI impI)
    fix j v b assume "contents (memory_cache ?m) j = Some v" "al_get (disk_index ?m) j \<noteq> None" "load_from_disk j ?m = Some b"
    then show "b = v"
      using ld [of j b] ag [unfolded tiers_agree_def, rule_format, of j v b] mem
      by (auto simp: remove_chunk_state al_get_del split: if_splits)
  qed
  have "lru_inv (memory_cache ?m)" using inv by (simp add: cm_inv_def remove_chunk_state lru_inv_remove)
  then have "cm_inv K cap ?m"
    using inv cap ag' by (auto simp: cm_inv_def remove_chunk_state al_get_del)
  moreover have "stored ?m j = Some v \<Longrightarrow> ((stored m)(k := None)) j = Some v" for j v
    using ld [of j v] mem stored_SomeI [OF ag, of j v] stored_contents [of m j v]
    by (auto simp: stored_def [of ?m] remove_chunk_state(2) al_get_del split: option.splits if_splits)
  ultimately show ?thesis by (blast intro: map_leI)
qed

interpretation cm: bounded_cache stored "store_chunk sha" fetch_data remove_chunk "cm_inv K cap" "admitted K cap"
  for sha K cap
proof (unfold_locales, goal_cases)
  case 1 then show ?case using store_chunk_le by blast
next
  case 2 then show ?case using get_chunk_le by (auto simp: fetch_data_def)
next
  case 3 then show ?case using remove_chunk_le by blast
next
  case 4 then show ?case using store_chunk_le by blast
next
  case (5 c k v t c')
  then have "cm_inv K cap c" "disk_writes (disk c)" by (simp_all add: cm_inv_def)
  then show ?case
    using 5 store_chunk_state [OF 5(3)] lru_put_admitted [of v "memory_cache c" t k False]
    by (auto simp: cm_inv_def admitted_def)
next
  case 6 then show ?case using get_chunk_le by (fastforce simp: fetch_data_def)
next
  case 7 then show ?case using get_chunk_le by (fastforce simp: fetch_data_def)
next
  case 8 then show ?case
    by (auto simp: stored_def remove_chunk_def contents_def lru_remove_def Let_def split: prod.splits option.splits if_splits)
next
  case 9 then show ?case using remove_chunk_le by blast
qed

section \<open>Properties\<close>

text \<open>A working disk, a one-megabyte memory tier and a manager that holds one chunk.\<close>

definition ex_fs :: FileSystem where
  "ex_fs = \<lparr>files = [], fs_mkdir_ok = (\<lambda>_. True), fs_write_ok = (\<lambda>_. True), fs_read_ok = (\<lambda>_. True),
     fs_remove_ok = (\<lambda>_. True), fs_list_ok = (\<lambda>_. True), fs_stat_ok = (\<lambda>_. True),
     fs_rename_ok = (\<lambda>_ _. True), fs_store = (\<lambda>_ b. b)\<rparr>"

definition ex_cfg :: CacheConfig where
  "ex_cfg = \<lparr>memory_cache_size_mb = 1, disk_cache_size_mb = 16, chunk_size_mb = 1, cfg_eviction_threshold = Fin 1, cfg_eviction_target = Fin 1,
     cfg_disk_cache_path = ''/c'', cfg_eviction_protection_sec = 60, cfg_weight_time = Fin 1, cfg_weight_replica = Fin 1,
     cfg_weight_heat = Fin 1, cfg_hot_threshold = 100, cfg_warm_threshold = 10\<rparr>"

definition ex_cfg0 :: CacheConfig where
  "ex_cfg0 = ex_cfg\<lparr>memory_cache_size_mb := 0\<rparr>"

lemma ex_fs_writes [simp]: "disk_writes ex_fs"
  by (simp add: disk_writes_def ex_fs_def)

lemma new_cm_simps:
  "stored (new_chunk_manager d cfg) = Map.empty" "disk (new_chunk_manager d cfg) = d"
  "disk_index (new_chunk_manager d cfg) = []" "disk_cache_path (new_chunk_manager d cfg) = cfg_disk_cache_path cfg"
  "max_capacity (memory_cache (new_chunk_manager d cfg)) = memory_cache_size_mb cfg * 1024 * 1024"
  "contents (memory_cache (new_chunk_manager d cfg)) = Map.empty"
  "lru_list (memory_cache (new_chunk_manager d cfg)) = []"
  "current_size (memory_cache (new_chunk_manager d cfg)) = 0"
  "cache (memory_cache (new_chunk_manager d cfg)) = []"
  by (auto simp: stored_def new_chunk_manager_def contents_def new_lru_weighted_def set_heat_thresholds_def)

lemma cm_inv_new:
  assumes "disk_writes d" and "inj_on sanitize_chunk_filename K"
  shows "cm_inv K (unat (memory_cache_size_mb cfg * 1024 * 1024)) (new_chunk_manager d cfg)"
proof -
  have "lru_inv (memory_cache (new_chunk_manager d cfg))"
    using lru_inv_new [of "memory_cache_size_mb cfg * 1024 * 1024"]
    by (simp add: new_chunk_manager_def set_heat_thresholds_def lru_inv_def)
  then show ?thesis using assms by (simp add: cm_inv_def tiers_agree_def new_cm_simps)
qed

lemma ex_refused:
  assumes "max_capacity (memory_cache m) < size64 data" and "fs_read_ok (disk m) = (\<lambda>_. True)"
  obtains m' where "store_chunk sha now k data m = Some (False, m')" and "memory_cache m' = memory_cache m"
    and "fs_read_ok (disk m') = (\<lambda>_. True)"
  using assms
  by (simp add: store_chunk_def store_with_metadata_def lru_put_def Let_def case_prod_unfold persist_to_disk_def)

lemma ex_cm0:
  "max_capacity (memory_cache (new_chunk_manager ex_fs ex_cfg0)) = 0"
  "fs_read_ok (disk (new_chunk_manager ex_fs ex_cfg0)) = (\<lambda>_. True)"
  "disk_cache_path (new_chunk_manager ex_fs ex_cfg0) = ''/c''"
  "disk_index (new_chunk_manager ex_fs ex_cfg0) = []" "disk_writes (disk (new_chunk_manager ex_fs ex_cfg0))"
  "contents (memory_cache (new_chunk_manager ex_fs ex_cfg0)) = Map.empty"
proof -
  have "fs_read_ok ex_fs = (\<lambda>_. True)" by (simp add: ex_fs_def)
  then show "fs_read_ok (disk (new_chunk_manager ex_fs ex_cfg0)) = (\<lambda>_. True)" by (simp add: new_cm_simps)
qed (simp_all add: new_cm_simps ex_cfg0_def ex_cfg_def)

lemma ex_refused0:
  assumes "length data = 1"
  obtains m' where "store_chunk sha now k data (new_chunk_manager ex_fs ex_cfg0) = Some (False, m')"
    and "memory_cache m' = memory_cache (new_chunk_manager ex_fs ex_cfg0)"
    and "fs_read_ok (disk m') = (\<lambda>_. True)"
proof (rule ex_refused)
  show "max_capacity (memory_cache (new_chunk_manager ex_fs ex_cfg0)) < size64 data"
    using assms by (simp add: ex_cm0 size64_def)
qed (rule ex_cm0, rule that)

lemma ex_store:
  "\<exists>m. store_chunk sha 0 ''a_0'' [7] (new_chunk_manager ex_fs ex_cfg) = Some (True, m) \<and>
       contents (memory_cache m) = [''a_0'' \<mapsto> [7]] \<and> disk_cache_path m = ''/c'' \<and>
       load_from_disk ''a_0'' m = Some [7] \<and> al_get (disk_index m) ''a_0'' = Some 1"
proof -
  let ?m = "new_chunk_manager ex_fs ex_cfg"
  let ?l = "insert_new 0 ''a_0'' [7] (memory_cache ?m)"
  have "\<not> above_threshold ?l"
    by (simp add: above_threshold_def usage_def insert_new_simps new_cm_simps size64_def ex_cfg_def float_of_u64_def) code_simp
  then have p: "lru_put 0 ''a_0'' [7] (memory_cache ?m) = Some (True, ?l)"
    by (intro lru_put_fits) (simp_all add: needs_room_def new_cm_simps size64_def ex_cfg_def)
  obtain m where s: "store_chunk sha 0 ''a_0'' [7] ?m = Some (True, m)"
    using store_chunk_returns [OF p] by blast
  have c: "contents ?l = [''a_0'' \<mapsto> [7]]" by (simp add: contents_put_new new_cm_simps)
  have dw: "disk_writes (disk ?m)" by (simp add: new_cm_simps)
  have ne: "disk_cache_path ?m = ''/c''" by (simp add: new_cm_simps ex_cfg_def)
  obtain l where l: "lru_put 0 ''a_0'' [7] (memory_cache ?m) = Some (True, l)" "memory_cache m = l"
    and path: "disk_cache_path m = disk_cache_path ?m"
    and ix: "disk_index m = (if disk_cache_path ?m = '''' then disk_index ?m else al_put ''a_0'' (size64 [7]) (disk_index ?m))"
    and ld: "\<And>j. load_from_disk j m =
           (if sanitize_chunk_filename j = sanitize_chunk_filename ''a_0'' \<and> disk_cache_path ?m \<noteq> ''''
            then if fs_read_ok (disk ?m) (chunk_path (disk_cache_path ?m) j) then Some [7] else None
            else load_from_disk j ?m)"
    by (rule store_chunk_state [OF s dw], rule that, assumption+)
  have "memory_cache m = ?l" using l p by simp
  moreover have "load_from_disk ''a_0'' m = Some [7]" 
    using ld [of "''a_0''"] by (simp add: ne new_cm_simps(2)) (simp add: ex_fs_def)
  moreover have "al_get (disk_index m) ''a_0'' = Some 1" by (simp add: ix ne al_get_put size64_def)
  ultimately show ?thesis using s c path ne by auto
qed

text \<open>
  C3. Freshness of the two-tier store. From a new manager on a disk that completes its writes, after
  any sequence of stores, reads and removals whose keys have distinct file names and whose
  chunks fit the memory tier, a read that answers returns the bytes of the last store under
  that key that was not removed since, whichever tier it comes from.
\<close>

theorem cm_never_stale:
  assumes "disk_writes d" and "inj_on sanitize_chunk_filename K"
    and "cache_run (store_chunk sha) fetch_data remove_chunk ops (new_chunk_manager d cfg, Map.empty) = Some (m, w)"
    and "\<forall>t k v. OpPut t k v \<in> set ops \<longrightarrow> k \<in> K \<and> length v \<le> unat (memory_cache_size_mb cfg * 1024 * 1024)"
    and "get_chunk now k m = Some (Some c, m')"
  shows "w k = Some (ck_data c)"
proof (rule cm.never_stale [of sha ops "new_chunk_manager d cfg"])
  show "cm_inv K (unat (memory_cache_size_mb cfg * 1024 * 1024)) (new_chunk_manager d cfg)"
    using assms(1,2) by (rule cm_inv_new)
  show "fetch_data now k m = Some (Some (ck_data c), m')" using assms(5) by (simp add: fetch_data_def)
qed (use assms(3,4) in \<open>simp_all add: new_cm_simps admitted_def\<close>)

theorem cm_never_stale_witness:
  "\<exists>m w c m'. cache_run (store_chunk (\<lambda>_. ''h'')) fetch_data remove_chunk [OpPut 0 ''a_0'' [7]]
        (new_chunk_manager ex_fs ex_cfg, Map.empty) = Some (m, w) \<and>
      get_chunk 5 ''a_0'' m = Some (Some c, m') \<and> ck_data c = [7] \<and> w ''a_0'' = Some (ck_data c)"
proof -
  obtain m where s: "store_chunk (\<lambda>_. ''h'') 0 ''a_0'' [7] (new_chunk_manager ex_fs ex_cfg) = Some (True, m)"
    and c: "contents (memory_cache m) = [''a_0'' \<mapsto> [7]]"
    using ex_store by blast
  have run: "cache_run (store_chunk (\<lambda>_. ''h'')) fetch_data remove_chunk [OpPut 0 ''a_0'' [7]]
        (new_chunk_manager ex_fs ex_cfg, Map.empty) = Some (m, [''a_0'' \<mapsto> [7]])"
    using s by simp
  obtain c' l where g: "lru_get 5 ''a_0'' (memory_cache m) = (Some c', l)"
    using lru_get_None [of 5 "''a_0''" "memory_cache m"] c by (cases "lru_get 5 ''a_0'' (memory_cache m)") auto
  then have "get_chunk 5 ''a_0'' m = Some (Some c', m\<lparr>memory_cache := l\<rparr>)" by (simp add: get_chunk_def)
  moreover have "ck_data c' = [7]"
    using lru_get_value [of 5 "''a_0''" "memory_cache m"] g c by simp
  ultimately show ?thesis
    using run cm_never_stale [OF ex_fs_writes _ run, of "{''a_0''}"] by (fastforce simp: ex_cfg_def)
qed

text \<open>
  Containment. Whatever a request or a peer sends as a chunk id, its file is a direct
  entry of the chunks directory: the name is not empty, has no slash and is neither of the
  two directory links.
\<close>

theorem chunk_file_contained:
  "\<exists>name. chunk_path base i = path_join (chunks_dir base) name \<and> name \<noteq> '''' \<and>
     CHR ''/'' \<notin> set name \<and> name \<noteq> ''.'' \<and> name \<noteq> ''..''"
proof -
  let ?n = "sanitize_chunk_filename i @ ''.chunk''"
  have "CHR ''/'' \<notin> set ?n" using sanitize_no_slash [of i] by simp
  moreover have "last ?n \<noteq> CHR ''.''" by simp
  ultimately show ?thesis unfolding chunk_path_def by (intro exI [of _ ?n]) auto
qed

text \<open>
  C35. Restart. A chunk written to disk is found by the scan of the next process under its
  sanitized name, with its size, and its file still has its bytes.
\<close>

theorem restart_index:
  assumes "persist_to_disk i data m = (True, m1)" and "al_wf (files (disk m))"
    and "cfg_disk_cache_path cfg = disk_cache_path m"
    and "fs_store (disk m) (chunk_path (disk_cache_path m) i) data = data"
    and "fs_stat_ok (disk m) (chunk_path (disk_cache_path m) i)"
    and "fs_read_ok (disk m) (chunk_path (disk_cache_path m) i)"
    and "initialize_disk_cache (new_chunk_manager (disk m1) cfg) = (True, m2)"
  shows "al_get (disk_index m2) (sanitize_chunk_filename i) = Some (size64 data) \<and> load_from_disk i m2 = Some data"
proof -
  let ?p = "chunk_path (disk_cache_path m) i"
  have ne: "disk_cache_path m \<noteq> ''''"
    and d1: "disk m1 = (disk m)\<lparr>files := al_put ?p data (files (disk m))\<rparr>"
    using assms(1,4) by (auto simp: persist_to_disk_def Let_def split: if_splits)
  have m2: "disk m2 = disk m1" "disk_cache_path m2 = disk_cache_path m"
    "disk_index m2 = fold (index_file (disk m1) (chunks_dir (disk_cache_path m))) (files (disk m1)) []"
    using assms(3,7) by (auto simp: initialize_disk_cache_def Let_def new_cm_simps split: if_splits)
  have "al_wf (files (disk m1))" using assms(2) by (simp add: d1 al_wf_put)
  then show ?thesis
    using index_fold_self [of "files (disk m1)" "disk_cache_path m" i data "disk m1" "[]"] ne m2 assms(5,6)
    by (simp add: d1 al_get_put load_from_disk_def Let_def)
qed

theorem restart_index_witness:
  "\<exists>m1 m2. persist_to_disk ''b/x_0'' [7] (new_chunk_manager ex_fs ex_cfg) = (True, m1) \<and>
     initialize_disk_cache (new_chunk_manager (disk m1) ex_cfg) = (True, m2) \<and>
     al_get (disk_index m2) ''b_x_0'' = Some 1 \<and> load_from_disk ''b/x_0'' m2 = Some [7]"
proof -
  obtain m1 where p: "persist_to_disk ''b/x_0'' [7] (new_chunk_manager ex_fs ex_cfg) = (True, m1)"
    by (simp add: persist_to_disk_def Let_def new_cm_simps ex_cfg_def ex_fs_def)
  then have "fs_mkdir_ok (disk m1) = (\<lambda>_. True)" "fs_list_ok (disk m1) = (\<lambda>_. True)"
    by (auto simp: persist_to_disk_def Let_def new_cm_simps ex_cfg_def ex_fs_def)
  then obtain m2 where i: "initialize_disk_cache (new_chunk_manager (disk m1) ex_cfg) = (True, m2)"
    by (simp add: initialize_disk_cache_def Let_def new_cm_simps ex_cfg_def)
  have san: "sanitize_chunk_filename ''b/x_0'' = ''b_x_0''"
    by (simp add: sanitize_chunk_filename_def safe_char_def char_class_defs Let_def)
  show ?thesis
    using p i san restart_index [OF p _ _ _ _ _ i] by (simp add: new_cm_simps) (simp add: ex_fs_def size64_def)
qed

text \<open>
  Restart forgets. A manager that has just scanned its directory has no chunk whose id
  contains a slash and reads none, whatever files there are: the ids of all proxied objects
  (bucket, slash, key) are such ids, so a restart loses the disk tier, although the comment
  at the sanitizer promises lookups that stay consistent across restarts.
\<close>

theorem restart_forgets_slashed_ids:
  assumes "CHR ''/'' \<in> set k" and "m = snd (initialize_disk_cache (new_chunk_manager d cfg))"
  shows "\<not> has_chunk k m \<and> (\<exists>m'. get_chunk now k m = Some (None, m'))"
proof -
  have mem: "memory_cache m = memory_cache (new_chunk_manager d cfg)"
    using assms(2) by (simp add: initialize_disk_cache_def Let_def)
  have "al_get (fold (index_file d dir) (files d) []) k = None" for dir
    using assms(1) index_fold_keys [of d dir "files d" "[]" k] by fastforce
  then have ix: "al_get (disk_index m) k = None"
    using assms(2) by (simp add: initialize_disk_cache_def Let_def new_cm_simps)
  have c: "contents (memory_cache m) = Map.empty" by (simp add: mem new_cm_simps)
  have no: "fst (lru_get now k (memory_cache m)) = None" by (simp add: lru_get_None c)
  then have "fst (lru_get now k (snd (lru_get now k (memory_cache m)))) = None"
    by (simp add: lru_get_None lru_get_keeps c)
  then have "\<exists>m'. get_chunk now k m = Some (None, m')"
    using no ix by (auto simp: get_chunk_def Let_def case_prod_unfold)
  moreover have "\<not> has_chunk k m"
    using ix by (simp add: has_chunk_def lru_exists_def mem new_cm_simps)
  ultimately show ?thesis by blast
qed

theorem restart_forgets_slashed_ids_witness:
  "\<not> has_chunk ''b/x_0'' (snd (initialize_disk_cache
        (new_chunk_manager (ex_fs\<lparr>files := [(chunk_path ''/c'' ''b/x_0'', [7])]\<rparr>) ex_cfg)))"
  by (rule restart_forgets_slashed_ids [THEN conjunct1]) simp_all

text \<open>
  Collision. Two ids with the same sanitized name share one file: after both were
  stored, the file of the first holds the bytes of the second, and once the memory tier has
  dropped the first, a read of it is answered with the other object's bytes.
\<close>

theorem colliding_ids_share_file:
  assumes "sanitize_chunk_filename i = sanitize_chunk_filename j" and "disk_writes (disk m)"
    and "disk_cache_path m \<noteq> ''''" and "\<forall>p. fs_read_ok (disk m1) p"
    and "store_chunk sha t1 i a m = Some (r1, m1)" and "store_chunk sha t2 j b m1 = Some (r2, m2)"
  shows "load_from_disk i m2 = Some b \<and> (contents (memory_cache m2) i = None \<longrightarrow> stored m2 i = Some b)"
proof -
  have m1: "disk_writes (disk m1)" "disk_cache_path m1 = disk_cache_path m" "al_get (disk_index m1) i \<noteq> None"
    by (rule store_chunk_state [OF assms(5,2)]; use assms(3) in \<open>simp add: al_get_put\<close>)+
  have ix: "al_get (disk_index m2) i \<noteq> None"
    by (rule store_chunk_state [OF assms(6) m1(1)]) (use m1(3) in \<open>auto simp: al_get_put\<close>)
  have ld: "load_from_disk i m2 = Some b"
    by (rule store_chunk_state [OF assms(6) m1(1)]) (use m1(2) assms(1,3,4) in simp)
  then show ?thesis using ix by (auto simp: stored_def)
qed

theorem colliding_ids_share_file_witness:
  "\<exists>m1 m2. store_chunk (\<lambda>_. ''h'') 0 ''b/x_0'' [1] (new_chunk_manager ex_fs ex_cfg0) = Some (False, m1) \<and>
     store_chunk (\<lambda>_. ''h'') 0 ''b_x_0'' [2] m1 = Some (False, m2) \<and> load_from_disk ''b/x_0'' m2 = Some [2]"
proof -
  let ?m = "new_chunk_manager ex_fs ex_cfg0"
  have dw: "disk_writes (disk ?m)" by (simp add: ex_cm0)
  obtain m1 where s1: "store_chunk (\<lambda>_. ''h'') 0 ''b/x_0'' [1] ?m = Some (False, m1)"
    and l1: "memory_cache m1 = memory_cache ?m" and r1: "fs_read_ok (disk m1) = (\<lambda>_. True)"
    by (rule ex_refused0 [of "[1]"], simp (no_asm), rule that, assumption+)
  obtain m2 where s2: "store_chunk (\<lambda>_. ''h'') 0 ''b_x_0'' [2] m1 = Some (False, m2)"
    by (rule ex_refused [of m1 "[2]"]) (simp_all add: l1 ex_cm0 r1 size64_def)
  have "sanitize_chunk_filename ''b/x_0'' = sanitize_chunk_filename ''b_x_0''"
    by (simp add: sanitize_chunk_filename_def safe_char_def char_class_defs Let_def)
  then show ?thesis
    using s1 s2 colliding_ids_share_file [OF _ dw _ _ s1 s2] by (auto simp: r1 ex_cm0)
qed

text \<open>
  A chunk larger than the memory tier cannot be read back: it is stored on disk and
  listed, but a read promotes it into the memory tier, which refuses it, and answers with
  nothing. The comment in \<open>store_chunk\<close> says it remains retrievable.
\<close>

theorem get_chunk_oversize:
  assumes "contents (memory_cache m) k = None" and "al_get (disk_index m) k = Some n"
    and "load_from_disk k m = Some data" and "max_capacity (memory_cache m) < size64 data"
  shows "\<exists>m'. get_chunk now k m = Some (None, m') \<and> has_chunk k m'"
proof -
  let ?l = "snd (lru_get now k (snd (lru_get now k (memory_cache m))))"
  have no: "fst (lru_get now k (memory_cache m)) = None" "fst (lru_get now k (snd (lru_get now k (memory_cache m)))) = None"
    "fst (lru_get now k ?l) = None"
    using assms(1) by (simp_all add: lru_get_None lru_get_keeps)
  have "lru_put now k data ?l = Some (False, ?l)" using assms(4) by (simp add: lru_put_def lru_get_capacity)
  then show ?thesis
    using no assms by (simp add: get_chunk_def Let_def case_prod_unfold has_chunk_def)
qed

theorem get_chunk_oversize_witness:
  "\<exists>m m'. store_chunk (\<lambda>_. ''h'') 0 ''a_0'' [7] (new_chunk_manager ex_fs ex_cfg0) = Some (False, m) \<and>
     load_from_disk ''a_0'' m = Some [7] \<and> get_chunk 1 ''a_0'' m = Some (None, m') \<and> has_chunk ''a_0'' m'"
proof -
  let ?m = "new_chunk_manager ex_fs ex_cfg0"
  have dw: "disk_writes (disk ?m)" by (simp add: ex_cm0)
  obtain m1 where s1: "store_chunk (\<lambda>_. ''h'') 0 ''a_0'' [7] ?m = Some (False, m1)"
    and l1: "memory_cache m1 = memory_cache ?m"
    by (rule ex_refused0 [of "[7]"], simp (no_asm), rule that, assumption+)
  have ix: "al_get (disk_index m1) ''a_0'' = Some 1"
    by (rule store_chunk_state [OF s1 dw]) (simp add: ex_cm0 al_get_put size64_def)
  have ld: "load_from_disk ''a_0'' m1 = Some [7]"
    by (rule store_chunk_state [OF s1 dw]) (simp add: ex_cm0)
  show ?thesis
    using s1 ld get_chunk_oversize [OF _ ix ld, of 1] by (auto simp: l1 ex_cm0 size64_def)
qed

lemma split_at_eq: "x \<notin> set as \<Longrightarrow> x \<notin> set bs \<Longrightarrow> as @ x # p = bs @ x # q \<longleftrightarrow> as = bs \<and> p = q"
proof (induction as arbitrary: bs)
  case Nil
  then show ?case by (cases bs) auto
next
  case (Cons a as)
  then show ?case by (cases bs) auto
qed

text \<open>
  Chunk ids are unambiguous: for one chunk size, two ids are equal exactly when they
  name the same chunk of the same object.
\<close>

theorem compute_chunk_id_inj:
  assumes "0 < cs"
  shows "compute_chunk_id k o1 cs = compute_chunk_id j o2 cs \<longleftrightarrow>
         k = j \<and> unat o1 div unat cs = unat o2 div unat cs"
proof -
  have key: "k = j \<and> n = n'" if "k @ ''_'' @ to_string n = j @ ''_'' @ to_string n'" for n n'
  proof -
    have us: "CHR ''_'' \<notin> set (to_string i)" for i using to_string_digits [of i] by (auto simp: char_class_defs)
    have "rev (to_string n) @ CHR ''_'' # rev k = rev (to_string n') @ CHR ''_'' # rev j"
      using arg_cong [OF that, of rev] by simp
    then have "rev (to_string n) = rev (to_string n') \<and> rev k = rev j"
      using us by (subst (asm) split_at_eq) simp_all
    then show ?thesis using to_string_inj by (metis rev_is_rev_conv)
  qed
  have nz: "cs \<noteq> 0" using assms by auto
  show ?thesis
  proof
    assume "compute_chunk_id k o1 cs = compute_chunk_id j o2 cs"
    then show "k = j \<and> unat o1 div unat cs = unat o2 div unat cs"
      unfolding compute_chunk_id_def if_not_P [OF nz] option.inject by (rule key)
  qed (simp add: compute_chunk_id_def)
qed

theorem compute_chunk_id_inj_witness:
  "compute_chunk_id ''k_1'' 5 4 \<noteq> compute_chunk_id ''k'' 5 4 \<and> compute_chunk_id ''k'' 5 4 = compute_chunk_id ''k'' 7 4"
  using compute_chunk_id_inj [of 4 "''k_1''" 5 "''k''" 5] compute_chunk_id_inj [of 4 "''k''" 5 "''k''" 7] by simp

text \<open>
  Demotion. Moving a chunk to disk takes it out of the memory tier and keeps it
  readable: the file holds the bytes the memory tier held and the index lists it.
\<close>

theorem demote_keeps_chunk:
  assumes "contents (memory_cache m) k = Some v" and "disk_writes (disk m)" and "disk_cache_path m \<noteq> ''''"
    and "fs_read_ok (disk m) (chunk_path (disk_cache_path m) k)"
  shows "\<exists>m'. demote_to_disk now k m = (True, m') \<and> contents (memory_cache m') k = None \<and> has_chunk k m' \<and>
     stored m' k = Some v"
proof -
  obtain c l where g: "lru_get now k (memory_cache m) = (Some c, l)"
    using lru_get_None [of now k "memory_cache m"] assms(1) by (cases "lru_get now k (memory_cache m)") auto
  have c: "ck_data c = v" using lru_get_value [of now k "memory_cache m"] g assms(1) by simp
  let ?m1 = "m\<lparr>memory_cache := l\<rparr>"
  let ?m2 = "?m1\<lparr>disk := (disk ?m1)\<lparr>files := al_put (chunk_path (disk_cache_path ?m1) k) v (files (disk ?m1))\<rparr>\<rparr>"
  let ?m3 = "?m2\<lparr>memory_cache := snd (lru_remove k l), disk_index := al_put k (size64 v) (disk_index m)\<rparr>"
  have p: "persist_to_disk k v ?m1 = (True, ?m2)"
    using assms(2,3) by (simp add: persist_to_disk_def Let_def disk_writes_def)
  have d: "demote_to_disk now k m = (True, ?m3)"
    using g c p by (simp add: demote_to_disk_def Let_def)
  have gone: "contents (memory_cache ?m3) k = None" by (simp add: lru_remove_contents)
  have "load_from_disk k ?m3 = Some v" 
    using assms(3,4) by (simp add: load_from_disk_def Let_def al_get_put)
  then have "stored ?m3 k = Some v" unfolding stored_def gone by (simp add: al_get_put)
  moreover have "has_chunk k ?m3" by (simp add: has_chunk_def al_get_put)
  ultimately show ?thesis using d gone by blast
qed

theorem demote_keeps_chunk_witness:
  "\<exists>m m'. contents (memory_cache m) ''a_0'' = Some [7] \<and> demote_to_disk 9 ''a_0'' m = (True, m') \<and>
     stored m' ''a_0'' = Some [7]"
proof -
  obtain m where "store_chunk (\<lambda>_. ''h'') 0 ''a_0'' [7] (new_chunk_manager ex_fs ex_cfg) = Some (True, m)"
    and c: "contents (memory_cache m) = [''a_0'' \<mapsto> [7]]" and p: "disk_cache_path m = ''/c''"
    and ld: "load_from_disk ''a_0'' m = Some [7]"
    using ex_store by blast
  then have "disk_writes (disk m)"
    by (elim store_chunk_state) (simp_all add: new_cm_simps)
  moreover have "fs_read_ok (disk m) (chunk_path (disk_cache_path m) ''a_0'')"
    using ld by (auto simp: load_from_disk_def Let_def split: if_splits)
  ultimately have "\<exists>m'. demote_to_disk 9 ''a_0'' m = (True, m') \<and> stored m' ''a_0'' = Some [7]"
    using c p demote_keeps_chunk [of m "''a_0''" "[7]" 9] by auto
  moreover have "contents (memory_cache m) ''a_0'' = Some [7]" using c by simp
  ultimately show ?thesis by blast
qed

text \<open>
  Verification. After a store, exactly the data with the digest of the stored data
  verify under that id.
\<close>

theorem verify_after_store:
  assumes "store_chunk sha now k data m = Some (b, m')"
  shows "verify_chunk sha k data' m' \<longleftrightarrow> sha data' = sha data"
proof -
  have "\<exists>md. al_get (metadata m') k = Some md \<and> md_hash md = sha data"
    using assms
    by (auto simp: store_chunk_def store_with_metadata_def persist_to_disk_def Let_def al_get_put
        split: option.splits prod.splits if_splits)
  then show ?thesis by (auto simp: verify_chunk_def)
qed

theorem verify_after_store_witness:
  "\<exists>m. store_chunk to_str 0 ''a_0'' [7] (new_chunk_manager ex_fs ex_cfg0) = Some (False, m) \<and>
     verify_chunk to_str ''a_0'' [7] m \<and> \<not> verify_chunk to_str ''a_0'' [8] m"
proof -
  obtain m where s: "store_chunk to_str 0 ''a_0'' [7] (new_chunk_manager ex_fs ex_cfg0) = Some (False, m)"
    by (rule ex_refused0 [of "[7]"], simp (no_asm), rule that, assumption+)
  have "to_bytes (to_str [8]) \<noteq> to_bytes (to_str [7])" by simp
  then have "to_str [8] \<noteq> to_str [7]" by metis
  then show ?thesis using s verify_after_store [OF s] by auto
qed

end
