(* ===== verification/Chunk_Wire.thy ===== *)
theory Chunk_Wire
  imports Chunk_Manager
begin

text \<open>
  The chunk transfer protocol of \<open>src/p2p/transfer.cpp\<close>: the bandwidth limiter, the packed
  message header and its byte order conversion, exact reads and writes over a TCP stream, the
  server side of a connection (\<open>handle_chunk_request\<close>) and the two client sides
  (\<open>download_from_peer\<close>, \<open>upload_chunk\<close>).

  The host is a parameter (its endianness), and so are the TCP stream of the \<open>elio\<close> runtime
  (a record of its three operations over any state), SHA-256 and its hexadecimal form, the
  clock and the two callbacks of the server. A read or write that fails returns no bytes. A
  callback may hang, which is \<open>None\<close>. Coroutines are straight-line code here: the state another
  coroutine can change while this one is suspended, the stop flag, is an argument that gives
  its value at each poll. Log lines and progress callbacks are left out.
\<close>

section \<open>Bandwidth limiter\<close>

record BandwidthLimiter =
  max_bytes_per_sec :: u64
  available :: u64
  last_reset :: int

definition new_limiter :: "int \<Rightarrow> u64 \<Rightarrow> BandwidthLimiter" where
  "new_limiter now max_mbps =
     (let m = max_mbps * 1024 * 1024 div 8
      in \<lparr>max_bytes_per_sec = m, available = m, last_reset = now\<rparr>)"

text \<open>
  \<open>acquire\<close> returns the milliseconds to sleep; the clock is in nanoseconds and the elapsed
  time is cut to whole seconds.
\<close>

definition acquire :: "int \<Rightarrow> u64 \<Rightarrow> BandwidthLimiter \<Rightarrow> u64 \<times> BandwidthLimiter" where
  "acquire now n l =
     (if max_bytes_per_sec l = 0 then (0, l)
      else let l1 = (if 1 \<le> (now - last_reset l) div 1000000000
                     then l\<lparr>available := max_bytes_per_sec l, last_reset := now\<rparr> else l)
           in if n \<le> available l1 then (0, l1\<lparr>available := available l1 - n\<rparr>)
              else (((n - available l1) * 1000) div (max (max_bytes_per_sec l1 div 1024) 1),
                    l1\<lparr>available := 0\<rparr>))"

definition set_limit :: "u64 \<Rightarrow> BandwidthLimiter \<Rightarrow> BandwidthLimiter" where
  "set_limit mbps l =
     (let m = mbps * 1024 * 1024 div 8 in l\<lparr>max_bytes_per_sec := m, available := m\<rparr>)"

section \<open>Messages\<close>

datatype ChunkMessageType = Request | Response | Error | Ack | Upload

definition message_code :: "ChunkMessageType \<Rightarrow> u32" where
  "message_code t = (case t of Request \<Rightarrow> 1 | Response \<Rightarrow> 2 | Error \<Rightarrow> 3 | Ack \<Rightarrow> 4 | Upload \<Rightarrow> 5)"

definition CHUNK_TRANSFER_MAGIC :: u32 where
  "CHUNK_TRANSFER_MAGIC = 0x43484B50"

definition CHUNK_TRANSFER_VERSION :: u32 where
  "CHUNK_TRANSFER_VERSION = 1"

definition FLAG_RESUME :: byte where
  "FLAG_RESUME = 1"

definition FLAG_LAST_PART :: byte where
  "FLAG_LAST_PART = 4"

record ChunkMessageHeader =
  magic :: u32
  version :: u32
  message_type :: u32
  chunk_id_length :: u32
  data_length :: u32
  hash :: bytes
  sequence_number :: u32
  flags :: byte

definition header_size :: nat where
  "header_size = 57"

text \<open>\<open>ChunkMessageHeader header{}\<close> with the magic and the version of this protocol.\<close>

definition make_header :: "ChunkMessageType \<Rightarrow> u32 \<Rightarrow> u32 \<Rightarrow> bytes \<Rightarrow> byte \<Rightarrow> ChunkMessageHeader" where
  "make_header t idlen len h fl =
     \<lparr>magic = CHUNK_TRANSFER_MAGIC, version = CHUNK_TRANSFER_VERSION, message_type = message_code t,
      chunk_id_length = idlen, data_length = len, hash = h, sequence_number = 0, flags = fl\<rparr>"

definition zero_hash :: bytes where
  "zero_hash = replicate 32 0"

definition htonl :: "endian \<Rightarrow> u32 \<Rightarrow> u32" where
  "htonl e x = of_nat (hton e 4 (unat x))"

definition header_to_wire :: "endian \<Rightarrow> ChunkMessageHeader \<Rightarrow> ChunkMessageHeader" where
  "header_to_wire e h =
     h\<lparr>magic := htonl e (magic h), version := htonl e (version h),
       message_type := htonl e (message_type h), chunk_id_length := htonl e (chunk_id_length h),
       data_length := htonl e (data_length h), sequence_number := htonl e (sequence_number h)\<rparr>"

definition header_from_wire :: "endian \<Rightarrow> ChunkMessageHeader \<Rightarrow> ChunkMessageHeader" where
  "header_from_wire e h =
     h\<lparr>magic := htonl e (magic h), version := htonl e (version h),
       message_type := htonl e (message_type h), chunk_id_length := htonl e (chunk_id_length h),
       data_length := htonl e (data_length h), sequence_number := htonl e (sequence_number h)\<rparr>"

text \<open>The bytes of the packed struct in the memory of a host, and the struct read back.\<close>

definition header_image :: "endian \<Rightarrow> ChunkMessageHeader \<Rightarrow> bytes" where
  "header_image e h =
     mem_bytes e 4 (unat (magic h)) @ mem_bytes e 4 (unat (version h)) @
     mem_bytes e 4 (unat (message_type h)) @ mem_bytes e 4 (unat (chunk_id_length h)) @
     mem_bytes e 4 (unat (data_length h)) @ hash h @ mem_bytes e 4 (unat (sequence_number h)) @ [flags h]"

definition load_u32 :: "endian \<Rightarrow> bytes \<Rightarrow> nat \<Rightarrow> u32" where
  "load_u32 e bs off = of_nat (mem_val e (take 4 (drop off bs)))"

definition header_of_image :: "endian \<Rightarrow> bytes \<Rightarrow> ChunkMessageHeader" where
  "header_of_image e bs =
     \<lparr>magic = load_u32 e bs 0, version = load_u32 e bs 4, message_type = load_u32 e bs 8,
      chunk_id_length = load_u32 e bs 12, data_length = load_u32 e bs 16,
      hash = take 32 (drop 20 bs), sequence_number = load_u32 e bs 52, flags = last bs\<rparr>"

section \<open>Exact reads and writes\<close>

record 's stream_ops =
  st_read :: "'s \<Rightarrow> nat \<Rightarrow> bytes \<times> 's"
  st_write :: "'s \<Rightarrow> bytes \<Rightarrow> nat \<times> 's"
  st_close :: "'s \<Rightarrow> 's"

function (sequential) read_exact :: "'s stream_ops \<Rightarrow> nat \<Rightarrow> 's \<Rightarrow> bytes \<times> 's" where
  "read_exact ops n s =
     (if n = 0 then ([], s)
      else let r = st_read ops s n
           in if fst r = [] then ([], snd r)
              else let q = read_exact ops (n - length (fst r)) (snd r) in (fst r @ fst q, snd q))"
  by pat_completeness auto
termination
  by (relation "measure (\<lambda>(ops, n, s). n)") auto

function (sequential) write_exact :: "'s stream_ops \<Rightarrow> bytes \<Rightarrow> 's \<Rightarrow> bool \<times> 's" where
  "write_exact ops bs s =
     (if bs = [] then (True, s)
      else let r = st_write ops s bs
           in if fst r = 0 then (False, snd r) else write_exact ops (drop (fst r) bs) (snd r))"
  by pat_completeness auto
termination
  by (relation "measure (\<lambda>(ops, bs, s). length bs)") auto

declare read_exact.simps [simp del] write_exact.simps [simp del]

text \<open>A header on the wire, then the chunk id when the header went out.\<close>

definition send_header :: "'s stream_ops \<Rightarrow> endian \<Rightarrow> ChunkMessageHeader \<Rightarrow> 's \<Rightarrow> bool \<times> 's" where
  "send_header ops e h s = write_exact ops (header_image e (header_to_wire e h)) s"

definition recv_header :: "'s stream_ops \<Rightarrow> endian \<Rightarrow> 's \<Rightarrow> ChunkMessageHeader option \<times> 's" where
  "recv_header ops e s =
     (let r = read_exact ops header_size s
      in (if length (fst r) = header_size then Some (header_from_wire e (header_of_image e (fst r))) else None,
          snd r))"

definition SLICE :: nat where
  "SLICE = 256 * 1024"

text \<open>The sending loop of the server and of the uploader; \<open>clk i\<close> is the time of the \<open>i\<close>th slice.\<close>

function (sequential) send_slices ::
    "'s stream_ops \<Rightarrow> (nat \<Rightarrow> int) \<Rightarrow> nat \<Rightarrow> bytes \<Rightarrow> BandwidthLimiter \<Rightarrow> 's \<Rightarrow> bool \<times> BandwidthLimiter \<times> 's" where
  "send_slices ops clk i data l s =
     (if data = [] then (True, l, s)
      else let slice = take SLICE data;
               l1 = snd (acquire (clk i) (size64 slice) l);
               r = write_exact ops slice s
           in if fst r then send_slices ops clk (Suc i) (drop SLICE data) l1 (snd r)
              else (False, l1, snd r))"
  by pat_completeness auto
termination
  by (relation "measure (\<lambda>(ops, clk, i, data, l, s). length data)") (auto simp: SLICE_def)

declare send_slices.simps [simp del]

section \<open>Server\<close>

definition MAX_UPLOAD_BYTES :: u32 where
  "MAX_UPLOAD_BYTES = 64 * 1024 * 1024"

text \<open>
  The callbacks: \<open>provider\<close> answers a chunk id from the node's state, \<open>consumer\<close> stores;
  either may be unset.
\<close>

record 'm callbacks =
  provider :: "(string \<Rightarrow> 'm \<Rightarrow> (bytes option \<times> 'm) option) option"
  consumer :: "(string \<Rightarrow> bytes \<Rightarrow> 'm \<Rightarrow> (bool \<times> 'm) option) option"

definition handle_upload ::
    "'s stream_ops \<Rightarrow> (bytes \<Rightarrow> bytes) \<Rightarrow> endian \<Rightarrow> 'm callbacks \<Rightarrow> ChunkMessageHeader \<Rightarrow> string \<Rightarrow>
     's \<Rightarrow> 'm \<Rightarrow> ('s \<times> 'm) option" where
  "handle_upload ops sha e cb h chunk_id s m =
     (if data_length h = 0 \<or> MAX_UPLOAD_BYTES < data_length h then Some (s, m)
      else let r = read_exact ops (unat (data_length h)) s; data = fst r
           in if length data \<noteq> unat (data_length h) then Some (snd r, m)
              else let hash_ok = (sha data = hash h)
                   in case (case consumer cb of
                              None \<Rightarrow> Some (False, m)
                            | Some f \<Rightarrow> if hash_ok then f chunk_id data m else Some (False, m)) of
                        None \<Rightarrow> None
                      | Some (accepted, m1) \<Rightarrow>
                          let ack = make_header (if accepted then Ack else Error) (chunk_id_length h) 0
                                      (if accepted then sha data else zero_hash) 0;
                              w = send_header ops e ack (snd r);
                              s1 = (if fst w then snd (write_exact ops (to_bytes chunk_id) (snd w)) else snd w)
                          in Some (st_close ops s1, m1))"

definition serve_chunk ::
    "'s stream_ops \<Rightarrow> (bytes \<Rightarrow> bytes) \<Rightarrow> endian \<Rightarrow> (nat \<Rightarrow> int) \<Rightarrow> ChunkMessageHeader \<Rightarrow> string \<Rightarrow>
     bytes option \<Rightarrow> BandwidthLimiter \<Rightarrow> 's \<Rightarrow> BandwidthLimiter \<times> 's" where
  "serve_chunk ops sha e clk h chunk_id chunk l s =
     (case chunk of
        None \<Rightarrow>
          let w = send_header ops e (make_header Error (chunk_id_length h) 0 zero_hash 0) s;
              s1 = (if fst w then snd (write_exact ops (to_bytes chunk_id) (snd w)) else snd w)
          in (l, st_close ops s1)
      | Some data \<Rightarrow>
          if data = [] then
            (let w = send_header ops e (make_header Error (chunk_id_length h) 0 zero_hash 0) s;
                 s1 = (if fst w then snd (write_exact ops (to_bytes chunk_id) (snd w)) else snd w)
             in (l, st_close ops s1))
          else
            let w = send_header ops e
                      (make_header Response (chunk_id_length h) (of_nat (length data)) (sha data) FLAG_LAST_PART) s
            in if \<not> fst w then (l, st_close ops (snd w))
               else let w1 = write_exact ops (to_bytes chunk_id) (snd w)
                    in if \<not> fst w1 then (l, st_close ops (snd w1))
                       else case send_slices ops clk 0 data l (snd w1) of
                              (_, l1, s1) \<Rightarrow> (l1, st_close ops s1))"

definition handle_chunk_request ::
    "'s stream_ops \<Rightarrow> (bytes \<Rightarrow> bytes) \<Rightarrow> endian \<Rightarrow> (nat \<Rightarrow> int) \<Rightarrow> 'm callbacks \<Rightarrow>
     BandwidthLimiter \<Rightarrow> 's \<Rightarrow> 'm \<Rightarrow> (BandwidthLimiter \<times> 's \<times> 'm) option" where
  "handle_chunk_request ops sha e clk cb l s m =
     (case recv_header ops e s of
        (None, s1) \<Rightarrow> Some (l, s1, m)
      | (Some h, s1) \<Rightarrow>
          if magic h \<noteq> CHUNK_TRANSFER_MAGIC then Some (l, s1, m)
          else if 256 < chunk_id_length h then Some (l, s1, m)
          else let r = read_exact ops (unat (chunk_id_length h)) s1
               in if length (fst r) \<noteq> unat (chunk_id_length h) then Some (l, snd r, m)
                  else let chunk_id = to_str (fst r)
                       in if message_type h = message_code Upload
                          then map_option (\<lambda>(s2, m1). (l, s2, m1)) (handle_upload ops sha e cb h chunk_id (snd r) m)
                          else case (case provider cb of None \<Rightarrow> Some (None, m) | Some f \<Rightarrow> f chunk_id m) of
                                 None \<Rightarrow> None
                               | Some (chunk, m1) \<Rightarrow>
                                   (case serve_chunk ops sha e clk h chunk_id chunk l (snd r) of
                                      (l1, s2) \<Rightarrow> Some (l1, s2, m1)))"

section \<open>Clients\<close>

record PeerDownloadResult =
  success :: bool
  bytes_downloaded :: nat
  dl_data :: bytes

definition failed_download :: PeerDownloadResult where
  "failed_download = \<lparr>success = False, bytes_downloaded = 0, dl_data = []\<rparr>"

text \<open>
  The receiving loop: \<open>Inl n\<close> when it was stopped or cut off after \<open>n\<close> bytes; \<open>stop i\<close> is
  the stop flag at the \<open>i\<close>th poll.
\<close>

function (sequential) recv_slices ::
    "'s stream_ops \<Rightarrow> (nat \<Rightarrow> bool) \<Rightarrow> (nat \<Rightarrow> int) \<Rightarrow> nat \<Rightarrow> nat \<Rightarrow> bytes \<Rightarrow> BandwidthLimiter \<Rightarrow> 's \<Rightarrow>
     (nat + bytes) \<times> BandwidthLimiter \<times> 's" where
  "recv_slices ops stop clk i tot acc l s =
     (if tot \<le> length acc then (Inr acc, l, s)
      else if stop i then (Inl (length acc), l, s)
      else let read_size = min SLICE (tot - length acc);
               l1 = snd (acquire (clk i) (of_nat read_size) l);
               r = read_exact ops read_size s
           in if fst r = [] then (Inl (length acc), l1, snd r)
              else recv_slices ops stop clk (Suc i) tot (acc @ fst r) l1 (snd r))"
  by pat_completeness auto
termination
  by (relation "measure (\<lambda>(ops, stop, clk, i, tot, acc, l, s). tot - length acc)") (auto simp: not_le intro!: diff_less_mono2)

declare recv_slices.simps [simp del]

definition check_download :: "(bytes \<Rightarrow> bytes) \<Rightarrow> (bytes \<Rightarrow> string) \<Rightarrow> bytes \<Rightarrow> string \<Rightarrow> bytes \<Rightarrow> PeerDownloadResult" where
  "check_download sha hex h expected data =
     (if sha data \<noteq> h then failed_download
      else if expected \<noteq> '''' \<and> hex (sha data) \<noteq> expected then failed_download
      else \<lparr>success = True, bytes_downloaded = length data, dl_data = data\<rparr>)"

text \<open>
  The answer of a peer: after an acceptable header, the echoed chunk id is consumed, then
  the payload, and the digests are compared.
\<close>

definition recv_payload ::
    "'s stream_ops \<Rightarrow> (bytes \<Rightarrow> bytes) \<Rightarrow> (bytes \<Rightarrow> string) \<Rightarrow> (nat \<Rightarrow> int) \<Rightarrow> (nat \<Rightarrow> bool) \<Rightarrow> string \<Rightarrow>
     ChunkMessageHeader \<Rightarrow> BandwidthLimiter \<Rightarrow> 's \<Rightarrow> PeerDownloadResult \<times> BandwidthLimiter \<times> 's" where
  "recv_payload ops sha hex clk stop expected h l s =
     (let n = unat (chunk_id_length h);
          r = (if 0 < n \<and> n \<le> 256 then read_exact ops n s else ([], s))
      in if 0 < n \<and> n \<le> 256 \<and> length (fst r) \<noteq> n then (failed_download, l, st_close ops (snd r))
         else let q = recv_slices ops stop clk 0 (unat (data_length h)) [] l (snd r)
              in (case fst q of
                    Inl k \<Rightarrow> failed_download\<lparr>bytes_downloaded := k\<rparr>
                  | Inr data \<Rightarrow> check_download sha hex (hash h) expected data,
                  fst (snd q), st_close ops (snd (snd q))))"

definition recv_response ::
    "'s stream_ops \<Rightarrow> (bytes \<Rightarrow> bytes) \<Rightarrow> (bytes \<Rightarrow> string) \<Rightarrow> endian \<Rightarrow> (nat \<Rightarrow> int) \<Rightarrow> (nat \<Rightarrow> bool) \<Rightarrow> string \<Rightarrow>
     BandwidthLimiter \<Rightarrow> 's \<Rightarrow> PeerDownloadResult \<times> BandwidthLimiter \<times> 's" where
  "recv_response ops sha hex e clk stop expected l s =
     (case recv_header ops e s of
        (None, s2) \<Rightarrow> (failed_download, l, st_close ops s2)
      | (Some h, s2) \<Rightarrow>
          if magic h \<noteq> CHUNK_TRANSFER_MAGIC then (failed_download, l, st_close ops s2)
          else if message_type h = message_code Error then (failed_download, l, st_close ops s2)
          else if message_type h \<noteq> message_code Response then (failed_download, l, st_close ops s2)
          else recv_payload ops sha hex clk stop expected h l s2)"

text \<open>One peer: \<open>conn\<close> is the connection, if there is one; every exit closes it.\<close>

definition download_from_peer ::
    "'s stream_ops \<Rightarrow> (bytes \<Rightarrow> bytes) \<Rightarrow> (bytes \<Rightarrow> string) \<Rightarrow> endian \<Rightarrow> (nat \<Rightarrow> int) \<Rightarrow> (nat \<Rightarrow> bool) \<Rightarrow>
     string \<Rightarrow> bool \<Rightarrow> string \<Rightarrow> BandwidthLimiter \<Rightarrow> 's option \<Rightarrow>
     PeerDownloadResult \<times> BandwidthLimiter \<times> 's option" where
  "download_from_peer ops sha hex e clk stop chunk_id is_resume expected l conn =
     (case conn of
        None \<Rightarrow> (failed_download, l, None)
      | Some s \<Rightarrow>
          let w = send_header ops e
                    (make_header Request (of_nat (length chunk_id)) 0 zero_hash (if is_resume then FLAG_RESUME else 0)) s
          in if \<not> fst w then (failed_download, l, Some (st_close ops (snd w)))
             else let w1 = write_exact ops (to_bytes chunk_id) (snd w)
                  in if \<not> fst w1 then (failed_download, l, Some (st_close ops (snd w1)))
                     else case recv_response ops sha hex e clk stop expected l (snd w1) of
                            (r, l1, s1) \<Rightarrow> (r, l1, Some s1))"

text \<open>
  The connection part of \<open>upload_chunk\<close>. The chunk id echoed after the acknowledgement is
  read and dropped without a check.
\<close>

definition upload_to_peer ::
    "'s stream_ops \<Rightarrow> (bytes \<Rightarrow> bytes) \<Rightarrow> endian \<Rightarrow> (nat \<Rightarrow> int) \<Rightarrow> string \<Rightarrow> bytes \<Rightarrow> BandwidthLimiter \<Rightarrow>
     's option \<Rightarrow> bool \<times> BandwidthLimiter \<times> 's option" where
  "upload_to_peer ops sha e clk chunk_id data l conn =
     (case conn of
        None \<Rightarrow> (False, l, None)
      | Some s \<Rightarrow>
          let w = send_header ops e
                    (make_header Upload (of_nat (length chunk_id)) (of_nat (length data)) (sha data) FLAG_LAST_PART) s
          in if \<not> fst w then (False, l, Some (st_close ops (snd w)))
             else let w1 = write_exact ops (to_bytes chunk_id) (snd w)
                  in if \<not> fst w1 then (False, l, Some (st_close ops (snd w1)))
                     else case send_slices ops clk 0 data l (snd w1) of
                            (False, l1, s1) \<Rightarrow> (False, l1, Some (st_close ops s1))
                          | (True, l1, s1) \<Rightarrow>
                              (case recv_header ops e s1 of
                                 (None, s2) \<Rightarrow> (False, l1, Some (st_close ops s2))
                               | (Some h, s2) \<Rightarrow>
                                   let n = unat (chunk_id_length h);
                                       s3 = (if 0 < n \<and> n \<le> 256 then snd (read_exact ops n s2) else s2)
                                   in (magic h = CHUNK_TRANSFER_MAGIC \<and> message_type h = message_code Ack \<and>
                                       hash h = sha data, l1, Some (st_close ops s3))))"

section \<open>The header on the wire\<close>

text \<open>The 57 bytes every host puts on the wire for a header.\<close>

definition wire_header :: "ChunkMessageHeader \<Rightarrow> bytes" where
  "wire_header h =
     be_bytes 4 (unat (magic h)) @ be_bytes 4 (unat (version h)) @ be_bytes 4 (unat (message_type h)) @
     be_bytes 4 (unat (chunk_id_length h)) @ be_bytes 4 (unat (data_length h)) @ hash h @
     be_bytes 4 (unat (sequence_number h)) @ [flags h]"

lemma unat_htonl: "unat (htonl e x) = hton e 4 (unat x)"
proof -
  have "hton e 4 (unat x) < 2 ^ 32" using hton_less [of e 4 "unat x"] by simp
  then show ?thesis by (simp add: htonl_def unat_of_nat)
qed

lemma header_image_wire: "header_image e (header_to_wire e h) = wire_header h"
  by (simp add: header_image_def header_to_wire_def wire_header_def unat_htonl mem_bytes_hton)

lemma length_wire_header: "length (hash h) = 32 \<Longrightarrow> length (wire_header h) = header_size"
  by (simp add: wire_header_def header_size_def)

lemma htonl_load:
  assumes "length bs = 4"
  shows "htonl e (of_nat (mem_val e bs)) = of_nat (be_val bs)"
proof -
  have "mem_val e bs < 2 ^ 32"
    using be_val_less [of bs] be_val_less [of "rev bs"] assms by (simp add: mem_val_def split: endian.split)
  then have "unat (of_nat (mem_val e bs) :: u32) = mem_val e bs" by (simp add: unat_of_nat)
  then show ?thesis using hton_mem_val [OF assms, of e] by (simp add: htonl_def)
qed

lemma of_be_val_be_bytes: "(of_nat (be_val (be_bytes 4 (unat x))) :: u32) = x"
  using unsigned_less [of x, where ?'a = nat] by (simp add: be_val_be_bytes)

lemma header_from_wire_image:
  assumes "length (hash h) = 32"
  shows "header_from_wire e (header_of_image e (wire_header h)) = h"
proof -
  have len: "length (hash h) = 32" by (rule assms)
  show ?thesis
    by (simp add: header_from_wire_def header_of_image_def load_u32_def wire_header_def len
        htonl_load of_be_val_be_bytes)
qed

lemma length_hash_make_header [simp]: "length h = 32 \<Longrightarrow> length (hash (make_header t a b h f)) = 32"
  by (simp add: make_header_def)

lemma length_zero_hash [simp]: "length zero_hash = 32"
  by (simp add: zero_hash_def)

section \<open>What the protocol needs of a TCP stream\<close>

text \<open>
  \<open>pending\<close> are the bytes the peer will have delivered by the end of the connection and
  \<open>sent\<close> the bytes accepted for sending. A read takes a non-empty prefix of what is pending
  unless there is nothing left; while the peer is there (\<open>writable\<close>), a write accepts at
  least one byte. How the bytes are cut into reads and writes is left open.
\<close>

locale byte_stream =
  fixes ops :: "'s stream_ops"
    and pending :: "'s \<Rightarrow> bytes"
    and sent :: "'s \<Rightarrow> bytes"
    and writable :: "'s \<Rightarrow> bool"
  assumes read_prefix: "st_read ops s n = (b, s') \<Longrightarrow>
            pending s = b @ pending s' \<and> length b \<le> n \<and> sent s' = sent s \<and> writable s' = writable s"
    and read_progress: "st_read ops s n = ([], s') \<Longrightarrow> 0 < n \<Longrightarrow> pending s = []"
    and write_prefix: "st_write ops s bs = (k, s') \<Longrightarrow>
            k \<le> length bs \<and> sent s' = sent s @ take k bs \<and> pending s' = pending s \<and> writable s' = writable s"
    and write_progress: "writable s \<Longrightarrow> bs \<noteq> [] \<Longrightarrow> st_write ops s bs = (k, s') \<Longrightarrow> 0 < k"
    and close_sent: "sent (st_close ops s) = sent s"

context byte_stream
begin

lemma read_exact_all:
  "fst (read_exact ops n s) = take n (pending s) \<and> pending (snd (read_exact ops n s)) = drop n (pending s) \<and>
   sent (snd (read_exact ops n s)) = sent s \<and> writable (snd (read_exact ops n s)) = writable s"
proof (induction n arbitrary: s rule: less_induct)
  case (less n)
  show ?case
  proof (cases "n = 0")
    case True
    then show ?thesis by (simp add: read_exact.simps)
  next
    case False
    obtain b s' where r: "st_read ops s n = (b, s')" by force
    note p = read_prefix [OF r]
    show ?thesis
    proof (cases "b = []")
      case True
      then show ?thesis
        using False r p read_progress [of s n s'] by (subst (1 2 3 4) read_exact.simps) (simp add: Let_def)
    next
      case ne: False
      then have "n - length b < n" using False by (simp add: length_greater_0_conv)
      note ih = less.IH [OF this, of s']
      have "read_exact ops n s = (b @ fst (read_exact ops (n - length b) s'), snd (read_exact ops (n - length b) s'))"
        using False ne r by (subst read_exact.simps) (simp add: Let_def)
      then show ?thesis using ih p by simp
    qed
  qed
qed

lemmas read_exact_simps [simp] =
  read_exact_all [THEN conjunct1] read_exact_all [THEN conjunct2, THEN conjunct1]
  read_exact_all [THEN conjunct2, THEN conjunct2, THEN conjunct1]
  read_exact_all [THEN conjunct2, THEN conjunct2, THEN conjunct2]

lemma write_exact_all:
  assumes "writable s"
  shows "fst (write_exact ops bs s) \<and> sent (snd (write_exact ops bs s)) = sent s @ bs \<and>
   pending (snd (write_exact ops bs s)) = pending s \<and> writable (snd (write_exact ops bs s))"
  using assms
proof (induction "length bs" arbitrary: bs s rule: less_induct)
  case less
  show ?case
  proof (cases "bs = []")
    case True
    then show ?thesis using less.prems by (simp add: write_exact.simps)
  next
    case False
    obtain k s' where r: "st_write ops s bs = (k, s')" by force
    note p = write_prefix [OF r]
    have k: "0 < k" using write_progress [OF less.prems False r] .
    then have "length (drop k bs) < length bs" using False by simp
    moreover have "writable s'" using p less.prems by simp
    ultimately have ih: "fst (write_exact ops (drop k bs) s') \<and>
       sent (snd (write_exact ops (drop k bs) s')) = sent s' @ drop k bs \<and>
       pending (snd (write_exact ops (drop k bs) s')) = pending s' \<and> writable (snd (write_exact ops (drop k bs) s'))"
      by (rule less.hyps)
    have "write_exact ops bs s = write_exact ops (drop k bs) s'"
      using False r k by (subst write_exact.simps) (simp add: Let_def)
    then show ?thesis using ih p by simp
  qed
qed

lemmas write_exact_simps [simp] =
  write_exact_all [THEN conjunct1] write_exact_all [THEN conjunct2, THEN conjunct1]
  write_exact_all [THEN conjunct2, THEN conjunct2, THEN conjunct1]
  write_exact_all [THEN conjunct2, THEN conjunct2, THEN conjunct2]

lemma send_header_simps [simp]:
  assumes "writable s"
  shows "fst (send_header ops e h s)" "sent (snd (send_header ops e h s)) = sent s @ wire_header h"
    "pending (snd (send_header ops e h s)) = pending s" "writable (snd (send_header ops e h s))"
  using assms by (simp_all add: send_header_def header_image_wire)

lemma recv_header_wire:
  assumes "pending s = wire_header h @ rest" and "length (hash h) = 32"
  shows "fst (recv_header ops e s) = Some h" and "pending (snd (recv_header ops e s)) = rest"
    and "sent (snd (recv_header ops e s)) = sent s" and "writable (snd (recv_header ops e s)) = writable s"
  using assms length_wire_header [OF assms(2)]
  by (simp_all add: recv_header_def Let_def header_from_wire_image)

lemma recv_header_cases:
  "fst (recv_header ops e s) = (if header_size \<le> length (pending s)
     then Some (header_from_wire e (header_of_image e (take header_size (pending s)))) else None)"
  "pending (snd (recv_header ops e s)) = drop header_size (pending s)"
  by (auto simp: recv_header_def Let_def)

lemma send_slices_all:
  assumes "writable s"
  shows "\<exists>l' s'. send_slices ops clk i data l s = (True, l', s') \<and> sent s' = sent s @ data \<and>
     pending s' = pending s \<and> writable s'"
  using assms
proof (induction "length data" arbitrary: data i l s rule: less_induct)
  case less
  show ?case
  proof (cases "data = []")
    case True
    then show ?thesis using less.prems by (simp add: send_slices.simps)
  next
    case False
    let ?r = "write_exact ops (take SLICE data) s"
    let ?l = "snd (acquire (clk i) (size64 (take SLICE data)) l)"
    have "length (drop SLICE data) < length data" using False by (simp add: SLICE_def)
    from less.hyps [OF this, of "snd ?r" "Suc i" ?l] less.prems
    obtain l' s' where r: "send_slices ops clk (Suc i) (drop SLICE data) ?l (snd ?r) = (True, l', s')"
      and s': "sent s' = sent s @ data" "pending s' = pending s" "writable s'"
      by auto
    have "send_slices ops clk i data l s = (True, l', s')"
      using False less.prems r by (subst send_slices.simps) (simp add: Let_def)
    then show ?thesis using s' by simp
  qed
qed

lemma recv_slices_all:
  assumes "length acc \<le> tot" and "tot - length acc \<le> length (pending s)" and "\<forall>j. \<not> stop j"
  shows "\<exists>l' s'. recv_slices ops stop clk i tot acc l s = (Inr (acc @ take (tot - length acc) (pending s)), l', s')"
  using assms
proof (induction "tot - length acc" arbitrary: acc i l s rule: less_induct)
  case less
  show ?case
  proof (cases "tot \<le> length acc")
    case True
    then show ?thesis by (simp add: recv_slices.simps)
  next
    case False
    let ?n = "min SLICE (tot - length acc)"
    let ?b = "take ?n (pending s)"
    let ?s = "snd (read_exact ops ?n s)"
    let ?l = "snd (acquire (clk i) (of_nat ?n) l)"
    have n: "0 < ?n" "length ?b = ?n" using False less.prems(2) by (auto simp: SLICE_def)
    then have step: "recv_slices ops stop clk i tot acc l s = recv_slices ops stop clk (Suc i) tot (acc @ ?b) ?l ?s"
      using False less.prems(3) by (subst recv_slices.simps) (auto simp: Let_def)
    have "tot - length (acc @ ?b) < tot - length acc" using n False by simp
    then have "\<exists>l' s'. recv_slices ops stop clk (Suc i) tot (acc @ ?b) ?l ?s =
        (Inr ((acc @ ?b) @ take (tot - length (acc @ ?b)) (pending ?s)), l', s')"
      using less.prems n by (intro less.hyps) (auto simp: min_def)
    moreover have "?b @ take (tot - length (acc @ ?b)) (pending ?s) = take (tot - length acc) (pending s)"
      using n False by (simp add: take_add [symmetric])
    ultimately show ?thesis unfolding step by simp
  qed
qed

end

section \<open>The two ends of a connection\<close>

definition request_bytes :: "string \<Rightarrow> bool \<Rightarrow> bytes" where
  "request_bytes i resume =
     wire_header (make_header Request (of_nat (length i)) 0 zero_hash (if resume then FLAG_RESUME else 0)) @ to_bytes i"

definition response_bytes :: "(bytes \<Rightarrow> bytes) \<Rightarrow> string \<Rightarrow> bytes option \<Rightarrow> bytes" where
  "response_bytes sha i chunk =
     (if chunk = None \<or> chunk = Some []
      then wire_header (make_header Error (of_nat (length i)) 0 zero_hash 0) @ to_bytes i
      else wire_header (make_header Response (of_nat (length i)) (of_nat (length (the chunk))) (sha (the chunk)) FLAG_LAST_PART)
           @ to_bytes i @ the chunk)"

definition upload_bytes :: "(bytes \<Rightarrow> bytes) \<Rightarrow> string \<Rightarrow> bytes \<Rightarrow> bytes" where
  "upload_bytes sha i data =
     wire_header (make_header Upload (of_nat (length i)) (of_nat (length data)) (sha data) FLAG_LAST_PART) @ to_bytes i @ data"

definition ack_bytes :: "(bytes \<Rightarrow> bytes) \<Rightarrow> string \<Rightarrow> bytes \<Rightarrow> bool \<Rightarrow> bytes" where
  "ack_bytes sha i data accepted =
     wire_header (make_header (if accepted then Ack else Error) (of_nat (length i)) 0
        (if accepted then sha data else zero_hash) 0) @ to_bytes i"

lemma make_header_fields [simp]:
  "magic (make_header t a b h f) = CHUNK_TRANSFER_MAGIC" "message_type (make_header t a b h f) = message_code t"
  "chunk_id_length (make_header t a b h f) = a" "data_length (make_header t a b h f) = b"
  "hash (make_header t a b h f) = h"
  by (simp_all add: make_header_def)

lemma unat_of_nat_u32: "n < 2 ^ 32 \<Longrightarrow> unat (of_nat n :: u32) = n"
  by (simp add: unat_of_nat)

lemma id_length_ok: "n \<le> 256 \<Longrightarrow> unat (of_nat n :: u32) = n \<and> \<not> 256 < (of_nat n :: u32)"
  by (simp add: unat_of_nat_u32 word_less_nat_alt)

context byte_stream
begin

lemma serve_chunk_sends:
  assumes "writable s" and "chunk_id_length h = of_nat (length i)"
  shows "\<exists>l' s'. serve_chunk ops sha e clk h i chunk l s = (l', s') \<and> sent s' = sent s @ response_bytes sha i chunk"
proof (cases "chunk = None \<or> chunk = Some []")
  case True
  then show ?thesis
    using assms by (auto simp: serve_chunk_def response_bytes_def Let_def close_sent)
next
  case False
  then obtain data where c: "chunk = Some data" "data \<noteq> []" by auto
  let ?h = "make_header Response (of_nat (length i)) (of_nat (length data)) (sha data) FLAG_LAST_PART"
  let ?s = "snd (write_exact ops (to_bytes i) (snd (send_header ops e ?h s)))"
  obtain l' s' where "send_slices ops clk 0 data l ?s = (True, l', s')" and "sent s' = sent ?s @ data"
    using send_slices_all [of ?s clk 0 data l] assms(1) by auto
  then show ?thesis
    using c assms by (simp add: serve_chunk_def response_bytes_def Let_def close_sent)
qed

lemma recv_header_wireE:
  assumes "pending s = wire_header h @ rest" and "length (hash h) = 32"
  obtains s1 where "recv_header ops e s = (Some h, s1)" and "pending s1 = rest" and "sent s1 = sent s"
    and "writable s1 = writable s"
  using recv_header_wire [OF assms, of e] by (metis prod.collapse)

lemma handle_request_serves:
  assumes "writable s" and "pending s = request_bytes i resume @ rest" and "length i \<le> 256"
    and "provider cb = Some f" and "f i m = Some (chunk, m1)"
  shows "\<exists>l' s'. handle_chunk_request ops sha e clk cb l s m = Some (l', s', m1) \<and>
     sent s' = sent s @ response_bytes sha i chunk"
proof -
  let ?h = "make_header Request (of_nat (length i)) 0 zero_hash (if resume then FLAG_RESUME else 0)"
  have p: "pending s = wire_header ?h @ to_bytes i @ rest" using assms(2) by (simp add: request_bytes_def)
  obtain s1 where r: "recv_header ops e s = (Some ?h, s1)" "pending s1 = to_bytes i @ rest" "sent s1 = sent s"
    "writable s1 = writable s"
    by (rule recv_header_wireE [OF p, of e]) simp_all
  let ?s2 = "snd (read_exact ops (length i) s1)"
  obtain l' s' where sv: "serve_chunk ops sha e clk ?h i chunk l ?s2 = (l', s')"
    "sent s' = sent s @ response_bytes sha i chunk"
    using serve_chunk_sends [of ?s2 ?h i sha e clk chunk l] assms(1) r by auto
  have "handle_chunk_request ops sha e clk cb l s m = Some (l', s', m1)"
    using r sv(1) assms(3-5) id_length_ok [OF assms(3)]
    by (simp add: handle_chunk_request_def Let_def message_code_def)
  then show ?thesis using sv(2) by blast
qed

lemma handle_upload_stores:
  assumes "writable s" and "pending s = upload_bytes sha i data @ rest" and "length i \<le> 256"
    and "0 < length data" and "length data \<le> 64 * 1024 * 1024" and "\<forall>d. length (sha d) = 32"
    and "consumer cb = Some f" and "f i data m = Some (b, m1)"
  shows "\<exists>s'. handle_chunk_request ops sha e clk cb l s m = Some (l, s', m1) \<and>
     sent s' = sent s @ ack_bytes sha i data b"
proof -
  let ?h = "make_header Upload (of_nat (length i)) (of_nat (length data)) (sha data) FLAG_LAST_PART"
  have p: "pending s = wire_header ?h @ to_bytes i @ data @ rest" using assms(2) by (simp add: upload_bytes_def)
  obtain s1 where r: "recv_header ops e s = (Some ?h, s1)" "pending s1 = to_bytes i @ data @ rest" "sent s1 = sent s"
    "writable s1 = writable s"
    by (rule recv_header_wireE [OF p, of e]) (simp_all add: assms(6))
  let ?s2 = "snd (read_exact ops (length i) s1)"
  let ?s3 = "snd (read_exact ops (length data) ?s2)"
  have n: "unat (of_nat (length data) :: u32) = length data" using assms(5) by (intro unat_of_nat_u32) simp
  have len: "(of_nat (length data) :: u32) \<noteq> 0" "\<not> MAX_UPLOAD_BYTES < (of_nat (length data) :: u32)"
    using n assms(4,5) by (auto simp: word_less_nat_alt MAX_UPLOAD_BYTES_def unat_eq_zero [symmetric])
  let ?a = "make_header (if b then Ack else Error) (of_nat (length i)) 0 (if b then sha data else zero_hash) 0"
  let ?s4 = "st_close ops (snd (write_exact ops (to_bytes i) (snd (send_header ops e ?a ?s3))))"
  have "handle_upload ops sha e cb ?h i ?s2 m = Some (?s4, m1)"
    using r n len assms(1,7,8) by (simp add: handle_upload_def Let_def)
  then have "handle_chunk_request ops sha e clk cb l s m = Some (l, ?s4, m1)"
    using r id_length_ok [OF assms(3)] assms(3) by (simp add: handle_chunk_request_def Let_def)
  moreover have "sent ?s4 = sent s @ ack_bytes sha i data b"
    using r assms(1) by (simp add: close_sent ack_bytes_def)
  ultimately show ?thesis by blast
qed

lemma recv_slices_sent: "sent (snd (snd (recv_slices ops stop clk i tot acc l s))) = sent s"
proof (induction "tot - length acc" arbitrary: acc i l s rule: less_induct)
  case less
  let ?n = "min SLICE (tot - length acc)"
  show ?case
  proof (cases "tot \<le> length acc \<or> stop i \<or> fst (read_exact ops ?n s) = []")
    case True
    then show ?thesis by (subst recv_slices.simps) (auto simp: Let_def)
  next
    case False
    let ?b = "fst (read_exact ops ?n s)"
    have "tot - length (acc @ ?b) < tot - length acc"
      using False by (metis add_diff_cancel_left' diff_less_mono2 length_append length_greater_0_conv less_add_same_cancel1 not_le)
    then have "sent (snd (snd (recv_slices ops stop clk (Suc i) tot (acc @ ?b) l1 (snd (read_exact ops ?n s))))) = sent s" for l1
      using less.hyps by simp
    then show ?thesis using False by (subst recv_slices.simps) (simp add: Let_def)
  qed
qed

text \<open>Whatever the peer answers, the client sends its request and nothing else.\<close>

lemma recv_response_sent: "sent (snd (snd (recv_response ops sha hex e clk stop expected l s))) = sent s"
proof -
  obtain h s2 where r: "recv_header ops e s = (h, s2)" by force
  have "sent s2 = sent s" using r by (auto simp: recv_header_def Let_def)
  moreover have "sent (snd (snd (recv_payload ops sha hex clk stop expected k l s2))) = sent s2" for k
    by (simp add: recv_payload_def Let_def recv_slices_sent close_sent)
  ultimately show ?thesis using r by (simp add: recv_response_def close_sent split: option.split)
qed

lemma download_request_sent:
  assumes "writable s" and "download_from_peer ops sha hex e clk stop i resume expected l (Some s) = (r, l', Some s')"
  shows "sent s' = sent s @ request_bytes i resume"
proof -
  let ?q = "make_header Request (of_nat (length i)) 0 zero_hash (if resume then FLAG_RESUME else 0)"
  let ?s1 = "snd (write_exact ops (to_bytes i) (snd (send_header ops e ?q s)))"
  have "s' = snd (snd (recv_response ops sha hex e clk stop expected l ?s1))"
    using assms by (auto simp: download_from_peer_def Let_def split: prod.splits)
  then show ?thesis using assms(1) by (simp add: recv_response_sent request_bytes_def)
qed

lemma download_gets:
  assumes "writable s" and "pending s = response_bytes sha i (Some data) @ rest" and "data \<noteq> []"
    and "length i \<le> 256" and "length data < 2 ^ 32" and "\<forall>d. length (sha d) = 32" and "\<forall>j. \<not> stop j"
    and "expected = '''' \<or> hex (sha data) = expected"
  shows "\<exists>l' s'. download_from_peer ops sha hex e clk stop i resume expected l (Some s) =
     (\<lparr>success = True, bytes_downloaded = length data, dl_data = data\<rparr>, l', Some s')"
proof -
  let ?q = "make_header Request (of_nat (length i)) 0 zero_hash (if resume then FLAG_RESUME else 0)"
  let ?h = "make_header Response (of_nat (length i)) (of_nat (length data)) (sha data) FLAG_LAST_PART"
  let ?s1 = "snd (write_exact ops (to_bytes i) (snd (send_header ops e ?q s)))"
  have p: "pending ?s1 = wire_header ?h @ to_bytes i @ data @ rest"
    using assms(1-3) by (simp add: response_bytes_def)
  obtain s2 where r: "recv_header ops e ?s1 = (Some ?h, s2)" "pending s2 = to_bytes i @ data @ rest"
    by (rule recv_header_wireE [OF p, of e]) (simp_all add: assms(6))
  let ?s3 = "if 0 < length i then snd (read_exact ops (length i) s2) else s2"
  have p3: "pending ?s3 = data @ rest" using r by (simp add: to_bytes_def)
  obtain l' s' where rs: "recv_slices ops stop clk 0 (length data) [] l ?s3 = (Inr data, l', s')"
    using recv_slices_all [of "[]" "length data" ?s3 stop clk 0 l] p3 assms(7) by auto
  show ?thesis
    using assms(1,4,8) r rs id_length_ok [OF assms(4)] unat_of_nat_u32 [OF assms(5)]
    by (auto simp: download_from_peer_def recv_response_def recv_payload_def Let_def message_code_def check_download_def)
qed

end

context byte_stream
begin

lemma upload_sent:
  assumes "writable s" and "upload_to_peer ops sha e clk i data l (Some s) = (b, l', Some s')"
  shows "sent s' = sent s @ upload_bytes sha i data"
proof -
  let ?h = "make_header Upload (of_nat (length i)) (of_nat (length data)) (sha data) FLAG_LAST_PART"
  let ?s1 = "snd (write_exact ops (to_bytes i) (snd (send_header ops e ?h s)))"
  obtain l1 s2 where sl: "send_slices ops clk 0 data l ?s1 = (True, l1, s2)" "sent s2 = sent ?s1 @ data"
    using send_slices_all [of ?s1 clk 0 data l] assms(1) by auto
  obtain h s3 where r: "recv_header ops e s2 = (h, s3)" by force
  have "sent s3 = sent s2" using r by (auto simp: recv_header_def Let_def)
  then have "sent s' = sent s2"
    using assms sl(1) r by (auto simp: upload_to_peer_def Let_def close_sent split: option.splits if_splits)
  then show ?thesis using sl(2) assms(1) by (simp add: upload_bytes_def)
qed

lemma upload_answer:
  assumes "writable s" and "pending s = ack_bytes sha i data b @ rest" and "\<forall>d. length (sha d) = 32"
  shows "fst (upload_to_peer ops sha e clk i data l (Some s)) = b"
proof -
  let ?h = "make_header Upload (of_nat (length i)) (of_nat (length data)) (sha data) FLAG_LAST_PART"
  let ?s1 = "snd (write_exact ops (to_bytes i) (snd (send_header ops e ?h s)))"
  let ?a = "make_header (if b then Ack else Error) (of_nat (length i)) 0 (if b then sha data else zero_hash) 0"
  obtain l1 s2 where sl: "send_slices ops clk 0 data l ?s1 = (True, l1, s2)" "pending s2 = pending s"
    using send_slices_all [of ?s1 clk 0 data l] assms(1) by auto
  have p: "pending s2 = wire_header ?a @ to_bytes i @ rest" using sl(2) assms(2) by (simp add: ack_bytes_def)
  obtain s3 where r: "recv_header ops e s2 = (Some ?a, s3)"
    by (rule recv_header_wireE [OF p, of e]) (simp_all add: assms(3))
  show ?thesis
    using assms(1) sl(1) r by (simp add: upload_to_peer_def Let_def message_code_def)
qed

end

section \<open>A stream of segments\<close>

text \<open>
  The instance: the bytes arrive cut into segments, a read takes from the first one that is
  not empty, and a write accepts at most \<open>quantum + 1\<close> bytes.
\<close>

record seg_stream =
  segs :: "bytes list"
  out :: bytes
  quantum :: nat

definition seg_read :: "seg_stream \<Rightarrow> nat \<Rightarrow> bytes \<times> seg_stream" where
  "seg_read s n =
     (case dropWhile (\<lambda>x. x = []) (segs s) of
        [] \<Rightarrow> ([], s\<lparr>segs := []\<rparr>)
      | x # xs \<Rightarrow> (take n x, s\<lparr>segs := drop n x # xs\<rparr>))"

definition seg_write :: "seg_stream \<Rightarrow> bytes \<Rightarrow> nat \<times> seg_stream" where
  "seg_write s bs = (let k = min (Suc (quantum s)) (length bs) in (k, s\<lparr>out := out s @ take k bs\<rparr>))"

definition seg_ops :: "seg_stream stream_ops" where
  "seg_ops = \<lparr>st_read = seg_read, st_write = seg_write, st_close = (\<lambda>s. s)\<rparr>"

definition seg_pending :: "seg_stream \<Rightarrow> bytes" where
  "seg_pending s = concat (segs s)"

definition seg_writable :: "seg_stream \<Rightarrow> bool" where
  "seg_writable s \<longleftrightarrow> 0 < Suc (quantum s)"

lemma concat_dropWhile_Nil: "concat (dropWhile (\<lambda>x. x = []) xss) = concat xss"
  by (induction xss) auto

interpretation seg: byte_stream seg_ops seg_pending out seg_writable
proof (unfold_locales, goal_cases)
  case (1 s n b s')
  have "concat (segs s) = concat (dropWhile (\<lambda>x. x = []) (segs s))" by (simp add: concat_dropWhile_Nil)
  with 1 show ?case
    by (auto simp: seg_ops_def seg_read_def seg_pending_def seg_writable_def simp del: dropWhile_eq_Nil_conv split: list.splits)
next
  case (2 s n s')
  have c: "concat (segs s) = concat (dropWhile (\<lambda>x. x = []) (segs s))" by (simp add: concat_dropWhile_Nil)
  show ?case
  proof (cases "dropWhile (\<lambda>x. x = []) (segs s)")
    case Nil
    with c show ?thesis by (simp add: seg_pending_def)
  next
    case (Cons x xs)
    then have "x \<noteq> []" by (simp add: dropWhile_eq_Cons_conv)
    with Cons 2 show ?thesis by (auto simp: seg_ops_def seg_read_def)
  qed
next
  case (3 s bs k s')
  then show ?case by (auto simp: seg_ops_def seg_write_def seg_pending_def seg_writable_def Let_def)
next
  case (4 s bs k s')
  then show ?case by (auto simp: seg_ops_def seg_write_def Let_def)
next
  case (5 s)
  then show ?case by (simp add: seg_ops_def)
qed

section \<open>Properties\<close>

text \<open>Two ends of a connection for the examples, cut into small pieces.\<close>

definition ex_sha :: "bytes \<Rightarrow> bytes" where
  "ex_sha d = take 32 (d @ zero_hash)"

definition ex_limiter :: BandwidthLimiter where
  "ex_limiter = new_limiter 0 0"

definition ex_end :: "bytes list \<Rightarrow> seg_stream" where
  "ex_end xs = \<lparr>segs = xs, out = [], quantum = 2\<rparr>"

definition ex_callbacks :: "string list callbacks" where
  "ex_callbacks = \<lparr>provider = Some (\<lambda>i m. Some (Some [1, 2, 3], m)), consumer = Some (\<lambda>i d m. Some (True, i # m))\<rparr>"

lemma length_ex_sha [simp]: "length (ex_sha d) = 32"
  by (simp add: ex_sha_def)

lemma seg_writable: "seg_writable s"
  by (simp add: seg_writable_def)

text \<open>
  Byte order. A header written by a host of either endianness and read by a host of
  either endianness is the same header.
\<close>

theorem header_wire_roundtrip:
  assumes "length (hash h) = 32"
  shows "header_from_wire e2 (header_of_image e2 (header_image e1 (header_to_wire e1 h))) = h"
  using assms by (simp add: header_image_wire header_from_wire_image)

theorem header_wire_roundtrip_witness:
  "header_from_wire Big (header_of_image Big (header_image Little (header_to_wire Little
      (make_header Response 3 70000 zero_hash 4)))) = make_header Response 3 70000 zero_hash 4"
  by (rule header_wire_roundtrip) simp

text \<open>
  Segmentation. However TCP cuts the bytes into reads, \<open>read_exact\<close> returns the next
  \<open>n\<close> bytes, or all that is left when the peer closes earlier, and leaves the rest.
\<close>

theorem read_exact_complete:
  assumes "byte_stream ops pending sent writable"
  shows "fst (read_exact ops n s) = take n (pending s) \<and> pending (snd (read_exact ops n s)) = drop n (pending s)"
  using byte_stream.read_exact_all [OF assms] by blast

theorem read_exact_complete_witness:
  "fst (read_exact seg_ops 3 \<lparr>segs = [[1], [], [2, 3, 4]], out = [], quantum = 0\<rparr>) = [1, 2, 3]"
  using read_exact_complete [OF seg.byte_stream_axioms, of 3 "\<lparr>segs = [[1], [], [2, 3, 4]], out = [], quantum = 0\<rparr>"]
  by (simp add: seg_pending_def)

text \<open>
  C8. Download, end to end. A client and a server joined by TCP streams, on hosts of any
  endianness: when the server's provider has the chunk, the client's download succeeds with
  exactly the provider's bytes.
\<close>

theorem download_end_to_end:
  assumes "byte_stream ops pending sent writable" and "writable sc" and "writable ss"
    and "sent sc = []" and "sent ss = []"
    and "download_from_peer ops sha hex e1 clk1 (\<lambda>_. False) i resume expected l1 (Some sc) = (r, l1', Some sc')"
    and "handle_chunk_request ops sha e2 clk2 cb l2 ss m = Some (l2', ss', m')"
    and "pending ss = sent sc'" and "pending sc = sent ss'"
    and "provider cb = Some f" and "f i m = Some (Some data, m1)" and "data \<noteq> []" and "length data < 2 ^ 32"
    and "length i \<le> 256" and "\<forall>d. length (sha d) = 32" and "expected = '''' \<or> hex (sha data) = expected"
  shows "success r \<and> dl_data r = data \<and> m' = m1"
proof -
  have "sent sc' = request_bytes i resume"
    using byte_stream.download_request_sent [OF assms(1,2,6)] assms(4) by simp
  then have "pending ss = request_bytes i resume @ []" using assms(8) by simp
  then obtain l' s' where h: "handle_chunk_request ops sha e2 clk2 cb l2 ss m = Some (l', s', m1)"
    "sent s' = response_bytes sha i (Some data)"
    using byte_stream.handle_request_serves [OF assms(1,3) _ assms(14,10,11)] assms(5) by fastforce
  then have p: "pending sc = response_bytes sha i (Some data) @ []" using assms(7,9) by simp
  have "\<exists>l' s'. download_from_peer ops sha hex e1 clk1 (\<lambda>_. False) i resume expected l1 (Some sc) =
      (\<lparr>success = True, bytes_downloaded = length data, dl_data = data\<rparr>, l', Some s')"
    by (rule byte_stream.download_gets [OF assms(1,2) p assms(12,14,13,15)]) (simp_all add: assms(16))
  then show ?thesis using assms(6,7) h by auto
qed

theorem download_end_to_end_witness:
  "\<exists>r l1' sc' l2' ss'. download_from_peer seg_ops ex_sha to_str Little (\<lambda>_. 0) (\<lambda>_. False) ''k_0'' False '''' ex_limiter
       (Some (ex_end [response_bytes ex_sha ''k_0'' (Some [1, 2, 3])])) = (r, l1', Some sc') \<and>
     handle_chunk_request seg_ops ex_sha Big (\<lambda>_. 0) ex_callbacks ex_limiter
       (ex_end [request_bytes ''k_0'' False]) [] = Some (l2', ss', []) \<and> success r \<and> dl_data r = [1, 2, 3]"
proof -
  let ?sc = "ex_end [response_bytes ex_sha ''k_0'' (Some [1, 2, 3])]"
  let ?ss = "ex_end [request_bytes ''k_0'' False]"
  have p: "seg_pending ?sc = response_bytes ex_sha ''k_0'' (Some [1, 2, 3]) @ []"
    "seg_pending ?ss = request_bytes ''k_0'' False @ []"
    and o: "out ?sc = []" "out ?ss = []"
    by (simp_all add: ex_end_def seg_pending_def)
  obtain r l1' sc' where d: "download_from_peer seg_ops ex_sha to_str Little (\<lambda>_. 0) (\<lambda>_. False) ''k_0'' False '''' ex_limiter
       (Some ?sc) = (r, l1', Some sc')"
    using seg.download_gets [OF seg_writable p(1), where stop = "\<lambda>_. False" and expected = "''''"] by fastforce
  have sc': "out sc' = request_bytes ''k_0'' False"
    using seg.download_request_sent [OF seg_writable d] o by simp
  obtain l2' ss' where h: "handle_chunk_request seg_ops ex_sha Big (\<lambda>_. 0) ex_callbacks ex_limiter ?ss [] = Some (l2', ss', [])"
    and ss': "out ss' = response_bytes ex_sha ''k_0'' (Some [1, 2, 3])"
    using seg.handle_request_serves [OF seg_writable p(2), of ex_callbacks "\<lambda>i m. Some (Some [1, 2, 3], m)" "[]"] o
    by (fastforce simp: ex_callbacks_def)
  have "success r \<and> dl_data r = [1, 2, 3] \<and> ([] :: string list) = []"
    by (rule download_end_to_end [OF seg.byte_stream_axioms seg_writable seg_writable o d h])
      (simp_all add: p sc' ss' ex_callbacks_def)
  then show ?thesis using d h by blast
qed

text \<open>
  C11. Upload, end to end. The uploader reports success exactly when the receiver's consumer
  accepted the chunk, and the receiver's state is the consumer's result for exactly the
  uploaded id and bytes.
\<close>

theorem upload_end_to_end:
  assumes "byte_stream ops pending sent writable" and "writable sc" and "writable ss"
    and "sent sc = []" and "sent ss = []"
    and "upload_to_peer ops sha e1 clk1 i data l1 (Some sc) = (ok, l1', Some sc')"
    and "handle_chunk_request ops sha e2 clk2 cb l2 ss m = Some (l2', ss', m')"
    and "pending ss = sent sc'" and "pending sc = sent ss'"
    and "consumer cb = Some f" and "f i data m = Some (b, m1)" and "0 < length data"
    and "length data \<le> 64 * 1024 * 1024" and "length i \<le> 256" and "\<forall>d. length (sha d) = 32"
  shows "ok = b \<and> m' = m1"
proof -
  have "pending ss = upload_bytes sha i data @ []"
    using byte_stream.upload_sent [OF assms(1,2,6)] assms(4,8) by simp
  then obtain s' where h: "handle_chunk_request ops sha e2 clk2 cb l2 ss m = Some (l2, s', m1)"
    "sent s' = ack_bytes sha i data b"
    using byte_stream.handle_upload_stores [OF assms(1,3) _ assms(14,12,13,15,10,11)] assms(5) by fastforce
  then have "pending sc = ack_bytes sha i data b @ []" using assms(7,9) by simp
  then have "fst (upload_to_peer ops sha e1 clk1 i data l1 (Some sc)) = b"
    using byte_stream.upload_answer [OF assms(1,2) _ assms(15)] by fastforce
  then show ?thesis using assms(6,7) h by simp
qed

theorem upload_end_to_end_witness:
  "\<exists>l1' sc' l2' ss'. upload_to_peer seg_ops ex_sha Little (\<lambda>_. 0) ''k_0'' [5] ex_limiter
       (Some (ex_end [ack_bytes ex_sha ''k_0'' [5] True])) = (True, l1', Some sc') \<and>
     handle_chunk_request seg_ops ex_sha Big (\<lambda>_. 0) ex_callbacks ex_limiter
       (ex_end [upload_bytes ex_sha ''k_0'' [5]]) [] = Some (l2', ss', [''k_0''])"
proof -
  let ?sc = "ex_end [ack_bytes ex_sha ''k_0'' [5] True]"
  let ?ss = "ex_end [upload_bytes ex_sha ''k_0'' [5]]"
  have p: "seg_pending ?sc = ack_bytes ex_sha ''k_0'' [5] True @ []"
    "seg_pending ?ss = upload_bytes ex_sha ''k_0'' [5] @ []" and o: "out ?sc = []" "out ?ss = []"
    by (simp_all add: ex_end_def seg_pending_def)
  obtain ok l1' sc0 where d0: "upload_to_peer seg_ops ex_sha Little (\<lambda>_. 0) ''k_0'' [5] ex_limiter (Some ?sc) = (ok, l1', sc0)"
    by (metis prod.collapse)
  then obtain sc' where d: "upload_to_peer seg_ops ex_sha Little (\<lambda>_. 0) ''k_0'' [5] ex_limiter (Some ?sc) = (ok, l1', Some sc')"
    by (auto simp: upload_to_peer_def Let_def split: if_splits prod.splits option.splits bool.splits)
  have sc': "out sc' = upload_bytes ex_sha ''k_0'' [5]" using seg.upload_sent [OF seg_writable d] o by simp
  obtain ss' where h: "handle_chunk_request seg_ops ex_sha Big (\<lambda>_. 0) ex_callbacks ex_limiter ?ss [] = Some (ex_limiter, ss', [''k_0''])"
    and ss': "out ss' = ack_bytes ex_sha ''k_0'' [5] True"
    using seg.handle_upload_stores [OF seg_writable p(2), of ex_callbacks "\<lambda>i d m. Some (True, i # m)" "[]"] o
    by (fastforce simp: ex_callbacks_def)
  have "ok = True \<and> [''k_0''] = [''k_0'']"
    by (rule upload_end_to_end [OF seg.byte_stream_axioms seg_writable seg_writable o d h])
      (simp_all add: p sc' ss' ex_callbacks_def)
  then show ?thesis using d h by blast
qed

text \<open>
  What a download may return. Whatever bytes a peer sends and however the connection
  behaves, a successful download has the digest the caller expects, when it expects one.
\<close>

lemma download_verified:
  assumes "download_from_peer ops sha hex e clk stop i resume expected l conn = (r, l', s')" and "success r"
  shows "(expected = '''' \<or> hex (sha (dl_data r)) = expected) \<and> bytes_downloaded r = length (dl_data r)"
  using assms
  by (auto simp: download_from_peer_def recv_response_def recv_payload_def check_download_def failed_download_def Let_def
      split: option.splits if_splits sum.splits prod.splits)

text \<open>
  C19. What an upload may store. On an upload message the server calls its consumer at most
  once, with bytes that have the digest of the header, between 1 byte and 64 MiB long, under
  an id of at most 256 characters; otherwise the node's state is unchanged.
\<close>

theorem upload_guarded:
  assumes "handle_chunk_request ops sha e clk cb l s m = Some (l', s', m')"
    and "fst (recv_header ops e s) = Some h" and "message_type h = message_code Upload"
  shows "m' = m \<or> (\<exists>f i data b. consumer cb = Some f \<and> f i data m = Some (b, m') \<and> sha data = hash h \<and>
     0 < length data \<and> length data \<le> 64 * 1024 * 1024 \<and> length i \<le> 256)"
proof -
  obtain s1 where r: "recv_header ops e s = (Some h, s1)" using assms(2) by (metis prod.collapse)
  have idl: "\<not> 256 < chunk_id_length h \<Longrightarrow> unat (chunk_id_length h) \<le> 256"
    by (simp add: word_less_nat_alt)
  have up: "m2 = m \<or> (\<exists>f data b. consumer cb = Some f \<and> f i data m = Some (b, m2) \<and> sha data = hash h \<and>
      0 < length data \<and> length data \<le> 64 * 1024 * 1024)"
    if "handle_upload ops sha e cb h i s2 m = Some (s3, m2)" for i s2 s3 m2
  proof -
    have "data_length h \<noteq> 0 \<and> \<not> MAX_UPLOAD_BYTES < data_length h \<Longrightarrow>
        0 < unat (data_length h) \<and> unat (data_length h) \<le> 64 * 1024 * 1024"
      by (auto simp: word_less_nat_alt MAX_UPLOAD_BYTES_def unat_gt_0)
    then show ?thesis
      using that
      by (auto simp: handle_upload_def Let_def split: if_splits option.splits prod.splits)
  qed
  have "m' = m \<or> (\<exists>i s2. length i \<le> 256 \<and> handle_upload ops sha e cb h i s2 m = Some (s', m'))"
  proof (cases "m' = m")
    case False
    let ?r = "read_exact ops (unat (chunk_id_length h)) s1"
    have "length (to_str (fst ?r)) \<le> 256 \<and> handle_upload ops sha e cb h (to_str (fst ?r)) (snd ?r) m = Some (s', m')"
      using False assms(1,3) r idl by (auto simp: handle_chunk_request_def Let_def split: if_splits)
    then show ?thesis by blast
  qed simp
  then show ?thesis using up by blast
qed

theorem upload_guarded_witness:
  "\<exists>l' s'. handle_chunk_request seg_ops ex_sha Big (\<lambda>_. 0) ex_callbacks ex_limiter
       (ex_end [upload_bytes ex_sha ''k_0'' [5]]) [] = Some (l', s', [''k_0'']) \<and>
     (\<exists>f i data b. consumer ex_callbacks = Some f \<and> f i data [] = Some (b, [''k_0'']) \<and> 0 < length data)"
proof -
  let ?ss = "ex_end [upload_bytes ex_sha ''k_0'' [5]]"
  let ?h = "make_header Upload 3 1 (ex_sha [5]) FLAG_LAST_PART"
  have p: "seg_pending ?ss = upload_bytes ex_sha ''k_0'' [5] @ []" by (simp add: ex_end_def seg_pending_def)
  obtain s' where h: "handle_chunk_request seg_ops ex_sha Big (\<lambda>_. 0) ex_callbacks ex_limiter ?ss [] = Some (ex_limiter, s', [''k_0''])"
    using seg.handle_upload_stores [OF seg_writable p, of ex_callbacks "\<lambda>i d m. Some (True, i # m)" "[]"]
    by (fastforce simp: ex_callbacks_def)
  have "seg_pending ?ss = wire_header ?h @ to_bytes ''k_0'' @ [5]" by (simp add: ex_end_def seg_pending_def upload_bytes_def)
  then have "fst (recv_header seg_ops Big ?ss) = Some ?h" by (rule seg.recv_header_wire) simp
  then show ?thesis using upload_guarded [OF h, of ?h] h by auto
qed

text \<open>
  The limiter keeps its budget: a request that is not delayed fits the remaining budget
  and is subtracted from it, and the budget never exceeds one second's worth.
\<close>

theorem acquire_budget:
  assumes "available l \<le> max_bytes_per_sec l" and "max_bytes_per_sec l \<noteq> 0" and "acquire now n l = (w, l')"
  shows "available l' \<le> max_bytes_per_sec l' \<and> max_bytes_per_sec l' = max_bytes_per_sec l \<and>
     (let budget = (if 1 \<le> (now - last_reset l) div 1000000000 then max_bytes_per_sec l else available l)
      in if n \<le> budget then w = 0 \<and> unat (available l') + unat n = unat budget else available l' = 0)"
proof -
  have sub: "n \<le> a \<Longrightarrow> unat (a - n) + unat n = unat a" for a :: u64
    by (metis le_add_diff_inverse2 unat_sub word_le_nat_alt)
  have le: "n \<le> a \<Longrightarrow> a \<le> b \<Longrightarrow> a - n \<le> b" for a b :: u64
    by (simp add: word_le_nat_alt unat_sub)
  show ?thesis
    using assms sub le by (auto simp: acquire_def Let_def split: if_splits)
qed

theorem acquire_budget_witness:
  "snd (acquire 5 3 \<lparr>max_bytes_per_sec = 10, available = 7, last_reset = 0\<rparr>) =
     \<lparr>max_bytes_per_sec = 10, available = 4, last_reset = 0\<rparr> \<and> (4 :: u64) \<le> 10"
proof -
  let ?l = "\<lparr>max_bytes_per_sec = 10, available = 7, last_reset = 0\<rparr>"
  have a: "acquire 5 3 ?l = (0, ?l\<lparr>available := 4\<rparr>)" by (simp add: acquire_def)
  show ?thesis using a acquire_budget [OF _ _ a] by simp
qed

text \<open>
  The delay is off by a factor of 1024: with no budget left, the limiter sleeps at
  least 1024 times the milliseconds that the bytes take at the configured rate.
\<close>

theorem acquire_overwaits:
  assumes "1024 \<le> max_bytes_per_sec l" and "available l = 0" and "now = last_reset l" and "0 < n"
    and "unat n * 1000 < 2 ^ 64"
  shows "1024 * ((unat n * 1000) div unat (max_bytes_per_sec l)) \<le> unat (fst (acquire now n l))"
proof -
  let ?m = "max_bytes_per_sec l"
  have m: "1024 \<le> unat ?m" using assms(1) by (simp add: word_le_nat_alt)
  have d: "unat (?m div 1024) = unat ?m div 1024" by (simp add: unat_div)
  then have mx: "max (?m div 1024) 1 = ?m div 1024"
    using m by (intro max_absorb1) (simp add: word_le_nat_alt div_le_mono [of 1024, simplified])
  have mul: "unat (n * 1000) = unat n * 1000" using assms(5) by (simp add: unat_word_ariths)
  have "?m \<noteq> 0" using m by auto
  then have "fst (acquire now n l) = (n * 1000) div (?m div 1024)"
    using assms(2-4) mx by (simp add: acquire_def Let_def)
  then have w: "unat (fst (acquire now n l)) = (unat n * 1000) div (unat ?m div 1024)"
    by (simp add: unat_div d mul)
  have "1024 * ((unat n * 1000) div unat ?m) * (unat ?m div 1024) \<le> (unat n * 1000 div unat ?m) * unat ?m"
    using mult_le_mono2 [OF times_div_less_eq_dividend [of 1024 "unat ?m"], of "unat n * 1000 div unat ?m"]
    by (simp only: ac_simps)
  also have "\<dots> \<le> unat n * 1000" by simp
  finally have "1024 * ((unat n * 1000) div unat ?m) \<le> (unat n * 1000) div (unat ?m div 1024)"
    using m by (subst less_eq_div_iff_mult_less_eq) (auto simp: div_greater_zero_iff)
  then show ?thesis using w by simp
qed

theorem acquire_overwaits_witness:
  "1024 * 1000 \<le> unat (fst (acquire 0 1048576 \<lparr>max_bytes_per_sec = 1048576, available = 0, last_reset = 0\<rparr>))"
  using acquire_overwaits [of "\<lparr>max_bytes_per_sec = 1048576, available = 0, last_reset = 0\<rparr>" 0 1048576] by simp

end
