(* ===== verification/Gossip_Wire.thy ===== *)
theory Gossip_Wire
  imports Chunk_Wire
begin

text \<open>
  Gossip messages and their binary format: \<open>PeerNode\<close> and \<open>GossipMessage\<close> of
  \<open>include/eliop2p/p2p/node_discovery.h\<close>, \<open>serialize_gossip_message\<close> and
  \<open>deserialize_gossip_message\<close> of \<open>src/p2p/node_discovery.cpp\<close>.

  Sets and maps are lists in iteration order, without duplicates. A double is kept as its
  64-bit object representation, because the format copies it unconverted. The parser copies
  integers out of the buffer without looking at what is left of it; a copy that reaches past
  the end of the data is the error \<open>OutOfBounds\<close>, undefined behaviour in the code, and is told
  apart from \<open>Malformed\<close>, the code's \<open>std::nullopt\<close>.
\<close>

section \<open>Data\<close>

record PeerNode =
  pn_node_id :: string
  pn_address :: string
  pn_port :: u16
  pn_gossip_port :: u16
  pn_last_seen :: u64
  pn_available_memory_mb :: u64
  pn_available_disk_mb :: u64
  pn_latency_ms :: u64
  pn_throughput_mbps :: u64
  pn_available_chunks :: "string list"

definition blank_peer :: PeerNode where
  "blank_peer = \<lparr>pn_node_id = '''', pn_address = '''', pn_port = 0, pn_gossip_port = 0, pn_last_seen = 0,
     pn_available_memory_mb = 0, pn_available_disk_mb = 0, pn_latency_ms = 0, pn_throughput_mbps = 0,
     pn_available_chunks = []\<rparr>"

text \<open>The parser casts any number to the enumeration; \<open>OtherType\<close> is a value outside of it.\<close>

datatype GossipMessageType = NodeJoin | NodeLeave | ChunkAnnounce | ChunkRemove | StateSync | OtherType u32

definition gossip_code :: "GossipMessageType \<Rightarrow> u32" where
  "gossip_code t =
     (case t of NodeJoin \<Rightarrow> 0 | NodeLeave \<Rightarrow> 1 | ChunkAnnounce \<Rightarrow> 2 | ChunkRemove \<Rightarrow> 3 | StateSync \<Rightarrow> 4
      | OtherType c \<Rightarrow> c)"

definition gossip_type :: "u32 \<Rightarrow> GossipMessageType" where
  "gossip_type c =
     (if c = 0 then NodeJoin else if c = 1 then NodeLeave else if c = 2 then ChunkAnnounce
      else if c = 3 then ChunkRemove else if c = 4 then StateSync else OtherType c)"

record GossipMessage =
  gm_type :: GossipMessageType
  gm_source :: string
  gm_timestamp :: u64
  gm_chunk_map :: "(string \<times> string list) list"
  gm_peer_updates :: "(string \<times> PeerNode) list"

text \<open>Insertion into and removal from a set.\<close>

definition set_add :: "'a \<Rightarrow> 'a list \<Rightarrow> 'a list" where
  "set_add x xs = (if x \<in> set xs then xs else xs @ [x])"

definition set_del :: "'a \<Rightarrow> 'a list \<Rightarrow> 'a list" where
  "set_del x xs = filter (\<lambda>y. y \<noteq> x) xs"

definition GOSSIP_PROTOCOL_VERSION :: u32 where
  "GOSSIP_PROTOCOL_VERSION = 1"

definition GOSSIP_MAGIC :: u32 where
  "GOSSIP_MAGIC = 0x47505350"

definition MAX_MESSAGE_SIZE :: nat where
  "MAX_MESSAGE_SIZE = 64 * 1024"

section \<open>Writing\<close>

definition put_u16 :: "endian \<Rightarrow> u16 \<Rightarrow> bytes" where
  "put_u16 e x = mem_bytes e 2 (hton e 2 (unat x))"

definition put_u32 :: "endian \<Rightarrow> u32 \<Rightarrow> bytes" where
  "put_u32 e x = mem_bytes e 4 (hton e 4 (unat x))"

definition put_u64 :: "endian \<Rightarrow> u64 \<Rightarrow> bytes" where
  "put_u64 e x = mem_bytes e 8 (hton e 8 (unat x))"

definition put_double :: "endian \<Rightarrow> u64 \<Rightarrow> bytes" where
  "put_double e x = mem_bytes e 8 (unat x)"

definition put_size :: "endian \<Rightarrow> 'a list \<Rightarrow> bytes" where
  "put_size e xs = put_u32 e (of_nat (length xs))"

definition put_string :: "endian \<Rightarrow> string \<Rightarrow> bytes" where
  "put_string e s = put_size e s @ to_bytes s"

definition put_strings :: "endian \<Rightarrow> string list \<Rightarrow> bytes" where
  "put_strings e xs = put_size e xs @ concat (map (put_string e) xs)"

definition put_peer :: "endian \<Rightarrow> string \<times> PeerNode \<Rightarrow> bytes" where
  "put_peer e x =
     (let p = snd x
      in put_string e (fst x) @ put_string e (pn_address p) @ put_u16 e (pn_port p) @ put_u16 e (pn_gossip_port p) @
         put_u64 e (pn_last_seen p) @ put_u64 e (pn_available_memory_mb p) @ put_u64 e (pn_available_disk_mb p) @
         put_double e (pn_latency_ms p) @ put_double e (pn_throughput_mbps p) @
         put_strings e (pn_available_chunks p))"

definition put_chunks :: "endian \<Rightarrow> string \<times> string list \<Rightarrow> bytes" where
  "put_chunks e x = put_string e (fst x) @ put_strings e (snd x)"

definition serialize_gossip_message :: "endian \<Rightarrow> GossipMessage \<Rightarrow> bytes" where
  "serialize_gossip_message e msg =
     put_u32 e GOSSIP_MAGIC @ put_u32 e GOSSIP_PROTOCOL_VERSION @ put_u32 e (gossip_code (gm_type msg)) @
     put_string e (gm_source msg) @ put_u64 e (gm_timestamp msg) @
     put_size e (gm_chunk_map msg) @ concat (map (put_chunks e) (gm_chunk_map msg)) @
     put_size e (gm_peer_updates msg) @ concat (map (put_peer e) (gm_peer_updates msg))"

section \<open>Reading\<close>

datatype parse_error = Malformed | OutOfBounds

type_synonym 'a parser = "bytes \<Rightarrow> parse_error + 'a \<times> bytes"

definition andthen :: "'e + 'a \<Rightarrow> ('a \<Rightarrow> 'e + 'b) \<Rightarrow> 'e + 'b" where
  "andthen r f = (case r of Inl x \<Rightarrow> Inl x | Inr y \<Rightarrow> f y)"

text \<open>\<open>std::memcpy\<close> of \<open>n\<close> bytes from the current offset.\<close>

definition copy_bytes :: "nat \<Rightarrow> bytes parser" where
  "copy_bytes n bs = (if n \<le> length bs then Inr (take n bs, drop n bs) else Inl OutOfBounds)"

definition get_u16 :: "endian \<Rightarrow> u16 parser" where
  "get_u16 e bs = andthen (copy_bytes 2 bs) (\<lambda>(b, r). Inr (of_nat (hton e 2 (mem_val e b)), r))"

definition get_u32 :: "endian \<Rightarrow> u32 parser" where
  "get_u32 e bs = andthen (copy_bytes 4 bs) (\<lambda>(b, r). Inr (of_nat (hton e 4 (mem_val e b)), r))"

definition get_u64 :: "endian \<Rightarrow> u64 parser" where
  "get_u64 e bs = andthen (copy_bytes 8 bs) (\<lambda>(b, r). Inr (of_nat (hton e 8 (mem_val e b)), r))"

definition get_double :: "endian \<Rightarrow> u64 parser" where
  "get_double e bs = andthen (copy_bytes 8 bs) (\<lambda>(b, r). Inr (of_nat (mem_val e b), r))"

text \<open>A length, the check that the data has that many bytes left, and the string.\<close>

definition get_string :: "endian \<Rightarrow> string parser" where
  "get_string e bs =
     andthen (get_u32 e bs)
       (\<lambda>(n, r). if length r < unat n then Inl Malformed
                 else Inr (to_str (take (unat n) r), drop (unat n) r))"

fun get_many :: "nat \<Rightarrow> 'a parser \<Rightarrow> 'a list parser" where
  "get_many 0 p bs = Inr ([], bs)"
| "get_many (Suc n) p bs =
     andthen (p bs) (\<lambda>(x, r). andthen (get_many n p r) (\<lambda>(xs, r'). Inr (x # xs, r')))"

definition get_strings :: "endian \<Rightarrow> string list parser" where
  "get_strings e bs =
     andthen (get_u32 e bs)
       (\<lambda>(n, r). andthen (get_many (unat n) (get_string e) r)
                   (\<lambda>(xs, r'). Inr (fold set_add xs [], r')))"

definition get_chunks :: "endian \<Rightarrow> (string \<times> string list) parser" where
  "get_chunks e bs =
     andthen (get_string e bs) (\<lambda>(i, r). andthen (get_strings e r) (\<lambda>(cs, r'). Inr ((i, cs), r')))"

definition get_peer :: "endian \<Rightarrow> (string \<times> PeerNode) parser" where
  "get_peer e bs =
     andthen (get_string e bs) (\<lambda>(i, r0).
     andthen (get_string e r0) (\<lambda>(addr, r1).
     andthen (get_u16 e r1) (\<lambda>(port, r2).
     andthen (get_u16 e r2) (\<lambda>(gport, r3).
     andthen (get_u64 e r3) (\<lambda>(seen, r4).
     andthen (get_u64 e r4) (\<lambda>(mem, r5).
     andthen (get_u64 e r5) (\<lambda>(dsk, r6).
     andthen (get_double e r6) (\<lambda>(lat, r7).
     andthen (get_double e r7) (\<lambda>(thr, r8).
     andthen (get_strings e r8) (\<lambda>(cs, r9).
       Inr ((i, \<lparr>pn_node_id = i, pn_address = addr, pn_port = port, pn_gossip_port = gport,
                 pn_last_seen = seen, pn_available_memory_mb = mem, pn_available_disk_mb = dsk,
                 pn_latency_ms = lat, pn_throughput_mbps = thr, pn_available_chunks = cs\<rparr>), r9)))))))))))"

definition put_all :: "('k \<times> 'v) list \<Rightarrow> ('k \<times> 'v) list" where
  "put_all xs = fold (\<lambda>x m. al_put (fst x) (snd x) m) xs []"

definition get_body :: "endian \<Rightarrow> GossipMessageType \<Rightarrow> GossipMessage parser" where
  "get_body e t bs =
     andthen (get_string e bs) (\<lambda>(src, r0).
     andthen (get_u64 e r0) (\<lambda>(ts, r1).
     andthen (get_u32 e r1) (\<lambda>(n, r2).
     andthen (get_many (unat n) (get_chunks e) r2) (\<lambda>(cm, r3).
     andthen (get_u32 e r3) (\<lambda>(k, r4).
     andthen (get_many (unat k) (get_peer e) r4) (\<lambda>(ps, r5).
       Inr (\<lparr>gm_type = t, gm_source = src, gm_timestamp = ts, gm_chunk_map = put_all cm,
             gm_peer_updates = put_all ps\<rparr>, r5)))))))"

definition deserialize_gossip_message :: "endian \<Rightarrow> bytes \<Rightarrow> parse_error + GossipMessage" where
  "deserialize_gossip_message e bs =
     (if length bs < 12 then Inl Malformed
      else andthen (get_u32 e bs) (\<lambda>(mg, r0).
           if mg \<noteq> GOSSIP_MAGIC then Inl Malformed
           else andthen (get_u32 e r0) (\<lambda>(v, r1).
                if v \<noteq> GOSSIP_PROTOCOL_VERSION then Inl Malformed
                else andthen (get_u32 e r1) (\<lambda>(t, r2).
                     andthen (get_body e (gossip_type t) r2) (\<lambda>(msg, r3). Inr msg)))))"

section \<open>Round trip\<close>

lemma andthen_simps [simp]: "andthen (Inr y) f = f y" "andthen (Inl x) f = Inl x"
  by (simp_all add: andthen_def)

lemma unat_mod_u: "unat (x :: u16) mod 65536 = unat x" "unat (y :: u32) mod 4294967296 = unat y"
  "unat (z :: u64) mod 18446744073709551616 = unat z"
  using unsigned_less [of x, where ?'a = nat] unsigned_less [of y, where ?'a = nat]
    unsigned_less [of z, where ?'a = nat] by simp_all

lemma put_u_wire:
  "put_u16 e x = be_bytes 2 (unat x)" "put_u32 e y = be_bytes 4 (unat y)" "put_u64 e z = be_bytes 8 (unat z)"
  by (simp_all add: put_u16_def put_u32_def put_u64_def mem_bytes_hton)

lemma get_put_u [simp]:
  "get_u16 e (put_u16 e' x @ r) = Inr (x, r)" "get_u32 e (put_u32 e' y @ r) = Inr (y, r)"
  "get_u64 e (put_u64 e' z @ r) = Inr (z, r)"
  by (simp_all add: get_u16_def get_u32_def get_u64_def copy_bytes_def put_u_wire hton_mem_val be_val_be_bytes unat_mod_u)

text \<open>What a host reads of a double that another host wrote.\<close>

definition swap_double :: "endian \<Rightarrow> endian \<Rightarrow> u64 \<Rightarrow> u64" where
  "swap_double e e' x = of_nat (mem_val e (mem_bytes e' 8 (unat x)))"

lemma swap_double_same [simp]: "swap_double e e x = x"
  by (simp add: swap_double_def mem_val_mem_bytes unat_mod_u)

lemma get_put_double [simp]: "get_double e (put_double e' x @ r) = Inr (swap_double e e' x, r)"
  by (simp add: get_double_def put_double_def copy_bytes_def swap_double_def)

lemma get_put_size: "length xs < 2 ^ 32 \<Longrightarrow> get_u32 e (put_size e' xs @ r) = Inr (of_nat (length xs), r) \<and>
    unat (of_nat (length xs) :: u32) = length xs"
  by (simp add: put_size_def unat_of_nat_u32)

lemma get_put_string [simp]: "length s < 2 ^ 32 \<Longrightarrow> get_string e (put_string e' s @ r) = Inr (s, r)"
  using get_put_size [of s e e' "to_bytes s @ r"] by (simp add: get_string_def put_string_def)

lemma get_many_map:
  "(\<And>x r. x \<in> set xs \<Longrightarrow> p (w x @ r) = Inr (g x, r)) \<Longrightarrow>
   get_many (length xs) p (concat (map w xs) @ r) = Inr (map g xs, r)"
  by (induction xs arbitrary: r) simp_all

lemma fold_set_add: "distinct (acc @ xs) \<Longrightarrow> fold set_add xs acc = acc @ xs"
  by (induction xs arbitrary: acc) (simp_all add: set_add_def)

lemma al_put_new: "k \<notin> set (al_keys m) \<Longrightarrow> al_put k v m = m @ [(k, v)]"
  by (induction m) auto

lemma put_all_distinct:
  assumes "al_wf xs"
  shows "put_all xs = xs"
proof -
  have "al_wf (acc @ xs) \<Longrightarrow> fold (\<lambda>x m. al_put (fst x) (snd x) m) xs acc = acc @ xs" for acc :: "('a \<times> 'b) list"
    by (induction xs arbitrary: acc) (simp_all add: al_put_new)
  from this [of "[]"] assms show ?thesis by (simp add: put_all_def)
qed

definition strings_ok :: "string list \<Rightarrow> bool" where
  "strings_ok xs \<longleftrightarrow> length xs < 2 ^ 32 \<and> distinct xs \<and> (\<forall>s\<in>set xs. length s < 2 ^ 32)"

lemma get_put_strings [simp]: "strings_ok xs \<Longrightarrow> get_strings e (put_strings e' xs @ r) = Inr (xs, r)"
  using get_put_size [of xs e e' "concat (map (put_string e') xs) @ r"]
    get_many_map [of xs "get_string e" "put_string e'" "\<lambda>x. x" r]
  by (simp add: get_strings_def put_strings_def strings_ok_def fold_set_add)

definition swap_peer :: "endian \<Rightarrow> endian \<Rightarrow> PeerNode \<Rightarrow> PeerNode" where
  "swap_peer e e' p = p\<lparr>pn_latency_ms := swap_double e e' (pn_latency_ms p),
                        pn_throughput_mbps := swap_double e e' (pn_throughput_mbps p)\<rparr>"

lemma get_put_chunks [simp]:
  "length (fst x) < 2 ^ 32 \<Longrightarrow> strings_ok (snd x) \<Longrightarrow> get_chunks e (put_chunks e' x @ r) = Inr (x, r)"
  by (simp add: get_chunks_def put_chunks_def)

definition peer_ok :: "string \<times> PeerNode \<Rightarrow> bool" where
  "peer_ok x \<longleftrightarrow> length (fst x) < 2 ^ 32 \<and> length (pn_address (snd x)) < 2 ^ 32 \<and>
     strings_ok (pn_available_chunks (snd x)) \<and> pn_node_id (snd x) = fst x"

lemma get_put_peer [simp]:
  "peer_ok x \<Longrightarrow> get_peer e (put_peer e' x @ r) = Inr ((fst x, swap_peer e e' (snd x)), r)"
  by (simp add: get_peer_def put_peer_def Let_def swap_peer_def peer_ok_def)

definition gossip_ok :: "GossipMessage \<Rightarrow> bool" where
  "gossip_ok m \<longleftrightarrow>
     length (gm_source m) < 2 ^ 32 \<and> gossip_type (gossip_code (gm_type m)) = gm_type m \<and>
     length (gm_chunk_map m) < 2 ^ 32 \<and> al_wf (gm_chunk_map m) \<and>
     (\<forall>x\<in>set (gm_chunk_map m). length (fst x) < 2 ^ 32 \<and> strings_ok (snd x)) \<and>
     length (gm_peer_updates m) < 2 ^ 32 \<and> al_wf (gm_peer_updates m) \<and> (\<forall>x\<in>set (gm_peer_updates m). peer_ok x)"

definition swap_message :: "endian \<Rightarrow> endian \<Rightarrow> GossipMessage \<Rightarrow> GossipMessage" where
  "swap_message e e' m = m\<lparr>gm_peer_updates := map (\<lambda>x. (fst x, swap_peer e e' (snd x))) (gm_peer_updates m)\<rparr>"

lemma deserialize_serialize:
  assumes "gossip_ok m"
  shows "deserialize_gossip_message e (serialize_gossip_message e' m) = Inr (swap_message e e' m)"
proof -
  let ?cm = "gm_chunk_map m" and ?ps = "gm_peer_updates m"
  have cm: "get_many (length ?cm) (get_chunks e) (concat (map (put_chunks e') ?cm) @ r) = Inr (?cm, r)" for r
    using get_many_map [of ?cm "get_chunks e" "put_chunks e'" "\<lambda>x. x" r] assms by (simp add: gossip_ok_def)
  have ps: "get_many (length ?ps) (get_peer e) (concat (map (put_peer e') ?ps) @ r) =
      Inr (map (\<lambda>x. (fst x, swap_peer e e' (snd x))) ?ps, r)" for r
    using get_many_map [of ?ps "get_peer e" "put_peer e'" _ r] assms by (simp add: gossip_ok_def)
  have wf: "put_all (map (\<lambda>x. (fst x, swap_peer e e' (snd x))) ?ps) = map (\<lambda>x. (fst x, swap_peer e e' (snd x))) ?ps"
    "put_all ?cm = ?cm"
    using assms by (simp_all add: gossip_ok_def put_all_distinct comp_def)
  have len: "\<not> length (serialize_gossip_message e' m) < 12"
    by (simp add: serialize_gossip_message_def put_u_wire)
  have sz: "get_u32 e (put_size e' ?cm @ r) = Inr (of_nat (length ?cm), r)" "unat (of_nat (length ?cm) :: u32) = length ?cm"
    "get_u32 e (put_size e' ?ps @ r) = Inr (of_nat (length ?ps), r)" "unat (of_nat (length ?ps) :: u32) = length ?ps" for r
    using assms get_put_size [of ?cm e e' r] get_put_size [of ?ps e e' r] by (simp_all add: gossip_ok_def)
  have ps0: "get_many (length ?ps) (get_peer e) (concat (map (put_peer e') ?ps)) =
      Inr (map (\<lambda>x. (fst x, swap_peer e e' (snd x))) ?ps, [])"
    using ps [of "[]"] by simp
  show ?thesis
    using assms
    by (simp add: deserialize_gossip_message_def len)
      (simp add: serialize_gossip_message_def get_body_def sz cm ps0 wf swap_message_def gossip_ok_def)
qed

lemma swap_message_same [simp]: "swap_message e e m = m"
  by (simp add: swap_message_def swap_peer_def)

end
