(* ===== verification/Location_Table.thy ===== *)
theory Location_Table
  imports Elio_Prelude
begin

text \<open>
  The contract of a chunk location table, which the control plane server (\<open>chunk_index\<close>), the
  metadata manager (\<open>peer_ids\<close> of its entries) and the gossip node (\<open>chunk_locations\<close>) keep: adding and removing one node at one chunk
  changes the locations of that chunk by that node and nothing else. What a whole report does to
  such a table is derived here once.
\<close>

locale location_table =
  fixes inv :: "'t \<Rightarrow> bool"
    and locs :: "'t \<Rightarrow> 'c \<Rightarrow> 'n set"
    and add :: "'n \<Rightarrow> 'c \<Rightarrow> 't \<Rightarrow> 't"
    and remove :: "'n \<Rightarrow> 'c \<Rightarrow> 't \<Rightarrow> 't"
  assumes inv_add: "inv t \<Longrightarrow> inv (add n c t)"
    and inv_remove: "inv t \<Longrightarrow> inv (remove n c t)"
    and locs_add: "inv t \<Longrightarrow> locs (add n c t) d = (if d = c then insert n (locs t c) else locs t d)"
    and locs_remove: "inv t \<Longrightarrow> locs (remove n c t) d = (if d = c then locs t c - {n} else locs t d)"
begin

lemma inv_fold:
  assumes "inv t"
  shows "inv (fold (add n) cs t)" and "inv (fold (remove n) cs t)"
  using assms by (induction cs arbitrary: t) (simp_all add: inv_add inv_remove)

lemma locs_fold_add:
  "inv t \<Longrightarrow> locs (fold (add n) cs t) d = locs t d \<union> (if d \<in> set cs then {n} else {})"
  by (induction cs arbitrary: t) (auto simp: inv_add locs_add split: if_splits)

lemma locs_fold_remove:
  "inv t \<Longrightarrow> locs (fold (remove n) cs t) d = locs t d - (if d \<in> set cs then {n} else {})"
  by (induction cs arbitrary: t) (auto simp: inv_remove locs_remove split: if_splits)

text \<open>Replacing what a node had by what it reports now.\<close>

lemma locs_replace:
  assumes "inv t"
  shows "m \<in> locs (fold (add n) new (fold (remove n) old t)) d \<longleftrightarrow>
    (if m = n then d \<in> set new \<or> (d \<notin> set old \<and> n \<in> locs t d) else m \<in> locs t d)"
  using assms by (auto simp: locs_fold_add locs_fold_remove inv_fold split: if_splits)

lemma replace_exact:
  assumes "inv t" and "\<And>c. n \<in> locs t c \<longleftrightarrow> c \<in> set old"
  shows "n \<in> locs (fold (add n) new (fold (remove n) old t)) d \<longleftrightarrow> d \<in> set new"
  using assms by (simp add: locs_replace)

end

end
