(* ===== verification/Node_Discovery.thy ===== *)
theory Node_Discovery
  imports Gossip_Wire Location_Table
begin

text \<open>
  The gossip node: \<open>NodeDiscovery\<close> of \<open>src/p2p/node_discovery.cpp\<close>, its peer table and chunk
  locations, the broadcasts, the message handlers, deduplication and the periodic ticks.

  The clocks are arguments: \<open>wall_ms\<close> is the system clock in milliseconds and \<open>steady\<close> the
  monotonic clock in nanoseconds. \<open>std::shuffle\<close> is the parameter \<open>shuffle\<close>. A send that the
  code spawns on the scheduler is an entry of \<open>outbox\<close>, and the calls of the two callbacks are
  the entries of \<open>nd_events\<close>. The TCP server and the loops are in \<open>Gossip_Server\<close>.
\<close>

unbundle bit_operations_syntax

section \<open>State\<close>

datatype DiscoveryMode = ControlPlane | GossipOnly | Hybrid

datatype nd_event = Discovered PeerNode | Lost string

record clocks =
  wall_ms :: u64
  steady :: int

definition wall_sec :: "clocks \<Rightarrow> u64" where
  "wall_sec c = wall_ms c div 1000"

record NodeDiscovery =
  nd_max_peers :: u32
  nd_peers :: "(string \<times> PeerNode) list"
  chunk_locations :: "(string \<times> string list) list"
  local_node_id :: string
  local_node_address :: string
  local_node_port :: u16
  nd_running :: bool
  nd_mode :: DiscoveryMode
  gossip_running :: bool
  received_messages :: "string list"
  last_cleanup :: int
  control_plane_available :: bool
  last_mode_switch :: int
  on_node_discovered :: bool
  on_node_lost :: bool
  nd_events :: "nd_event list"
  has_scheduler :: bool
  outbox :: "(PeerNode \<times> GossipMessage) list"

definition new_node_discovery :: "clocks \<Rightarrow> u32 \<Rightarrow> NodeDiscovery" where
  "new_node_discovery clk max_peers =
     \<lparr>nd_max_peers = max_peers, nd_peers = [], chunk_locations = [], local_node_id = '''',
      local_node_address = '''', local_node_port = 0, nd_running = False, nd_mode = ControlPlane,
      gossip_running = False, received_messages = [], last_cleanup = steady clk,
      control_plane_available = True, last_mode_switch = 0, on_node_discovered = False,
      on_node_lost = False, nd_events = [], has_scheduler = False, outbox = []\<rparr>"

text \<open>\<open>PeerNode::is_active\<close>: the subtraction is unsigned.\<close>

definition is_active :: "u64 \<Rightarrow> PeerNode \<Rightarrow> bool" where
  "is_active now p \<longleftrightarrow> now - pn_last_seen p < 300"

section \<open>Message identity\<close>

definition fnv_step :: "byte \<Rightarrow> u64 \<Rightarrow> u64" where
  "fnv_step b h = (h XOR ucast b) * 1099511628211"

definition fnv_mix :: "bytes \<Rightarrow> u64 \<Rightarrow> u64" where
  "fnv_mix bs h = fold fnv_step bs h"

definition hex_digit :: "nat \<Rightarrow> char" where
  "hex_digit d = (if d < 10 then char_of (48 + d) else char_of (87 + d))"

fun to_hex :: "nat \<Rightarrow> string" where
  "to_hex n = (if n < 16 then [hex_digit n] else to_hex (n div 16) @ [hex_digit (n mod 16)])"

declare to_hex.simps [simp del]

definition message_bytes :: "endian \<Rightarrow> GossipMessage \<Rightarrow> bytes" where
  "message_bytes e msg =
     mem_bytes e 4 (unat (gossip_code (gm_type msg))) @ to_bytes (gm_source msg) @
     concat (map (\<lambda>x. to_bytes (fst x) @ concat (map to_bytes (snd x))) (gm_chunk_map msg)) @
     concat (map (\<lambda>x. to_bytes (fst x)) (gm_peer_updates msg))"

definition generate_message_id :: "endian \<Rightarrow> GossipMessage \<Rightarrow> string" where
  "generate_message_id e msg =
     gm_source msg @ '':'' @ to_string (unat (gm_timestamp msg)) @ '':'' @
     to_hex (unat (fnv_mix (message_bytes e msg) 1469598103934665603))"

definition is_message_seen :: "endian \<Rightarrow> GossipMessage \<Rightarrow> NodeDiscovery \<Rightarrow> bool" where
  "is_message_seen e msg s \<longleftrightarrow> generate_message_id e msg \<in> set (received_messages s)"

definition mark_message_seen :: "endian \<Rightarrow> clocks \<Rightarrow> GossipMessage \<Rightarrow> NodeDiscovery \<Rightarrow> NodeDiscovery" where
  "mark_message_seen e clk msg s =
     (let s1 = s\<lparr>received_messages := set_add (generate_message_id e msg) (received_messages s)\<rparr>
      in if 5 \<le> (steady clk - last_cleanup s1) div 60000000000
         then s1\<lparr>received_messages := [], last_cleanup := steady clk\<rparr> else s1)"

section \<open>Peers and locations\<close>

definition erase_locations :: "string \<Rightarrow> NodeDiscovery \<Rightarrow> NodeDiscovery" where
  "erase_locations i s = s\<lparr>chunk_locations := map (\<lambda>x. (fst x, set_del i (snd x))) (chunk_locations s)\<rparr>"

definition drop_peer :: "string \<Rightarrow> NodeDiscovery \<Rightarrow> NodeDiscovery" where
  "drop_peer i s = erase_locations i (s\<lparr>nd_peers := al_del i (nd_peers s)\<rparr>)"

definition cleanup_stale_peers :: "clocks \<Rightarrow> NodeDiscovery \<Rightarrow> NodeDiscovery" where
  "cleanup_stale_peers clk s =
     fold drop_peer (map fst (filter (\<lambda>x. \<not> is_active (wall_sec clk) (snd x)) (nd_peers s))) s"

definition active_peers :: "clocks \<Rightarrow> NodeDiscovery \<Rightarrow> PeerNode list" where
  "active_peers clk s = filter (is_active (wall_sec clk)) (map snd (nd_peers s))"

definition get_all_peers :: "clocks \<Rightarrow> NodeDiscovery \<Rightarrow> PeerNode list \<times> NodeDiscovery" where
  "get_all_peers clk s = (let s1 = cleanup_stale_peers clk s in (active_peers clk s1, s1))"

definition select_gossip_targets ::
    "(PeerNode list \<Rightarrow> PeerNode list) \<Rightarrow> clocks \<Rightarrow> u32 \<Rightarrow> NodeDiscovery \<Rightarrow> PeerNode list" where
  "select_gossip_targets shuffle clk count s =
     (let ps = active_peers clk s
      in if ps = [] then [] else take (unat (min count (of_nat (length ps)))) (shuffle ps))"

definition get_peers_with_chunk :: "clocks \<Rightarrow> string \<Rightarrow> NodeDiscovery \<Rightarrow> PeerNode list" where
  "get_peers_with_chunk clk chunk s =
     (case al_get (chunk_locations s) chunk of
        None \<Rightarrow> []
      | Some locs \<Rightarrow>
          concat (map (\<lambda>i. case al_get (nd_peers s) i of
                             None \<Rightarrow> []
                           | Some p \<Rightarrow> if is_active (wall_sec clk) p then [p] else []) locs))"

definition locations_of :: "(string \<times> string list) list \<Rightarrow> string \<Rightarrow> string list" where
  "locations_of m c = (case al_get m c of None \<Rightarrow> [] | Some l \<Rightarrow> l)"

text \<open>\<open>chunk_locations[chunk].insert(node)\<close>; the map operator creates the entry.\<close>

definition add_location :: "string \<Rightarrow> string \<Rightarrow> NodeDiscovery \<Rightarrow> NodeDiscovery" where
  "add_location node chunk s =
     s\<lparr>chunk_locations := al_put chunk (set_add node (locations_of (chunk_locations s) chunk)) (chunk_locations s)\<rparr>"

text \<open>\<open>auto& peer = peers[id]\<close>, an update of the entry that the map operator finds or creates.\<close>

definition with_peer :: "string \<Rightarrow> (PeerNode \<Rightarrow> PeerNode) \<Rightarrow> NodeDiscovery \<Rightarrow> NodeDiscovery" where
  "with_peer i f s =
     s\<lparr>nd_peers := al_put i (f (case al_get (nd_peers s) i of None \<Rightarrow> blank_peer | Some p \<Rightarrow> p)) (nd_peers s)\<rparr>"

definition log_event :: "bool \<Rightarrow> nd_event \<Rightarrow> NodeDiscovery \<Rightarrow> NodeDiscovery" where
  "log_event b ev s = (if b then s\<lparr>nd_events := nd_events s @ [ev]\<rparr> else s)"

definition add_peer :: "PeerNode \<Rightarrow> NodeDiscovery \<Rightarrow> NodeDiscovery" where
  "add_peer p s =
     (let is_new = (al_get (nd_peers s) (pn_node_id p) = None)
      in log_event (is_new \<and> on_node_discovered s) (Discovered p)
           (s\<lparr>nd_peers := al_put (pn_node_id p) p (nd_peers s)\<rparr>))"

definition remove_peer :: "string \<Rightarrow> NodeDiscovery \<Rightarrow> NodeDiscovery" where
  "remove_peer i s =
     (if al_get (nd_peers s) i = None then s else log_event (on_node_lost s) (Lost i) (drop_peer i s))"

definition switch_to_gossip_only :: "clocks \<Rightarrow> NodeDiscovery \<Rightarrow> NodeDiscovery" where
  "switch_to_gossip_only clk s =
     (if nd_mode s = GossipOnly then s
      else s\<lparr>nd_mode := GossipOnly, control_plane_available := False, last_mode_switch := steady clk\<rparr>)"

section \<open>Broadcasts\<close>

text \<open>
  The common tail of the broadcasts: clean up, shuffle, and spawn a send to the first
  \<open>min(max_peers / divisor, size)\<close> peers.
\<close>

definition spawn_sends ::
    "(PeerNode list \<Rightarrow> PeerNode list) \<Rightarrow> clocks \<Rightarrow> u32 \<Rightarrow> bool \<Rightarrow> GossipMessage \<Rightarrow> NodeDiscovery \<Rightarrow> NodeDiscovery" where
  "spawn_sends shuffle clk divisor skip_self msg s =
     (case get_all_peers clk s of
        (ps, s1) \<Rightarrow>
          let count = min (nd_max_peers s1 div divisor) (of_nat (length ps));
              targets = filter (\<lambda>p. \<not> (skip_self \<and> pn_node_id p = local_node_id s1)) (take (unat count) (shuffle ps))
          in if has_scheduler s1 then s1\<lparr>outbox := outbox s1 @ map (\<lambda>p. (p, msg)) targets\<rparr> else s1)"

text \<open>\<open>junk\<close> are the two members the local variable leaves uninitialized.\<close>

definition join_message :: "clocks \<Rightarrow> u64 \<times> u64 \<Rightarrow> NodeDiscovery \<Rightarrow> GossipMessage" where
  "join_message clk junk s =
     \<lparr>gm_type = NodeJoin, gm_source = local_node_id s, gm_timestamp = wall_ms clk, gm_chunk_map = [],
      gm_peer_updates =
        [(local_node_id s,
          blank_peer\<lparr>pn_node_id := local_node_id s, pn_address := local_node_address s,
                     pn_port := local_node_port s, pn_last_seen := wall_ms clk div 1000,
                     pn_available_memory_mb := fst junk, pn_available_disk_mb := snd junk\<rparr>)]\<rparr>"

definition broadcast_node_join ::
    "(PeerNode list \<Rightarrow> PeerNode list) \<Rightarrow> clocks \<Rightarrow> u64 \<times> u64 \<Rightarrow> NodeDiscovery \<Rightarrow> NodeDiscovery" where
  "broadcast_node_join shuffle clk junk s =
     (if local_node_id s = '''' \<or> \<not> gossip_running s then s
      else spawn_sends shuffle clk 2 True (join_message clk junk s) s)"

definition leave_message :: "clocks \<Rightarrow> NodeDiscovery \<Rightarrow> GossipMessage" where
  "leave_message clk s =
     \<lparr>gm_type = NodeLeave, gm_source = local_node_id s, gm_timestamp = wall_ms clk, gm_chunk_map = [],
      gm_peer_updates = []\<rparr>"

definition broadcast_node_leave :: "(PeerNode list \<Rightarrow> PeerNode list) \<Rightarrow> clocks \<Rightarrow> NodeDiscovery \<Rightarrow> NodeDiscovery" where
  "broadcast_node_leave shuffle clk s =
     (if local_node_id s = '''' then s else spawn_sends shuffle clk 2 True (leave_message clk s) s)"

definition announce_message :: "clocks \<Rightarrow> string \<Rightarrow> NodeDiscovery \<Rightarrow> GossipMessage" where
  "announce_message clk chunk s =
     \<lparr>gm_type = ChunkAnnounce, gm_source = local_node_id s, gm_timestamp = wall_ms clk,
      gm_chunk_map = [(local_node_id s, [chunk])], gm_peer_updates = []\<rparr>"

definition broadcast_chunk_announce ::
    "(PeerNode list \<Rightarrow> PeerNode list) \<Rightarrow> clocks \<Rightarrow> string \<Rightarrow> NodeDiscovery \<Rightarrow> NodeDiscovery" where
  "broadcast_chunk_announce shuffle clk chunk s =
     (if local_node_id s = '''' \<or> \<not> gossip_running s then s
      else spawn_sends shuffle clk 3 False (announce_message clk chunk s) s)"

text \<open>The removal message does not name the chunk.\<close>

definition remove_message :: "clocks \<Rightarrow> string \<Rightarrow> NodeDiscovery \<Rightarrow> GossipMessage" where
  "remove_message clk chunk s =
     \<lparr>gm_type = ChunkRemove, gm_source = local_node_id s, gm_timestamp = wall_ms clk, gm_chunk_map = [],
      gm_peer_updates = []\<rparr>"

definition broadcast_chunk_remove ::
    "(PeerNode list \<Rightarrow> PeerNode list) \<Rightarrow> clocks \<Rightarrow> string \<Rightarrow> NodeDiscovery \<Rightarrow> NodeDiscovery" where
  "broadcast_chunk_remove shuffle clk chunk s =
     (if local_node_id s = '''' \<or> \<not> gossip_running s then s
      else spawn_sends shuffle clk 3 False (remove_message clk chunk s) s)"

definition announce_chunk ::
    "(PeerNode list \<Rightarrow> PeerNode list) \<Rightarrow> clocks \<Rightarrow> string \<Rightarrow> NodeDiscovery \<Rightarrow> NodeDiscovery" where
  "announce_chunk shuffle clk chunk s =
     (if local_node_id s = '''' then s
      else let s1 = add_location (local_node_id s) chunk s;
               s2 = with_peer (local_node_id s)
                      (\<lambda>p. p\<lparr>pn_available_chunks := set_add chunk (pn_available_chunks p)\<rparr>) s1
           in broadcast_chunk_announce shuffle clk chunk s2)"

definition update_peer :: "string \<Rightarrow> (PeerNode \<Rightarrow> PeerNode) \<Rightarrow> NodeDiscovery \<Rightarrow> NodeDiscovery" where
  "update_peer i f s = s\<lparr>nd_peers := al_adjust i f (nd_peers s)\<rparr>"

definition remove_location :: "string \<Rightarrow> string \<Rightarrow> NodeDiscovery \<Rightarrow> NodeDiscovery" where
  "remove_location node chunk s = s\<lparr>chunk_locations := al_adjust chunk (set_del node) (chunk_locations s)\<rparr>"

definition remove_chunk_announcement ::
    "(PeerNode list \<Rightarrow> PeerNode list) \<Rightarrow> clocks \<Rightarrow> string \<Rightarrow> NodeDiscovery \<Rightarrow> NodeDiscovery" where
  "remove_chunk_announcement shuffle clk chunk s =
     (let s1 = remove_location (local_node_id s) chunk s;
          s2 = update_peer (local_node_id s)
                 (\<lambda>p. p\<lparr>pn_available_chunks := set_del chunk (pn_available_chunks p)\<rparr>) s1
      in broadcast_chunk_remove shuffle clk chunk s2)"

section \<open>Life cycle\<close>

definition nd_start :: "NodeDiscovery \<Rightarrow> NodeDiscovery" where
  "nd_start s = s\<lparr>nd_running := True\<rparr>"

definition start_gossip_protocol :: "NodeDiscovery \<Rightarrow> NodeDiscovery" where
  "start_gossip_protocol s = (if gossip_running s then s else s\<lparr>gossip_running := True\<rparr>)"

definition stop_gossip_protocol :: "NodeDiscovery \<Rightarrow> NodeDiscovery" where
  "stop_gossip_protocol s = s\<lparr>gossip_running := False\<rparr>"

definition nd_stop :: "NodeDiscovery \<Rightarrow> NodeDiscovery" where
  "nd_stop s = stop_gossip_protocol (s\<lparr>nd_running := False\<rparr>)"

definition register_node ::
    "(PeerNode list \<Rightarrow> PeerNode list) \<Rightarrow> clocks \<Rightarrow> u64 \<times> u64 \<Rightarrow> PeerNode \<Rightarrow> NodeDiscovery \<Rightarrow> NodeDiscovery" where
  "register_node shuffle clk junk p s =
     (let s1 = s\<lparr>local_node_id := pn_node_id p, local_node_address := pn_address p, local_node_port := pn_port p,
                 nd_peers := al_put (pn_node_id p) (p\<lparr>pn_last_seen := wall_sec clk\<rparr>) (nd_peers s)\<rparr>
      in broadcast_node_join shuffle clk junk (start_gossip_protocol s1))"

definition unregister_node :: "(PeerNode list \<Rightarrow> PeerNode list) \<Rightarrow> clocks \<Rightarrow> NodeDiscovery \<Rightarrow> NodeDiscovery" where
  "unregister_node shuffle clk s =
     (let s1 = (if local_node_id s = '''' then s
                else (broadcast_node_leave shuffle clk s)\<lparr>local_node_id := '''', local_node_address := '''', local_node_port := 0\<rparr>)
      in stop_gossip_protocol s1)"

section \<open>Message handlers\<close>

definition handle_node_join :: "clocks \<Rightarrow> GossipMessage \<Rightarrow> NodeDiscovery \<Rightarrow> NodeDiscovery" where
  "handle_node_join clk msg s =
     fold (\<lambda>x s. if fst x = local_node_id s then s
                 else let p = (snd x)\<lparr>pn_last_seen := wall_sec clk\<rparr>
                      in log_event (al_get (nd_peers s) (fst x) = None \<and> on_node_discovered s) (Discovered p)
                           (s\<lparr>nd_peers := al_put (fst x) p (nd_peers s)\<rparr>))
       (gm_peer_updates msg) s"

definition handle_node_leave :: "GossipMessage \<Rightarrow> NodeDiscovery \<Rightarrow> NodeDiscovery" where
  "handle_node_leave msg s =
     (if al_get (nd_peers s) (gm_source msg) = None then s
      else log_event (on_node_lost s) (Lost (gm_source msg)) (drop_peer (gm_source msg) s))"

definition handle_chunk_announce :: "GossipMessage \<Rightarrow> NodeDiscovery \<Rightarrow> NodeDiscovery" where
  "handle_chunk_announce msg s =
     fold (\<lambda>x s. if fst x = local_node_id s then s
                 else update_peer (fst x)
                        (\<lambda>p. p\<lparr>pn_available_chunks := fold set_add (snd x) (pn_available_chunks p)\<rparr>)
                        (fold (add_location (fst x)) (snd x) s))
       (gm_chunk_map msg) s"

definition handle_chunk_remove :: "GossipMessage \<Rightarrow> NodeDiscovery \<Rightarrow> NodeDiscovery" where
  "handle_chunk_remove msg s =
     fold (\<lambda>x s. if fst x = local_node_id s then s
                 else update_peer (fst x)
                        (\<lambda>p. p\<lparr>pn_available_chunks := fold set_del (snd x) (pn_available_chunks p)\<rparr>)
                        (fold (remove_location (fst x)) (snd x) s))
       (gm_chunk_map msg) s"

definition sync_peers :: "GossipMessage \<Rightarrow> NodeDiscovery \<Rightarrow> NodeDiscovery" where
  "sync_peers msg s =
     fold (\<lambda>x s. if fst x = local_node_id s then s
                 else log_event (al_get (nd_peers s) (fst x) = None \<and> on_node_discovered s) (Discovered (snd x))
                        (s\<lparr>nd_peers := al_put (fst x) (snd x) (nd_peers s)\<rparr>))
       (gm_peer_updates msg) s"

definition sync_locations :: "GossipMessage \<Rightarrow> NodeDiscovery \<Rightarrow> NodeDiscovery" where
  "sync_locations msg s =
     fold (\<lambda>x s. if fst x = local_node_id s then s else fold (add_location (fst x)) (snd x) s) (gm_chunk_map msg) s"

definition handle_state_sync :: "GossipMessage \<Rightarrow> NodeDiscovery \<Rightarrow> NodeDiscovery" where
  "handle_state_sync msg s =
     (let s1 = sync_locations msg (sync_peers msg s)
      in case al_get (gm_chunk_map msg) (gm_source msg) of
           None \<Rightarrow> s1
         | Some chunks \<Rightarrow> update_peer (gm_source msg) (\<lambda>p. p\<lparr>pn_available_chunks := chunks\<rparr>) s1)"

definition dispatch_gossip :: "clocks \<Rightarrow> GossipMessage \<Rightarrow> NodeDiscovery \<Rightarrow> NodeDiscovery" where
  "dispatch_gossip clk msg s =
     (case gm_type msg of
        NodeJoin \<Rightarrow> handle_node_join clk msg s
      | NodeLeave \<Rightarrow> handle_node_leave msg s
      | ChunkAnnounce \<Rightarrow> handle_chunk_announce msg s
      | ChunkRemove \<Rightarrow> handle_chunk_remove msg s
      | StateSync \<Rightarrow> handle_state_sync msg s
      | OtherType _ \<Rightarrow> s)"

definition handle_gossip_message :: "endian \<Rightarrow> clocks \<Rightarrow> GossipMessage \<Rightarrow> NodeDiscovery \<Rightarrow> NodeDiscovery" where
  "handle_gossip_message e clk msg s =
     (if is_message_seen e msg s then s else dispatch_gossip clk msg (mark_message_seen e clk msg s))"

section \<open>State synchronisation and ticks\<close>

text \<open>The chunk map of a message is the sender's \<open>chunk_locations\<close>, which maps chunks to nodes.\<close>

definition create_gossip_message :: "clocks \<Rightarrow> GossipMessageType \<Rightarrow> NodeDiscovery \<Rightarrow> GossipMessage" where
  "create_gossip_message clk t s =
     \<lparr>gm_type = t, gm_source = local_node_id s, gm_timestamp = wall_ms clk, gm_chunk_map = chunk_locations s,
      gm_peer_updates =
        (if t = StateSync then filter (\<lambda>x. is_active (wall_sec clk) (snd x)) (nd_peers s)
         else if t = NodeJoin \<or> t = NodeLeave
         then (case al_get (nd_peers s) (local_node_id s) of None \<Rightarrow> [] | Some p \<Rightarrow> [(local_node_id s, p)])
         else [])\<rparr>"

text \<open>The result of the send (\<open>ok\<close>) is only logged.\<close>

definition gossip_with_peer :: "(PeerNode \<Rightarrow> bool) \<Rightarrow> clocks \<Rightarrow> PeerNode \<Rightarrow> NodeDiscovery \<Rightarrow> NodeDiscovery" where
  "gossip_with_peer ok clk p s =
     (if \<not> nd_running s \<or> \<not> gossip_running s \<or> pn_node_id p = local_node_id s then s
      else let msg = create_gossip_message clk StateSync s;
               s1 = (if ok p then s\<lparr>outbox := outbox s @ [(p, msg)]\<rparr> else s)
           in update_peer (pn_node_id p) (\<lambda>q. q\<lparr>pn_last_seen := wall_sec clk\<rparr>) s1)"

definition gossip_tick ::
    "(PeerNode list \<Rightarrow> PeerNode list) \<Rightarrow> (PeerNode \<Rightarrow> bool) \<Rightarrow> clocks \<Rightarrow> NodeDiscovery \<Rightarrow> NodeDiscovery" where
  "gossip_tick shuffle ok clk s =
     (if \<not> nd_running s \<or> \<not> gossip_running s then s
      else case get_all_peers clk s of
             (ps, s1) \<Rightarrow>
               let count = min (of_nat (length ps)) (nd_max_peers s1 div 2)
               in cleanup_stale_peers clk (fold (gossip_with_peer ok clk) (take (unat count) (shuffle ps)) s1))"

definition heartbeat_tick :: "clocks \<Rightarrow> NodeDiscovery \<Rightarrow> NodeDiscovery" where
  "heartbeat_tick clk s =
     (if \<not> nd_running s \<or> local_node_id s = '''' then s
      else with_peer (local_node_id s) (\<lambda>p. p\<lparr>pn_last_seen := wall_sec clk\<rparr>) s)"

text \<open>The exponential moving averages, in doubles.\<close>

definition ema :: "u64 \<Rightarrow> u64 \<Rightarrow> u64" where
  "ema old new =
     (if double_of_bits old = Fin 0 then new
      else double_bits (fp_add rnd64 (fp_mul rnd64 (rnd64 (7/10)) (double_of_bits old))
                                     (fp_mul rnd64 (rnd64 (3/10)) (double_of_bits new))))"

definition update_peer_latency :: "string \<Rightarrow> u64 \<Rightarrow> NodeDiscovery \<Rightarrow> NodeDiscovery" where
  "update_peer_latency i x s = update_peer i (\<lambda>p. p\<lparr>pn_latency_ms := ema (pn_latency_ms p) x\<rparr>) s"

definition update_peer_throughput :: "string \<Rightarrow> u64 \<Rightarrow> NodeDiscovery \<Rightarrow> NodeDiscovery" where
  "update_peer_throughput i x s = update_peer i (\<lambda>p. p\<lparr>pn_throughput_mbps := ema (pn_throughput_mbps p) x\<rparr>) s"

definition get_chunk_rarity :: "string \<Rightarrow> NodeDiscovery \<Rightarrow> u32" where
  "get_chunk_rarity chunk s =
     (case al_get (chunk_locations s) chunk of None \<Rightarrow> 0 | Some l \<Rightarrow> of_nat (length l))"

section \<open>Connections\<close>

text \<open>One write for the length and one for the message; a short write is a failure.\<close>

definition send_gossip_message_to_peer ::
    "'s stream_ops \<Rightarrow> endian \<Rightarrow> NodeDiscovery \<Rightarrow> PeerNode \<Rightarrow> GossipMessage \<Rightarrow> 's option \<Rightarrow> bool \<times> 's option" where
  "send_gossip_message_to_peer ops e s p msg conn =
     (if pn_node_id p = local_node_id s then (True, conn)
      else case conn of
             None \<Rightarrow> (False, None)
           | Some st \<Rightarrow>
               let data = serialize_gossip_message e msg;
                   w = st_write ops st (put_u32 e (of_nat (length data)))
               in if fst w \<noteq> 4 then (False, Some (snd w))
                  else let w1 = st_write ops (snd w) data
                       in if fst w1 \<noteq> length data then (False, Some (snd w1))
                          else (True, Some (st_close ops (snd w1))))"

text \<open>
  The length is taken from one read, which may deliver fewer than four bytes: the others
  are what the buffer on the stack (\<open>stale\<close>) held before.
\<close>

definition receive_gossip_message :: "'s stream_ops \<Rightarrow> endian \<Rightarrow> bytes \<Rightarrow> 's \<Rightarrow> (parse_error + GossipMessage) \<times> 's" where
  "receive_gossip_message ops e stale st =
     (let r = st_read ops st 4
      in if fst r = [] then (Inl Malformed, snd r)
         else let buf = fst r @ drop (length (fst r)) stale;
                  n = hton e 4 (mem_val e (take 4 buf))
              in if MAX_MESSAGE_SIZE < n \<or> n = 0 then (Inl Malformed, snd r)
                 else let q = read_exact ops n (snd r)
                      in if length (fst q) < n then (Inl Malformed, snd q)
                         else (deserialize_gossip_message e (fst q), snd q))"

text \<open>\<open>None\<close> is the undefined behaviour of an out-of-bounds copy.\<close>

definition handle_tcp_connection ::
    "'s stream_ops \<Rightarrow> endian \<Rightarrow> bytes \<Rightarrow> clocks \<Rightarrow> 's \<Rightarrow> NodeDiscovery \<Rightarrow> NodeDiscovery option" where
  "handle_tcp_connection ops e stale clk st s =
     (case fst (receive_gossip_message ops e stale st) of
        Inr msg \<Rightarrow> Some (handle_gossip_message e clk msg s)
      | Inl Malformed \<Rightarrow> Some s
      | Inl OutOfBounds \<Rightarrow> None)"

section \<open>The tables stay well formed\<close>

definition nd_inv :: "NodeDiscovery \<Rightarrow> bool" where
  "nd_inv s \<longleftrightarrow> al_wf (nd_peers s) \<and> al_wf (chunk_locations s) \<and> (\<forall>x\<in>set (chunk_locations s). distinct (snd x))"

text \<open>One rule per operation; \<open>inv\<close> covers the life cycle operations, which touch no table.\<close>

inductive nd_step :: "NodeDiscovery \<Rightarrow> NodeDiscovery \<Rightarrow> bool" where
  nd_gossip: "nd_step s (handle_gossip_message e clk msg s)"
| nd_announce: "nd_step s (announce_chunk sh clk c s)"
| nd_unannounce: "nd_step s (remove_chunk_announcement sh clk c s)"
| nd_add: "nd_step s (add_peer p s)"
| nd_remove: "nd_step s (remove_peer i s)"
| nd_list: "nd_step s (snd (get_all_peers clk s))"
| nd_register: "nd_step s (register_node sh clk junk p s)"
| nd_unregister: "nd_step s (unregister_node sh clk s)"
| nd_tick: "nd_step s (gossip_tick sh ok clk s)"
| nd_heartbeat: "nd_step s (heartbeat_tick clk s)"
| nd_latency: "nd_step s (update_peer_latency i x s)"
| nd_throughput: "nd_step s (update_peer_throughput i x s)"
| nd_switch: "nd_step s (switch_to_gossip_only clk s)"
| nd_starting: "nd_step s (nd_start s)"
| nd_stopping: "nd_step s (nd_stop s)"

inductive nd_reachable :: "NodeDiscovery \<Rightarrow> bool" where
  nd_init: "nd_reachable (new_node_discovery clk k)"
| nd_more: "nd_reachable s \<Longrightarrow> nd_step s t \<Longrightarrow> nd_reachable t"

lemma nd_inv_cong:
  "nd_peers s = nd_peers t \<Longrightarrow> chunk_locations s = chunk_locations t \<Longrightarrow> nd_inv s = nd_inv t"
  by (simp add: nd_inv_def)

lemma fold_keeps: "(\<And>x s. P s \<Longrightarrow> P (f x s)) \<Longrightarrow> P s \<Longrightarrow> P (fold f xs s)"
  by (induction xs arbitrary: s) simp_all

lemma distinct_set_add [simp]: "distinct xs \<Longrightarrow> distinct (set_add x xs)"
  by (simp add: set_add_def)

lemma set_set_add [simp]: "set (set_add x xs) = insert x (set xs)"
  by (auto simp: set_add_def)

lemma set_set_del [simp]: "set (set_del x xs) = set xs - {x}"
  by (auto simp: set_del_def)

lemma distinct_set_del [simp]: "distinct xs \<Longrightarrow> distinct (set_del x xs)"
  by (simp add: set_del_def)

lemma set_fold_set_add [simp]: "set (fold set_add ys xs) = set xs \<union> set ys"
  by (induction ys arbitrary: xs) auto

text \<open>The condition on the values of the location table, through the table operations.\<close>

definition locs_ok :: "(string \<times> string list) list \<Rightarrow> bool" where
  "locs_ok m \<longleftrightarrow> al_wf m \<and> (\<forall>x\<in>set m. distinct (snd x))"

lemma locs_ok_get: "locs_ok m \<Longrightarrow> al_get m c = Some l \<Longrightarrow> distinct l"
  by (auto simp: locs_ok_def dest: map_of_SomeD)

lemma locs_ok_iff: "locs_ok m \<longleftrightarrow> al_wf m \<and> (\<forall>c l. al_get m c = Some l \<longrightarrow> distinct l)"
  unfolding locs_ok_def by (metis map_of_eq_Some_iff prod.collapse snd_conv)

lemma locs_ok_put: "locs_ok m \<Longrightarrow> distinct l \<Longrightarrow> locs_ok (al_put c l m)"
  by (auto simp: locs_ok_iff al_get_put distinct_update simp del: map_of_eq_Some_iff split: if_splits)

lemma locs_ok_adjust: "locs_ok m \<Longrightarrow> (\<And>l. distinct l \<Longrightarrow> distinct (f l)) \<Longrightarrow> locs_ok (al_adjust c f m)"
proof (cases "al_get m c")
  case (Some l)
  assume "locs_ok m" and f: "\<And>l. distinct l \<Longrightarrow> distinct (f l)"
  then have "locs_ok (al_put c (f l) m)" using locs_ok_get [OF _ Some] by (simp add: locs_ok_put)
  then show ?thesis by (simp only: al_adjust_def Some option.case)
qed (simp add: al_adjust_def)

lemma locs_ok_map: "locs_ok m \<Longrightarrow> locs_ok (map (\<lambda>x. (fst x, set_del i (snd x))) m)"
  by (auto simp: locs_ok_def comp_def)

lemma nd_inv_locs: "nd_inv s \<longleftrightarrow> al_wf (nd_peers s) \<and> locs_ok (chunk_locations s)"
  by (auto simp: nd_inv_def locs_ok_def)

named_theorems nd_keeps

lemma nd_inv_log [simp]: "nd_inv (log_event b ev s) = nd_inv s"
  by (simp add: log_event_def nd_inv_def)

lemma nd_inv_drop [nd_keeps]: "nd_inv s \<Longrightarrow> nd_inv (drop_peer i s)"
  by (simp add: nd_inv_locs drop_peer_def erase_locations_def al_wf_del locs_ok_map)

lemma nd_inv_add_location [nd_keeps]: "nd_inv s \<Longrightarrow> nd_inv (add_location i c s)"
  by (auto simp: nd_inv_locs add_location_def locations_of_def intro!: locs_ok_put distinct_set_add
      dest: locs_ok_get split: option.split)

lemma nd_inv_remove_location [nd_keeps]: "nd_inv s \<Longrightarrow> nd_inv (remove_location i c s)"
  by (simp add: nd_inv_locs remove_location_def locs_ok_adjust)

lemma nd_inv_update_peer [nd_keeps]: "nd_inv s \<Longrightarrow> nd_inv (update_peer i f s)"
  by (simp add: nd_inv_locs update_peer_def al_wf_adjust)

lemma nd_inv_with_peer [nd_keeps]: "nd_inv s \<Longrightarrow> nd_inv (with_peer i f s)"
  by (simp add: nd_inv_locs with_peer_def al_wf_put)

lemma nd_inv_put_peer [nd_keeps]: "nd_inv s \<Longrightarrow> nd_inv (s\<lparr>nd_peers := al_put i p (nd_peers s)\<rparr>)"
  by (simp add: nd_inv_locs al_wf_put)

lemma nd_inv_cleanup [nd_keeps]: "nd_inv s \<Longrightarrow> nd_inv (cleanup_stale_peers clk s)"
  unfolding cleanup_stale_peers_def by (rule fold_keeps [of nd_inv]) (simp_all add: nd_keeps)

lemma nd_inv_get_all [nd_keeps]: "nd_inv s \<Longrightarrow> nd_inv (snd (get_all_peers clk s))"
  by (simp add: get_all_peers_def Let_def nd_keeps)

lemma nd_inv_spawn [nd_keeps]:
  assumes "nd_inv s"
  shows "nd_inv (spawn_sends sh clk k b msg s)"
proof -
  obtain ps s1 where g: "get_all_peers clk s = (ps, s1)" by force
  have "nd_inv s1" using nd_inv_get_all [OF assms, of clk] g by simp
  then show ?thesis using g by (simp add: spawn_sends_def Let_def nd_inv_def)
qed

lemma nd_inv_mark [nd_keeps]: "nd_inv s \<Longrightarrow> nd_inv (mark_message_seen e clk msg s)"
  by (simp add: mark_message_seen_def Let_def nd_inv_def)

lemma nd_inv_dispatch [nd_keeps]:
  assumes "nd_inv s"
  shows "nd_inv (dispatch_gossip clk msg s)"
proof -
  have f: "(\<And>x s. nd_inv s \<Longrightarrow> nd_inv (f x s)) \<Longrightarrow> nd_inv (fold f xs s)" for f :: "'x \<Rightarrow> NodeDiscovery \<Rightarrow> NodeDiscovery" and xs
    using assms by (rule fold_keeps [of nd_inv, rotated])
  have inner: "nd_inv t \<Longrightarrow> nd_inv (fold (add_location i) cs t)" "nd_inv t \<Longrightarrow> nd_inv (fold (remove_location i) cs t)" for t i cs
    by (rule fold_keeps [of nd_inv]; simp add: nd_keeps)+
  have sp: "nd_inv (sync_peers msg s)" unfolding sync_peers_def by (rule f) (simp add: nd_keeps)
  have "nd_inv (sync_locations msg t)" if "nd_inv t" for t
    unfolding sync_locations_def by (rule fold_keeps [of nd_inv]) (simp_all add: inner that)
  then have "nd_inv (handle_state_sync msg s)"
    using sp by (simp add: handle_state_sync_def Let_def nd_keeps split: option.split)
  moreover have "nd_inv (handle_node_join clk msg s)"
    unfolding handle_node_join_def by (rule f) (simp add: Let_def nd_keeps)
  moreover have "nd_inv (handle_node_leave msg s)" using assms by (simp add: handle_node_leave_def nd_keeps)
  moreover have "nd_inv (handle_chunk_announce msg s)"
    unfolding handle_chunk_announce_def by (rule f) (simp add: nd_keeps inner)
  moreover have "nd_inv (handle_chunk_remove msg s)"
    unfolding handle_chunk_remove_def by (rule f) (simp add: nd_keeps inner)
  ultimately show ?thesis using assms by (simp add: dispatch_gossip_def split: GossipMessageType.split)
qed

lemma nd_inv_broadcast [nd_keeps]:
  assumes "nd_inv s"
  shows "nd_inv (broadcast_node_join sh clk junk s)" "nd_inv (broadcast_node_leave sh clk s)"
    "nd_inv (broadcast_chunk_announce sh clk c s)" "nd_inv (broadcast_chunk_remove sh clk c s)"
  using assms
  by (simp_all add: broadcast_node_join_def broadcast_node_leave_def broadcast_chunk_announce_def
      broadcast_chunk_remove_def nd_keeps)

lemma nd_inv_fields [simp]:
  "nd_inv (s\<lparr>local_node_id := a, local_node_address := b, local_node_port := c\<rparr>) = nd_inv s"
  "nd_inv (s\<lparr>gossip_running := g\<rparr>) = nd_inv s" "nd_inv (s\<lparr>nd_running := g\<rparr>) = nd_inv s"
  "nd_inv (s\<lparr>outbox := ob\<rparr>) = nd_inv s"
  by (simp_all add: nd_inv_def)

lemma nd_inv_gossip_with_peer [nd_keeps]: "nd_inv s \<Longrightarrow> nd_inv (gossip_with_peer ok clk p s)"
  by (simp add: gossip_with_peer_def Let_def nd_keeps)

lemma nd_inv_tick [nd_keeps]:
  assumes "nd_inv s"
  shows "nd_inv (gossip_tick sh ok clk s)"
proof -
  obtain ps s1 where g: "get_all_peers clk s = (ps, s1)" by force
  have "nd_inv s1" using nd_inv_get_all [OF assms, of clk] g by simp
  then have "nd_inv (fold (gossip_with_peer ok clk) xs s1)" for xs
    by (rule fold_keeps [of nd_inv, rotated]) (simp add: nd_keeps)
  then show ?thesis using g assms by (simp add: gossip_tick_def Let_def nd_keeps)
qed

lemma nd_inv_register [nd_keeps]: "nd_inv s \<Longrightarrow> nd_inv (register_node sh clk junk p s)"
  unfolding register_node_def Let_def start_gossip_protocol_def
  by (intro nd_keeps) (simp add: nd_inv_locs al_wf_put)

lemma nd_step_inv: "nd_step s t \<Longrightarrow> nd_inv s \<Longrightarrow> nd_inv t"
proof (induction rule: nd_step.induct)
  case (nd_announce s sh clk c)
  then show ?case by (simp add: announce_chunk_def Let_def nd_keeps)
qed (simp_all add: handle_gossip_message_def remove_chunk_announcement_def add_peer_def remove_peer_def
    unregister_node_def stop_gossip_protocol_def heartbeat_tick_def update_peer_latency_def
    update_peer_throughput_def switch_to_gossip_only_def nd_start_def nd_stop_def Let_def nd_keeps,
    simp_all add: nd_inv_def)

lemma nd_reachable_inv: "nd_reachable s \<Longrightarrow> nd_inv s"
  by (induction rule: nd_reachable.induct) (auto simp: nd_inv_def new_node_discovery_def dest: nd_step_inv [unfolded nd_inv_def])

section \<open>What the handlers do to the tables\<close>

lemma al_get_map_snd: "al_get (map (\<lambda>x. (fst x, f (snd x))) m) k = map_option f (al_get m k)"
  by (induction m) auto

lemma locations_of_put: "locations_of (al_put c l m) = (locations_of m)(c := l)"
  by (auto simp: locations_of_def al_get_put fun_eq_iff)

lemma drop_peer_tables:
  "al_get (nd_peers (drop_peer i s)) = (al_get (nd_peers s))(i := None)"
  "locations_of (chunk_locations (drop_peer i s)) c = set_del i (locations_of (chunk_locations s) c)"
  "local_node_id (drop_peer i s) = local_node_id s" "received_messages (drop_peer i s) = received_messages s"
  by (auto simp: drop_peer_def erase_locations_def al_get_del locations_of_def al_get_map_snd set_del_def split: option.split)

lemma log_event_fields [simp]:
  "nd_peers (log_event b ev s) = nd_peers s" "chunk_locations (log_event b ev s) = chunk_locations s"
  "local_node_id (log_event b ev s) = local_node_id s" "received_messages (log_event b ev s) = received_messages s"
  by (simp_all add: log_event_def)

lemma mark_message_fields [simp]:
  "nd_peers (mark_message_seen e clk msg s) = nd_peers s"
  "chunk_locations (mark_message_seen e clk msg s) = chunk_locations s"
  "local_node_id (mark_message_seen e clk msg s) = local_node_id s"
  by (simp_all add: mark_message_seen_def Let_def)

lemma add_location_fields [simp]:
  "nd_peers (add_location i c s) = nd_peers s" "local_node_id (add_location i c s) = local_node_id s"
  "received_messages (add_location i c s) = received_messages s"
  by (simp_all add: add_location_def)

lemma update_peer_fields [simp]:
  "chunk_locations (update_peer i f s) = chunk_locations s" "local_node_id (update_peer i f s) = local_node_id s"
  "received_messages (update_peer i f s) = received_messages s"
  "al_get (nd_peers (update_peer i f s)) = (al_get (nd_peers s))(i := map_option f (al_get (nd_peers s) i))"
  by (simp_all add: update_peer_def al_get_adjust)

lemma locations_add [simp]:
  "locations_of (chunk_locations (add_location i c s)) =
   (locations_of (chunk_locations s))(c := set_add i (locations_of (chunk_locations s) c))"
  by (simp add: add_location_def locations_of_put)

lemma locations_fold_add:
  "c \<notin> set cs \<Longrightarrow> locations_of (chunk_locations (fold (add_location i) cs s)) c = locations_of (chunk_locations s) c"
  by (induction cs arbitrary: s) auto

lemma fold_add_fields [simp]:
  "nd_peers (fold (add_location i) cs s) = nd_peers s" "local_node_id (fold (add_location i) cs s) = local_node_id s"
  "received_messages (fold (add_location i) cs s) = received_messages s"
  by (induction cs arbitrary: s) simp_all

lemma in_get_peers_with_chunk:
  "p \<in> set (get_peers_with_chunk clk c s) \<longleftrightarrow>
   (\<exists>i\<in>set (locations_of (chunk_locations s) c). al_get (nd_peers s) i = Some p \<and> is_active (wall_sec clk) p)"
proof -
  have "p \<in> set (case al_get (nd_peers s) i of None \<Rightarrow> [] | Some p \<Rightarrow> if is_active (wall_sec clk) p then [p] else []) \<longleftrightarrow>
      al_get (nd_peers s) i = Some p \<and> is_active (wall_sec clk) p" for i
    by (cases "al_get (nd_peers s) i") auto
  then show ?thesis
    by (cases "al_get (chunk_locations s) c") (simp_all add: get_peers_with_chunk_def locations_of_def)
qed

lemma sync_peers_fields [simp]:
  "chunk_locations (sync_peers msg s) = chunk_locations s" "local_node_id (sync_peers msg s) = local_node_id s"
proof -
  have "chunk_locations (sync_peers msg s) = chunk_locations s \<and> local_node_id (sync_peers msg s) = local_node_id s"
    unfolding sync_peers_def
    by (rule fold_keeps [of "\<lambda>t. chunk_locations t = chunk_locations s \<and> local_node_id t = local_node_id s"]) auto
  then show "chunk_locations (sync_peers msg s) = chunk_locations s" "local_node_id (sync_peers msg s) = local_node_id s"
    by simp_all
qed

lemma sync_locations_other:
  assumes "\<forall>x\<in>set (gm_chunk_map msg). c \<notin> set (snd x)"
  shows "locations_of (chunk_locations (sync_locations msg s)) c = locations_of (chunk_locations s) c"
proof -
  have "\<forall>x\<in>set xs. c \<notin> set (snd x) \<Longrightarrow>
    locations_of (chunk_locations (fold (\<lambda>x s. if fst x = local_node_id s then s else fold (add_location (fst x)) (snd x) s) xs s)) c =
    locations_of (chunk_locations s) c" for xs s
    by (induction xs arbitrary: s) (simp_all add: locations_fold_add)
  then show ?thesis using assms by (simp add: sync_locations_def)
qed

text \<open>The locations that gossip keeps satisfy the contract of a location table.\<close>

lemma locations_remove [simp]:
  "set (locations_of (chunk_locations (remove_location i c s)) d) =
   (if d = c then set (locations_of (chunk_locations s) c) - {i} else set (locations_of (chunk_locations s) d))"
  by (cases "al_get (chunk_locations s) c") (auto simp: remove_location_def locations_of_def al_get_adjust)

interpretation gl: location_table nd_inv "\<lambda>s c. set (locations_of (chunk_locations s) c)" add_location remove_location
  by unfold_locales (simp_all add: nd_keeps)

text \<open>The nodes that the chunk map of a message names for a chunk, without the local one.\<close>

definition named_nodes :: "(string \<times> string list) list \<Rightarrow> string \<Rightarrow> string \<Rightarrow> string set" where
  "named_nodes m self c = {n. n \<noteq> self \<and> (\<exists>cs. (n, cs) \<in> set m \<and> c \<in> set cs)}"

lemma named_nodes_simps [simp]:
  "named_nodes [] self c = {}"
  "named_nodes (x # m) self c = (if fst x \<noteq> self \<and> c \<in> set (snd x) then insert (fst x) (named_nodes m self c) else named_nodes m self c)"
  by (cases x; auto simp: named_nodes_def)+

lemma fold_remove_fields [simp]: "local_node_id (fold (remove_location i) cs s) = local_node_id s"
  by (induction cs arbitrary: s) (simp_all add: remove_location_def)

abbreviation known_nodes :: "NodeDiscovery \<Rightarrow> string \<Rightarrow> string set" where
  "known_nodes s c \<equiv> set (locations_of (chunk_locations s) c)"

text \<open>
  A loop over a chunk map whose body acts on the locations of \<open>c\<close> by \<open>act\<close> for each entry that names \<open>c\<close> acts on
  them with all the nodes named.
\<close>

lemma fold_named:
  assumes body: "\<And>x s. nd_inv s \<Longrightarrow> nd_inv (f x s) \<and> local_node_id (f x s) = local_node_id s \<and>
      known_nodes (f x s) c = act (known_nodes s c) (if fst x \<noteq> local_node_id s \<and> c \<in> set (snd x) then {fst x} else {})"
    and act: "\<And>A B C. act (act A B) C = act A (B \<union> C)" "\<And>A. act A {} = A"
    and "nd_inv s"
  shows "known_nodes (fold f m s) c = act (known_nodes s c) (named_nodes m (local_node_id s) c)"
  using assms(4)
proof (induction m arbitrary: s)
  case (Cons x m)
  note b = body [OF Cons.prems, of x]
  have "known_nodes (fold f (x # m) s) c = act (known_nodes (f x s) c) (named_nodes m (local_node_id s) c)"
    using Cons.IH [of "f x s"] b by simp
  then show ?case using b by (simp add: act(1))
qed (simp add: act(2))

text \<open>What a message announces is added, and what it withdraws is removed; nothing else changes.\<close>

lemma announce_locations:
  assumes "nd_inv s"
  shows "known_nodes (handle_chunk_announce msg s) c = known_nodes s c \<union> named_nodes (gm_chunk_map msg) (local_node_id s) c"
  unfolding handle_chunk_announce_def
  by (rule fold_named [where act = "(\<union>)"]) (auto simp: assms gl.locs_fold_add gl.inv_fold nd_inv_update_peer)

lemma withdraw_locations:
  assumes "nd_inv s"
  shows "known_nodes (handle_chunk_remove msg s) c = known_nodes s c - named_nodes (gm_chunk_map msg) (local_node_id s) c"
  unfolding handle_chunk_remove_def
  by (rule fold_named [where act = "(-)"]) (auto simp: assms gl.locs_fold_remove gl.inv_fold nd_inv_update_peer)

lemma sync_locations_named:
  assumes "nd_inv s"
  shows "known_nodes (sync_locations msg s) c = known_nodes s c \<union> named_nodes (gm_chunk_map msg) (local_node_id s) c"
  unfolding sync_locations_def
  by (rule fold_named [where act = "(\<union>)"]) (auto simp: assms gl.locs_fold_add gl.inv_fold)

lemma nd_inv_sync_peers [nd_keeps]: "nd_inv s \<Longrightarrow> nd_inv (sync_peers msg s)"
  unfolding sync_peers_def by (rule fold_keeps [of nd_inv]) (auto simp: nd_keeps)

lemma join_locations: "chunk_locations (handle_node_join clk msg s) = chunk_locations s"
  unfolding handle_node_join_def
  by (rule fold_keeps [of "\<lambda>t. chunk_locations t = chunk_locations s"]) (simp_all add: Let_def)

section \<open>Properties\<close>

text \<open>Two nodes for the examples: \<open>n1\<close> knows \<open>n2\<close>, which has the chunk \<open>c\<close>.\<close>

definition ex_clk :: clocks where
  "ex_clk = \<lparr>wall_ms = 1000000, steady = 0\<rparr>"

definition ex_peer :: PeerNode where
  "ex_peer = blank_peer\<lparr>pn_node_id := ''n2'', pn_address := ''h'', pn_port := 9, pn_last_seen := 1000\<rparr>"

definition ex_node :: NodeDiscovery where
  "ex_node = (new_node_discovery ex_clk 8)
     \<lparr>local_node_id := ''n1'', nd_peers := [(''n2'', ex_peer)], chunk_locations := [(''c'', [''n2''])],
      nd_running := True, gossip_running := True\<rparr>"

definition ex_remote :: NodeDiscovery where
  "ex_remote = (new_node_discovery ex_clk 8)\<lparr>local_node_id := ''n2'', chunk_locations := [(''c'', [''n2''])]\<rparr>"

lemmas ex_node_defs = ex_node_def ex_remote_def ex_peer_def ex_clk_def new_node_discovery_def is_message_seen_def

text \<open>
  C22. What a gossip message does to the chunk locations: a message that is still recorded as seen changes nothing; an announcement and a state
  synchronisation add, and a removal withdraws, exactly the nodes that the message names for a chunk, except the local one; a leave
  withdraws a known sender everywhere and changes nothing for an unknown one; the other messages change no location.
\<close>

theorem gossip_locations_exact:
  assumes "nd_reachable s"
  shows "known_nodes (handle_gossip_message e clk msg s) c =
    (let L = known_nodes s c; N = named_nodes (gm_chunk_map msg) (local_node_id s) c
     in if is_message_seen e msg s then L
        else case gm_type msg of
               ChunkAnnounce \<Rightarrow> L \<union> N
             | StateSync \<Rightarrow> L \<union> N
             | ChunkRemove \<Rightarrow> L - N
             | NodeLeave \<Rightarrow> if al_get (nd_peers s) (gm_source msg) = None then L else L - {gm_source msg}
             | _ \<Rightarrow> L)"
proof -
  define t where "t = mark_message_seen e clk msg s"
  have inv: "nd_inv t" using nd_reachable_inv [OF assms] by (simp add: t_def nd_keeps)
  have t: "chunk_locations t = chunk_locations s" "local_node_id t = local_node_id s" "nd_peers t = nd_peers s"
    by (simp_all add: t_def)
  have h: "handle_gossip_message e clk msg s = (if is_message_seen e msg s then s else dispatch_gossip clk msg t)"
    by (simp add: handle_gossip_message_def t_def)
  have sync: "known_nodes (handle_state_sync msg t) c = known_nodes s c \<union> named_nodes (gm_chunk_map msg) (local_node_id s) c"
    using sync_locations_named [OF nd_inv_sync_peers [OF inv], of msg msg c] t
    by (simp add: handle_state_sync_def Let_def split: option.split)
  show ?thesis using announce_locations [OF inv, of msg c] withdraw_locations [OF inv, of msg c] sync
    by (cases "gm_type msg")
      (simp_all add: h t dispatch_gossip_def join_locations handle_node_leave_def drop_peer_tables(2) Let_def)
qed

theorem gossip_locations_exact_witness:
  "known_nodes (handle_gossip_message Little ex_clk (announce_message ex_clk ''c'' ex_remote) (new_node_discovery ex_clk 8)) ''c'' = {''n2''}"
proof -
  have "\<not> is_message_seen Little (announce_message ex_clk ''c'' ex_remote) (new_node_discovery ex_clk 8)"
    by (simp add: is_message_seen_def new_node_discovery_def)
  with gossip_locations_exact [OF nd_init, of Little ex_clk "announce_message ex_clk ''c'' ex_remote" ex_clk 8 "''c''"] show ?thesis
    by (simp add: announce_message_def ex_remote_def new_node_discovery_def locations_of_def)
qed

text \<open>
  Leaving. After a node's leave message its peer entry is gone and no chunk lists it.
\<close>

theorem node_leave_forgets:
  assumes "gm_type msg = NodeLeave" and "al_get (nd_peers s) (gm_source msg) \<noteq> None"
    and "\<not> is_message_seen e msg s"
  shows "al_get (nd_peers (handle_gossip_message e clk msg s)) (gm_source msg) = None \<and>
     gm_source msg \<notin> set (locations_of (chunk_locations (handle_gossip_message e clk msg s)) c)"
  using assms
  by (auto simp: handle_gossip_message_def dispatch_gossip_def handle_node_leave_def drop_peer_tables)

theorem node_leave_forgets_witness:
  "al_get (nd_peers (handle_gossip_message Little ex_clk (leave_message ex_clk ex_remote) ex_node)) ''n2'' = None \<and>
   ''n2'' \<notin> set (locations_of (chunk_locations (handle_gossip_message Little ex_clk (leave_message ex_clk ex_remote) ex_node)) ''c'')"
  using node_leave_forgets [of "leave_message ex_clk ex_remote" ex_node Little ex_clk "''c''"]
  by (simp add: leave_message_def ex_node_defs)

text \<open>
  C9. Announcing, end to end. When a node announces a chunk, its message, written by a host
  of any endianness and read by another that knows the announcing node as an active peer and has not
  recorded the message as seen, makes the receiver list the announcing node among
  the peers that have the chunk, at the address it knows for it.
\<close>

theorem announce_reaches_peer:
  assumes "length (local_node_id s) < 2 ^ 32" and "length c < 2 ^ 32"
    and "local_node_id r \<noteq> local_node_id s" and "al_get (nd_peers r) (local_node_id s) = Some p"
    and "is_active (wall_sec clk2) p" and "\<not> is_message_seen e2 (announce_message clk c s) r"
  shows "\<exists>msg q. deserialize_gossip_message e2 (serialize_gossip_message e1 (announce_message clk c s)) = Inr msg \<and>
     q \<in> set (get_peers_with_chunk clk2 c (handle_gossip_message e2 clk2 msg r)) \<and>
     pn_address q = pn_address p \<and> pn_port q = pn_port p \<and> c \<in> set (pn_available_chunks q)"
proof -
  let ?m = "announce_message clk c s" and ?n = "local_node_id s"
  have ok: "gossip_ok ?m"
    using assms(1,2) by (simp add: gossip_ok_def announce_message_def strings_ok_def gossip_type_def gossip_code_def)
  have sw: "swap_message e2 e1 ?m = ?m" by (simp add: swap_message_def announce_message_def)
  let ?q = "p\<lparr>pn_available_chunks := set_add c (pn_available_chunks p)\<rparr>"
  let ?r = "handle_gossip_message e2 clk2 ?m r"
  have "?r = update_peer ?n (\<lambda>p. p\<lparr>pn_available_chunks := set_add c (pn_available_chunks p)\<rparr>)
      (add_location ?n c (mark_message_seen e2 clk2 ?m r))"
    using assms(3,6)
    by (simp add: handle_gossip_message_def dispatch_gossip_def handle_chunk_announce_def announce_message_def)
  moreover have "is_active (wall_sec clk2) ?q" using assms(5) by (simp add: is_active_def)
  ultimately have "?q \<in> set (get_peers_with_chunk clk2 c ?r)"
    using assms(4) by (auto simp: in_get_peers_with_chunk)
  then show ?thesis using deserialize_serialize [OF ok, of e2 e1] sw by (intro exI [of _ ?m] exI [of _ ?q]) simp
qed

theorem announce_reaches_peer_witness:
  "\<exists>msg q. deserialize_gossip_message Big (serialize_gossip_message Little (announce_message ex_clk ''x'' ex_remote)) = Inr msg \<and>
     q \<in> set (get_peers_with_chunk ex_clk ''x'' (handle_gossip_message Big ex_clk msg ex_node)) \<and>
     pn_address q = ''h'' \<and> pn_port q = 9"
proof -
  have p: "al_get (nd_peers ex_node) (local_node_id ex_remote) = Some ex_peer" by (simp add: ex_node_defs)
  have "is_active (wall_sec ex_clk) ex_peer" by (simp add: is_active_def wall_sec_def ex_node_defs)
  then show ?thesis
    using announce_reaches_peer [OF _ _ _ p, of "''x''" ex_clk Big ex_clk Little] by (simp add: ex_node_defs) blast
qed

text \<open>
  A chunk removal is lost: the broadcast message does not carry the chunk, so every
  receiver keeps its peers and its locations as they were.
\<close>

theorem chunk_remove_ignored:
  "nd_peers (handle_gossip_message e clk2 (remove_message clk c s) r) = nd_peers r \<and>
   chunk_locations (handle_gossip_message e clk2 (remove_message clk c s) r) = chunk_locations r"
  by (simp add: handle_gossip_message_def dispatch_gossip_def handle_chunk_remove_def remove_message_def)

text \<open>
  State synchronisation teaches no chunk location: the message carries the sender's
  chunk-to-nodes map where the receiver expects node-to-chunks, so for every chunk whose id
  is not also a node id in the sender's map the receiver's locations stay as they were.
\<close>

theorem state_sync_teaches_nothing:
  assumes "\<forall>x\<in>set (chunk_locations s). c \<notin> set (snd x)"
  shows "locations_of (chunk_locations (handle_gossip_message e clk2 (create_gossip_message clk StateSync s) r)) c =
         locations_of (chunk_locations r) c"
proof -
  let ?m = "create_gossip_message clk StateSync s"
  have "locations_of (chunk_locations (sync_locations ?m t)) c = locations_of (chunk_locations t) c" for t
    using assms by (intro sync_locations_other) (simp add: create_gossip_message_def)
  moreover have "gm_type ?m = StateSync" by (simp add: create_gossip_message_def)
  ultimately show ?thesis
    by (simp add: handle_gossip_message_def dispatch_gossip_def handle_state_sync_def Let_def split: option.split)
qed

theorem state_sync_teaches_nothing_witness:
  "locations_of (chunk_locations (handle_gossip_message Little ex_clk (create_gossip_message ex_clk StateSync ex_remote)
      (new_node_discovery ex_clk 8))) ''c'' = [] \<and> locations_of (chunk_locations ex_remote) ''c'' = [''n2'']"
  using state_sync_teaches_nothing [of ex_remote "''c''" Little ex_clk ex_clk "new_node_discovery ex_clk 8"]
  by (simp add: ex_remote_def new_node_discovery_def locations_of_def)

text \<open>
  Deduplication. A message received a second time changes nothing, unless the periodic
  cleanup of the seen messages falls on its first reception.
\<close>

theorem gossip_idempotent:
  assumes "(steady clk - last_cleanup s) div 60000000000 < 5"
  shows "handle_gossip_message e clk2 msg (handle_gossip_message e clk msg s) = handle_gossip_message e clk msg s"
proof (cases "is_message_seen e msg s")
  case False
  have rm: "received_messages (fold f xs t) = received_messages t"
    if "\<And>x t. received_messages (f x t) = received_messages t" for f :: "'x \<Rightarrow> NodeDiscovery \<Rightarrow> NodeDiscovery" and xs t
    using that by (induction xs arbitrary: t) simp_all
  have rl: "received_messages (remove_location i c t) = received_messages t" for i c t
    by (simp add: remove_location_def)
  have "received_messages (dispatch_gossip clk msg t) = received_messages t" for t
    by (simp add: dispatch_gossip_def handle_node_join_def handle_node_leave_def handle_chunk_announce_def
        handle_chunk_remove_def handle_state_sync_def sync_peers_def sync_locations_def Let_def rm rl drop_peer_tables
        split: GossipMessageType.split option.split)
  then have "is_message_seen e msg (handle_gossip_message e clk msg s)"
    using False assms by (simp add: handle_gossip_message_def is_message_seen_def mark_message_seen_def Let_def)
  then show ?thesis by (simp add: handle_gossip_message_def [of e clk2])
qed (simp add: handle_gossip_message_def)

theorem gossip_idempotent_witness:
  "handle_gossip_message Big ex_clk (announce_message ex_clk ''x'' ex_remote)
     (handle_gossip_message Big ex_clk (announce_message ex_clk ''x'' ex_remote) ex_node) =
   handle_gossip_message Big ex_clk (announce_message ex_clk ''x'' ex_remote) ex_node"
  by (rule gossip_idempotent) (simp add: ex_node_defs)

text \<open>
  Distinct announcements can share an identity, since the strings are hashed without
  separators: announcing two chunks is indistinguishable from announcing one whose id is
  the concatenation, and the second message is dropped as a duplicate.
\<close>

theorem message_id_collision:
  "generate_message_id e (msg\<lparr>gm_chunk_map := [(n, [a, b])]\<rparr>) = generate_message_id e (msg\<lparr>gm_chunk_map := [(n, [a @ b])]\<rparr>)"
  by (simp add: generate_message_id_def message_bytes_def to_bytes_def)

text \<open>
  An unreachable peer stays active: the periodic exchange with a peer marks it as just
  seen even when the connection fails, so it is never cleaned up while it is being tried.
\<close>

theorem failed_gossip_refreshes:
  assumes "nd_running s" and "gossip_running s" and "pn_node_id p \<noteq> local_node_id s"
    and "al_get (nd_peers s) (pn_node_id p) = Some q"
  shows "\<exists>q'. al_get (nd_peers (gossip_with_peer (\<lambda>_. False) clk p s)) (pn_node_id p) = Some q' \<and>
     is_active (wall_sec clk) q'"
  using assms by (simp add: gossip_with_peer_def Let_def is_active_def)

theorem failed_gossip_refreshes_witness:
  "\<exists>q'. al_get (nd_peers (gossip_with_peer (\<lambda>_. False) (ex_clk\<lparr>wall_ms := 9000000\<rparr>) ex_peer ex_node)) ''n2'' = Some q' \<and>
     is_active 9000 q' \<and> \<not> is_active 9000 ex_peer"
  using failed_gossip_refreshes [of ex_node ex_peer ex_peer "ex_clk\<lparr>wall_ms := 9000000\<rparr>"]
  by (simp add: ex_node_defs wall_sec_def is_active_def)

text \<open>
  Activity is a window of five minutes into the past; a peer whose last contact lies in
  the future, by less than the wrap-around, counts as stale.
\<close>

theorem is_active_window:
  assumes "unat (pn_last_seen p) < 2 ^ 63" and "unat now < 2 ^ 63"
  shows "is_active now p \<longleftrightarrow> unat (pn_last_seen p) \<le> unat now \<and> unat now < unat (pn_last_seen p) + 300"
proof (cases "unat (pn_last_seen p) \<le> unat now")
  case True
  then have "unat (now - pn_last_seen p) = unat now - unat (pn_last_seen p)"
    by (simp add: unat_sub word_le_nat_alt)
  then show ?thesis using True by (auto simp: is_active_def word_less_nat_alt)
next
  case False
  then have "unat (now - pn_last_seen p) = 2 ^ 64 + unat now - unat (pn_last_seen p)"
    using unat_sub_if' [of now "pn_last_seen p"] by (simp add: word_le_nat_alt)
  then show ?thesis using False assms by (simp add: is_active_def word_less_nat_alt)
qed

theorem is_active_window_witness:
  "is_active 1200 ex_peer \<and> \<not> is_active 900 ex_peer \<and> \<not> is_active 1300 ex_peer"
  using is_active_window [of ex_peer 1200] is_active_window [of ex_peer 900] is_active_window [of ex_peer 1300]
  by (simp add: ex_peer_def)

text \<open>
  C23. Binary format. A message parses back to itself, on hosts of any endianness, except
  that the latency and throughput of the peer entries, which are copied as they lie in
  memory, are right only between hosts of the same endianness.
\<close>

theorem gossip_roundtrip:
  assumes "gossip_ok m"
  shows "deserialize_gossip_message e (serialize_gossip_message e' m) = Inr (swap_message e e' m) \<and> swap_message e e m = m"
  using deserialize_serialize [OF assms] by simp

theorem gossip_roundtrip_witness:
  "deserialize_gossip_message Little (serialize_gossip_message Little (create_gossip_message ex_clk StateSync ex_node)) =
   Inr (create_gossip_message ex_clk StateSync ex_node)"
proof -
  have "gossip_ok (create_gossip_message ex_clk StateSync ex_node)"
    by (simp add: gossip_ok_def create_gossip_message_def ex_node_defs gossip_type_def gossip_code_def strings_ok_def
        peer_ok_def blank_peer_def)
  then show ?thesis using gossip_roundtrip [of _ Little Little] by simp
qed

text \<open>
  The parser reads past its input: the first twelve bytes of any message, which pass
  the length check, make it copy the next length from beyond the end of the data.
\<close>

theorem deserialize_overread:
  "deserialize_gossip_message e (take 12 (serialize_gossip_message e' m)) = Inl OutOfBounds"
proof -
  have t: "take 12 (serialize_gossip_message e' m) =
      put_u32 e' GOSSIP_MAGIC @ put_u32 e' GOSSIP_PROTOCOL_VERSION @ put_u32 e' (gossip_code (gm_type m)) @ []"
    by (simp add: serialize_gossip_message_def put_u_wire)
  have "get_body e t' [] = Inl OutOfBounds" for t'
    by (simp add: get_body_def get_string_def get_u32_def copy_bytes_def)
  moreover have "length (put_u32 e' x) = 4" for x by (simp add: put_u_wire)
  ultimately show ?thesis
    unfolding t by (simp add: deserialize_gossip_message_def del: append_Nil2)
qed

text \<open>
  Delivery. Over a stream that delivers the four length bytes in one read, a message of
  at most 64 KiB is received as it was sent, and a longer one is dropped.
\<close>

theorem gossip_delivery:
  assumes "byte_stream ops pending sent writable" and "gossip_ok m"
    and "pending st = put_u32 e' (of_nat (length (serialize_gossip_message e' m))) @ serialize_gossip_message e' m"
    and "length (serialize_gossip_message e' m) < 2 ^ 32" and "st_read ops st 4 = (take 4 (pending st), st1)"
  shows "fst (receive_gossip_message ops e stale st) =
     (if length (serialize_gossip_message e' m) \<le> MAX_MESSAGE_SIZE then Inr (swap_message e e' m) else Inl Malformed)"
proof -
  let ?d = "serialize_gossip_message e' m"
  let ?b = "put_u32 e' (of_nat (length ?d))"
  have len: "length ?b = 4" by (simp add: put_u_wire)
  have "unat (of_nat (length ?d) :: u32) = length ?d" using assms(4) by (rule unat_of_nat_u32)
  moreover have "(of_nat (hton e 4 (mem_val e ?b)) :: u32) = of_nat (length ?d)"
    using get_put_u(2) [of e e' "of_nat (length ?d)" "[]"] len by (simp add: get_u32_def copy_bytes_def)
  moreover have "hton e 4 (mem_val e ?b) < 2 ^ 32" using hton_less [of e 4] by simp
  ultimately have n: "hton e 4 (mem_val e ?b) = length ?d" by (metis unat_of_nat_u32)
  have r: "st_read ops st 4 = (?b, st1)" using assms(3,5) len by simp
  have p: "pending st1 = ?d" using byte_stream.read_prefix [OF assms(1) r] assms(3) by simp
  have q: "fst (read_exact ops (length ?d) st1) = ?d"
    using byte_stream.read_exact_all [OF assms(1), of "length ?d" st1] p by simp
  have pos: "0 < length ?d" by (simp add: serialize_gossip_message_def put_u_wire)
  have "?b \<noteq> []" using len by auto
  then show ?thesis
    using r n q pos len deserialize_serialize [OF assms(2), of e e']
    by (simp add: receive_gossip_message_def Let_def)
qed

theorem gossip_delivery_witness:
  "fst (receive_gossip_message seg_ops Big [0, 0, 0, 0]
      (ex_end [put_u32 Little (of_nat (length (serialize_gossip_message Little (leave_message ex_clk ex_remote)))) @
               serialize_gossip_message Little (leave_message ex_clk ex_remote)])) = Inr (leave_message ex_clk ex_remote)"
proof -
  let ?m = "leave_message ex_clk ex_remote"
  let ?d = "serialize_gossip_message Little ?m"
  let ?st = "ex_end [put_u32 Little (of_nat (length ?d)) @ ?d]"
  have len: "length ?d = 34"
    by (simp add: serialize_gossip_message_def put_u_wire put_string_def put_size_def leave_message_def ex_remote_def)
  have ok: "gossip_ok ?m"
    by (simp add: gossip_ok_def leave_message_def ex_node_defs gossip_type_def gossip_code_def)
  have p: "seg_pending ?st = put_u32 Little (of_nat (length ?d)) @ ?d"
    by (simp add: ex_end_def seg_pending_def)
  have "put_u32 Little (of_nat (length ?d)) \<noteq> []" by (simp add: put_u_wire flip: length_0_conv)
  then obtain st1 where r: "st_read seg_ops ?st 4 = (take 4 (seg_pending ?st), st1)"
    by (simp add: seg_ops_def seg_read_def ex_end_def seg_pending_def)
  have "swap_message Big Little ?m = ?m" by (simp add: swap_message_def leave_message_def)
  then show ?thesis
    using gossip_delivery [OF seg.byte_stream_axioms ok p _ r, of Big "[0, 0, 0, 0]"]
    by (simp add: len MAX_MESSAGE_SIZE_def)
qed

end
