(* ===== verification/Transfer_Manager.thy ===== *)
theory Transfer_Manager
  imports Node_Discovery "HOL-Library.Multiset"
begin

text \<open>
  The transfer manager of \<open>src/p2p/transfer.cpp\<close>: selection of \<open>k\<close> peers, the hedged download
  of a chunk with its fallback loop, contexts of active transfers, saved progress and
  statistics. Connections to peers are those of the theory \<open>Chunk_Wire\<close>.

  \<open>download_chunk\<close> suspends while its peers race. What other coroutines may do meanwhile is given by
  the environment: \<open>te_stop i j\<close> says whether the shared stop flag was set by the \<open>j\<close>th poll of attempt
  \<open>i\<close>, \<open>te_halt i\<close> whether it was set or the manager stopped before the fallback attempt \<open>i\<close>, and
  \<open>te_meanwhile\<close> is any change of the manager between suspension and resumption: other transfers
  may start and end, count in the statistics, write files and remove contexts. Between two
  suspensions a coroutine runs without interruption, as on one worker thread. The attempts share the limiter; their results do not depend on it
  (\<open>download_from_peer_limiter\<close> below), so it is threaded through them in order.
  \<open>std::sort\<close> is not stable, so it is a parameter with its contract, the locale \<open>std_sort\<close>; so is
  \<open>std::shuffle\<close>. The progress callback is recorded by \<open>tm_reports\<close> for the final report only.
\<close>

section \<open>State\<close>

datatype TransferMode = NearestFirst | FastestFirst | RarestFirst

record TransferRequest =
  rq_chunk_id :: string
  rq_object_key :: string
  rq_offset :: u64
  rq_expected_size :: u64
  rq_mode :: TransferMode
  rq_k_value :: u32
  rq_enable_resume :: bool
  rq_sources :: "PeerNode list"
  rq_expected_sha256 :: string

record TransferProgress =
  tp_chunk_id :: string
  tp_bytes_transferred :: u64
  tp_total_bytes :: u64
  tp_current_peer :: string
  tp_active_peers :: "string list"
  tp_completed :: bool
  tp_failed :: bool
  tp_error_message :: string
  tp_progress_percent :: fp
  tp_speed_bps :: fp

definition blank_progress :: TransferProgress where
  "blank_progress =
     \<lparr>tp_chunk_id = '''', tp_bytes_transferred = 0, tp_total_bytes = 0, tp_current_peer = '''',
      tp_active_peers = [], tp_completed = False, tp_failed = False, tp_error_message = '''',
      tp_progress_percent = Fin 0, tp_speed_bps = Fin 0\<rparr>"

record ChunkTransferContext =
  ctx_chunk_id :: string
  ctx_file_path :: string
  ctx_total_size :: u64
  ctx_downloaded_size :: u64
  ctx_last_checkpoint_size :: u64
  ctx_last_checkpoint_time :: int
  ctx_is_resume :: bool
  ctx_stop_flag :: bool

definition CHUNK_SIZE :: u64 where
  "CHUNK_SIZE = 16 * 1024 * 1024"

record TransferStats =
  ts_total_downloads :: u64
  ts_total_uploads :: u64
  ts_failed_downloads :: u64
  ts_failed_uploads :: u64
  ts_total_bytes_downloaded :: u64
  ts_total_bytes_uploaded :: u64
  ts_active_transfers :: u64

record P2PConfig =
  cfg_listen_port :: u16
  cfg_gossip_port :: u16
  cfg_max_connections :: u32
  cfg_max_peers :: u32
  cfg_max_upload_speed_mbps :: u64
  cfg_max_download_speed_mbps :: u64
  cfg_selection_k :: u32
  cfg_gossip_interval_sec :: u32
  cfg_heartbeat_timeout_sec :: u32
  cfg_transport :: string
  cfg_worker_threads :: u64

record TransferManager =
  tm_config :: P2PConfig
  tm_running :: bool
  tm_stats :: TransferStats
  upload_limiter :: BandwidthLimiter
  download_limiter :: BandwidthLimiter
  active_transfers :: "(string \<times> ChunkTransferContext) list"
  saved_progress :: "(string \<times> u64) list"
  progress_dir :: string
  tm_fs :: FileSystem
  tm_scheduler :: bool
  scheduler_owned :: bool
  tcp_server_running :: bool
  tcp_listener :: bool
  tm_listen_port :: u16
  server_stopped :: bool
  tm_start_tasks :: nat
  tm_reports :: "TransferProgress list"

definition new_transfer_manager :: "int \<Rightarrow> FileSystem \<Rightarrow> P2PConfig \<Rightarrow> TransferManager" where
  "new_transfer_manager now fs cfg =
     \<lparr>tm_config = cfg, tm_running = False,
      tm_stats = \<lparr>ts_total_downloads = 0, ts_total_uploads = 0, ts_failed_downloads = 0, ts_failed_uploads = 0,
                  ts_total_bytes_downloaded = 0, ts_total_bytes_uploaded = 0, ts_active_transfers = 0\<rparr>,
      upload_limiter = new_limiter now (cfg_max_upload_speed_mbps cfg),
      download_limiter = new_limiter now (cfg_max_download_speed_mbps cfg),
      active_transfers = [], saved_progress = [], progress_dir = ''/tmp/eliop2p_progress'', tm_fs = fs,
      tm_scheduler = False, scheduler_owned = False, tcp_server_running = False, tcp_listener = False,
      tm_listen_port = 0, server_stopped = True, tm_start_tasks = 0, tm_reports = []\<rparr>"

section \<open>Contexts\<close>

definition new_context :: "int \<Rightarrow> string \<Rightarrow> string \<Rightarrow> bool \<Rightarrow> ChunkTransferContext" where
  "new_context now dir chunk_id resume =
     \<lparr>ctx_chunk_id = chunk_id, ctx_file_path = dir @ ''/'' @ chunk_id @ ''.tmp'', ctx_total_size = 0,
      ctx_downloaded_size = 0, ctx_last_checkpoint_size = 0, ctx_last_checkpoint_time = now,
      ctx_is_resume = resume, ctx_stop_flag = False\<rparr>"

definition set_context :: "string \<Rightarrow> ChunkTransferContext \<Rightarrow> TransferManager \<Rightarrow> TransferManager" where
  "set_context chunk_id ctx m = m\<lparr>active_transfers := al_put chunk_id ctx (active_transfers m)\<rparr>"

definition get_or_create_context ::
    "int \<Rightarrow> string \<Rightarrow> bool \<Rightarrow> TransferManager \<Rightarrow> ChunkTransferContext \<times> TransferManager" where
  "get_or_create_context now chunk_id resume m =
     (case al_get (active_transfers m) chunk_id of
        Some ctx \<Rightarrow> (ctx, m)
      | None \<Rightarrow> let ctx = new_context now (progress_dir m) chunk_id resume
                 in (ctx, set_context chunk_id ctx m))"

definition remove_transfer :: "string \<Rightarrow> TransferManager \<Rightarrow> TransferManager" where
  "remove_transfer chunk_id m = m\<lparr>active_transfers := al_del chunk_id (active_transfers m)\<rparr>"

definition get_transfer_context :: "string \<Rightarrow> TransferManager \<Rightarrow> ChunkTransferContext option" where
  "get_transfer_context chunk_id m = al_get (active_transfers m) chunk_id"

section \<open>Saved progress\<close>

definition progress_file :: "string \<Rightarrow> TransferManager \<Rightarrow> string" where
  "progress_file chunk_id m = progress_dir m @ ''/'' @ chunk_id @ ''.progress''"

definition save_progress :: "string \<Rightarrow> u64 \<Rightarrow> TransferManager \<Rightarrow> bool \<times> TransferManager" where
  "save_progress chunk_id n m =
     (let p = progress_file chunk_id m; fs = tm_fs m
      in if fs_write_ok fs p
         then (True, m\<lparr>tm_fs := fs\<lparr>files := al_put p (fs_store fs p (to_bytes (to_string (unat n) @ [char_of (10 :: nat)]))) (files fs)\<rparr>,
                       saved_progress := al_put chunk_id n (saved_progress m)\<rparr>)
         else (False, m))"

text \<open>
  \<open>in >> x\<close> for a 64-bit \<open>x\<close>: at the end of the input \<open>x\<close> keeps its value, without digits it
  becomes 0, and a number that does not fit becomes the largest one.
\<close>

definition extract_u64 :: "string \<Rightarrow> u64 \<Rightarrow> u64" where
  "extract_u64 s x =
     (let t = dropWhile isspace s
      in if t = [] then x
         else case strtoull t of
                Some (v, _) \<Rightarrow> v
              | None \<Rightarrow> if takeWhile isdigit (snd (split_sign t)) = [] then 0 else - 1)"

definition load_progress :: "string \<Rightarrow> u64 \<Rightarrow> TransferManager \<Rightarrow> bool \<times> u64" where
  "load_progress chunk_id x m =
     (case al_get (saved_progress m) chunk_id of
        Some n \<Rightarrow> (True, n)
      | None \<Rightarrow>
          let p = progress_file chunk_id m
          in case (if fs_read_ok (tm_fs m) p then al_get (files (tm_fs m)) p else None) of
               None \<Rightarrow> (False, x)
             | Some bs \<Rightarrow> let n = extract_u64 (to_str bs) x in (0 < n, n))"

definition has_progress :: "string \<Rightarrow> TransferManager \<Rightarrow> bool" where
  "has_progress chunk_id m = (case load_progress chunk_id 0 m of (b, n) \<Rightarrow> b \<and> 0 < n)"

section \<open>Life cycle and settings\<close>

text \<open>\<open>bind\<close> is the answer of the system to binding the listener: the port it got.\<close>

definition start_tcp_server :: "u16 option \<Rightarrow> TransferManager \<Rightarrow> TransferManager" where
  "start_tcp_server bind m =
     (if tcp_server_running m then m
      else let m1 = (if tm_scheduler m then m else m\<lparr>tm_scheduler := True, scheduler_owned := True\<rparr>)
           in case bind of
                None \<Rightarrow> m1
              | Some port \<Rightarrow> m1\<lparr>tcp_listener := True, tm_listen_port := port, tcp_server_running := True,
                                server_stopped := False\<rparr>)"

text \<open>\<open>start\<close> hands \<open>start_tcp_server\<close> to the scheduler, which runs it at some later time.\<close>

definition tm_start :: "TransferManager \<Rightarrow> bool \<times> TransferManager" where
  "tm_start m =
     (let m1 = m\<lparr>tm_running := True\<rparr>;
          m2 = (if tm_scheduler m1 then m1 else m1\<lparr>tm_scheduler := True, scheduler_owned := True\<rparr>)
      in (True, m2\<lparr>tm_start_tasks := tm_start_tasks m2 + 1\<rparr>))"

definition run_start_task :: "u16 option \<Rightarrow> TransferManager \<Rightarrow> TransferManager" where
  "run_start_task bind m =
     (if tm_start_tasks m = 0 then m else start_tcp_server bind (m\<lparr>tm_start_tasks := tm_start_tasks m - 1\<rparr>))"

text \<open>\<open>exited\<close> says whether the accept loop ended within the two seconds it is given.\<close>

definition stop_tcp_server :: "bool \<Rightarrow> TransferManager \<Rightarrow> TransferManager" where
  "stop_tcp_server exited m =
     (if \<not> tcp_server_running m then m
      else m\<lparr>tcp_server_running := False, tcp_listener := False, server_stopped := server_stopped m \<or> exited\<rparr>)"

definition tm_stop :: "bool \<Rightarrow> TransferManager \<Rightarrow> TransferManager" where
  "tm_stop exited m = (stop_tcp_server exited m)\<lparr>tm_running := False\<rparr>"

text \<open>
  One round of the accept loop, after the accept returned, failed or threw: whether the loop
  goes on, and whether a handler was spawned.
\<close>

datatype accept_result = Accepted | AcceptFailed | AcceptThrew

definition tcp_server_loop :: "accept_result \<Rightarrow> TransferManager \<Rightarrow> bool \<times> bool \<times> TransferManager" where
  "tcp_server_loop r m =
     (if tcp_server_running m then (True, r = Accepted, m)
      else (False, r = Accepted, m\<lparr>server_stopped := True\<rparr>))"

definition set_scheduler :: "bool \<Rightarrow> TransferManager \<Rightarrow> TransferManager" where
  "set_scheduler given m = m\<lparr>tm_scheduler := given, scheduler_owned := False\<rparr>"

definition set_upload_limit :: "u64 \<Rightarrow> TransferManager \<Rightarrow> TransferManager" where
  "set_upload_limit mbps m =
     m\<lparr>upload_limiter := set_limit mbps (upload_limiter m), tm_config := (tm_config m)\<lparr>cfg_max_upload_speed_mbps := mbps\<rparr>\<rparr>"

definition set_download_limit :: "u64 \<Rightarrow> TransferManager \<Rightarrow> TransferManager" where
  "set_download_limit mbps m =
     m\<lparr>download_limiter := set_limit mbps (download_limiter m), tm_config := (tm_config m)\<lparr>cfg_max_download_speed_mbps := mbps\<rparr>\<rparr>"

definition tm_get_stats :: "TransferManager \<Rightarrow> TransferStats" where
  "tm_get_stats m = (tm_stats m)\<lparr>ts_active_transfers := of_nat (length (active_transfers m))\<rparr>"

definition cancel_transfer :: "string \<Rightarrow> TransferManager \<Rightarrow> TransferManager" where
  "cancel_transfer chunk_id m =
     (case al_get (active_transfers m) chunk_id of
        None \<Rightarrow> m
      | Some ctx \<Rightarrow> snd (save_progress chunk_id (ctx_downloaded_size ctx) (set_context chunk_id (ctx\<lparr>ctx_stop_flag := True\<rparr>) m)))"

definition get_active_transfers :: "TransferManager \<Rightarrow> TransferProgress list" where
  "get_active_transfers m =
     map (\<lambda>(i, ctx). blank_progress
            \<lparr>tp_chunk_id := i, tp_bytes_transferred := ctx_downloaded_size ctx, tp_total_bytes := ctx_total_size ctx,
             tp_progress_percent :=
               (if 0 < ctx_total_size ctx
                then fp_mul rnd64 (fp_div rnd64 (double_of_u64 (ctx_downloaded_size ctx)) (double_of_u64 (ctx_total_size ctx))) (Fin 100)
                else Fin 0)\<rparr>) (active_transfers m)"

definition announce_local_chunk ::
    "(PeerNode list \<Rightarrow> PeerNode list) \<Rightarrow> clocks \<Rightarrow> string \<Rightarrow> NodeDiscovery option \<Rightarrow> NodeDiscovery option" where
  "announce_local_chunk shuffle clk chunk_id nd = map_option (announce_chunk shuffle clk chunk_id) nd"

section \<open>Selection of peers\<close>

type_synonym peer_sort = "(PeerNode \<Rightarrow> PeerNode \<Rightarrow> bool) \<Rightarrow> PeerNode list \<Rightarrow> PeerNode list"

definition closer :: "PeerNode \<Rightarrow> PeerNode \<Rightarrow> bool" where
  "closer a b = fp_gt (double_of_bits (pn_latency_ms b)) (double_of_bits (pn_latency_ms a))"

definition faster :: "PeerNode \<Rightarrow> PeerNode \<Rightarrow> bool" where
  "faster a b = fp_gt (double_of_bits (pn_throughput_mbps a)) (double_of_bits (pn_throughput_mbps b))"

definition rarity_score :: "NodeDiscovery \<Rightarrow> PeerNode \<Rightarrow> u32" where
  "rarity_score nd p = sum_list (map (\<lambda>c. get_chunk_rarity c nd) (pn_available_chunks p))"

definition rarer :: "NodeDiscovery \<Rightarrow> PeerNode \<Rightarrow> PeerNode \<Rightarrow> bool" where
  "rarer nd a b = (rarity_score nd a < rarity_score nd b)"

definition select_k_peers ::
    "peer_sort \<Rightarrow> (PeerNode list \<Rightarrow> PeerNode list) \<Rightarrow> NodeDiscovery option \<Rightarrow> PeerNode list \<Rightarrow> u32 \<Rightarrow> TransferMode \<Rightarrow>
     PeerNode list" where
  "select_k_peers srt shuffle nd candidates k mode =
     (if candidates = [] then []
      else let actual_k = unat (min k (of_nat (length candidates)))
           in case mode of
                NearestFirst \<Rightarrow> take actual_k (srt closer candidates)
              | FastestFirst \<Rightarrow> take actual_k (srt faster candidates)
              | RarestFirst \<Rightarrow>
                  (case nd of
                     Some d \<Rightarrow> take actual_k (srt (rarer d) candidates)
                   | None \<Rightarrow> take actual_k (shuffle candidates)))"

section \<open>Downloads\<close>

text \<open>
  What surrounds a download: the runtime, the host, the digest, the clock, the sorting and
  shuffling of the standard library, and for attempt \<open>i\<close> the answer of \<open>tcp_connect\<close>, the times
  of its slices and the actions of other coroutines.
\<close>

record 's transfer_env =
  te_ops :: "'s stream_ops"
  te_sha :: "bytes \<Rightarrow> bytes"
  te_hex :: "bytes \<Rightarrow> string"
  te_endian :: endian
  te_now :: int
  te_sort :: peer_sort
  te_shuffle :: "PeerNode list \<Rightarrow> PeerNode list"
  te_connect :: "nat \<Rightarrow> string \<Rightarrow> u16 \<Rightarrow> 's option"
  te_clk :: "nat \<Rightarrow> nat \<Rightarrow> int"
  te_stop :: "nat \<Rightarrow> nat \<Rightarrow> bool"
  te_halt :: "nat \<Rightarrow> bool"
  te_meanwhile :: "TransferManager \<Rightarrow> TransferManager"

definition attempt ::
    "'s transfer_env \<Rightarrow> string \<Rightarrow> ChunkTransferContext \<Rightarrow> nat \<Rightarrow> PeerNode \<Rightarrow> BandwidthLimiter \<Rightarrow>
     PeerDownloadResult \<times> BandwidthLimiter" where
  "attempt env expected ctx i peer l =
     (case download_from_peer (te_ops env) (te_sha env) (te_hex env) (te_endian env) (te_clk env i)
             (\<lambda>j. ctx_stop_flag ctx \<or> te_stop env i j) (ctx_chunk_id ctx) (ctx_is_resume ctx) expected l
             (te_connect env i (pn_address peer) (pn_port peer)) of
        (r, l1, _) \<Rightarrow> (r, l1))"

text \<open>The race: every selected peer is tried, and the results are awaited in the same order.\<close>

fun race ::
    "'s transfer_env \<Rightarrow> string \<Rightarrow> ChunkTransferContext \<Rightarrow> nat \<Rightarrow> PeerNode list \<Rightarrow> BandwidthLimiter \<Rightarrow>
     PeerDownloadResult list \<times> BandwidthLimiter" where
  "race env expected ctx i [] l = ([], l)"
| "race env expected ctx i (p # ps) l =
     (case attempt env expected ctx i p l of
        (r, l1) \<Rightarrow> (case race env expected ctx (Suc i) ps l1 of (rs, l2) \<Rightarrow> (r # rs, l2)))"

fun try_fallback ::
    "'s transfer_env \<Rightarrow> string \<Rightarrow> ChunkTransferContext \<Rightarrow> nat \<Rightarrow> PeerNode list \<Rightarrow> BandwidthLimiter \<Rightarrow>
     PeerDownloadResult option \<times> BandwidthLimiter" where
  "try_fallback env expected ctx i [] l = (None, l)"
| "try_fallback env expected ctx i (p # ps) l =
     (if ctx_stop_flag ctx \<or> te_halt env i then (None, l)
      else case attempt env expected ctx i p l of
             (r, l1) \<Rightarrow> if success r then (Some r, l1) else try_fallback env expected ctx (Suc i) ps l1)"

definition fallback_peers :: "PeerNode list \<Rightarrow> PeerNode list \<Rightarrow> PeerNode list" where
  "fallback_peers candidates tried =
     filter (\<lambda>c. \<not> (\<exists>t\<in>set tried. pn_node_id c = pn_node_id t)) candidates"

definition hedged_download ::
    "'s transfer_env \<Rightarrow> string \<Rightarrow> ChunkTransferContext \<Rightarrow> PeerNode list \<Rightarrow> PeerNode list \<Rightarrow> BandwidthLimiter \<Rightarrow>
     PeerDownloadResult option \<times> BandwidthLimiter" where
  "hedged_download env expected ctx selected candidates l =
     (case race env expected ctx 0 selected l of
        (rs, l1) \<Rightarrow>
          (case find success rs of
             Some r \<Rightarrow> (Some r, l1)
           | None \<Rightarrow> try_fallback env expected ctx (length selected) (fallback_peers candidates selected) l1))"

datatype 'a outcome = Returned 'a | Threw

definition candidate_peers :: "clocks \<Rightarrow> NodeDiscovery option \<Rightarrow> TransferRequest \<Rightarrow> PeerNode list" where
  "candidate_peers clk nd req =
     (if rq_sources req \<noteq> [] then rq_sources req
      else case nd of Some d \<Rightarrow> get_peers_with_chunk clk (rq_chunk_id req) d | None \<Rightarrow> [])"

text \<open>The context of a download: taken from the active ones or new, marked when there is progress to resume.\<close>

definition open_context ::
    "int \<Rightarrow> TransferRequest \<Rightarrow> TransferManager \<Rightarrow> ChunkTransferContext \<times> TransferManager" where
  "open_context now req m =
     (case get_or_create_context now (rq_chunk_id req) (rq_enable_resume req) m of
        (ctx, m1) \<Rightarrow>
          let ctx1 = (if rq_enable_resume req
                      then case load_progress (rq_chunk_id req) 0 m1 of
                             (found, off) \<Rightarrow> if found \<and> 0 < off then ctx\<lparr>ctx_is_resume := True, ctx_downloaded_size := off\<rparr> else ctx
                      else ctx);
              ctx2 = ctx1\<lparr>ctx_total_size := (if 0 < rq_expected_size req then rq_expected_size req else CHUNK_SIZE)\<rparr>
          in (ctx2, set_context (rq_chunk_id req) ctx2 m1))"

text \<open>A change of the context object, seen through the table while the transfer is in it.\<close>

definition update_context :: "string \<Rightarrow> ChunkTransferContext \<Rightarrow> TransferManager \<Rightarrow> TransferManager" where
  "update_context chunk_id ctx m = (if get_transfer_context chunk_id m = None then m else set_context chunk_id ctx m)"

definition bump_stats :: "(TransferStats \<Rightarrow> TransferStats) \<Rightarrow> TransferManager \<Rightarrow> TransferManager" where
  "bump_stats f m = m\<lparr>tm_stats := f (tm_stats m)\<rparr>"

definition fail_download :: "TransferManager \<Rightarrow> TransferManager" where
  "fail_download = bump_stats (\<lambda>t. t\<lparr>ts_failed_downloads := ts_failed_downloads t + 1\<rparr>)"

text \<open>
  The end of a successful download: the checkpoint, removal of the temporary file (which
  throws when the system reports an error), the final report and the statistics.
\<close>

definition finish_download ::
    "bool \<Rightarrow> TransferRequest \<Rightarrow> ChunkTransferContext \<Rightarrow> PeerNode list \<Rightarrow> bytes \<Rightarrow> TransferManager \<Rightarrow>
     bytes option outcome \<times> TransferManager" where
  "finish_download report req ctx selected data m =
     (let i = rq_chunk_id req;
          m1 = snd (save_progress i (ctx_downloaded_size ctx) (update_context i ctx m));
          fs = tm_fs m1
      in if \<not> fs_remove_ok fs (ctx_file_path ctx) then (Threw, m1)
         else let m2 = remove_transfer i (m1\<lparr>tm_fs := fs\<lparr>files := al_del (ctx_file_path ctx) (files fs)\<rparr>\<rparr>);
                  p = blank_progress\<lparr>tp_chunk_id := i, tp_total_bytes := ctx_total_size ctx,
                        tp_active_peers := map pn_node_id selected, tp_completed := True,
                        tp_bytes_transferred := ctx_downloaded_size ctx, tp_progress_percent := Fin 100\<rparr>;
                  m3 = (if report then m2\<lparr>tm_reports := tm_reports m2 @ [p]\<rparr> else m2)
              in (Returned (Some data),
                  bump_stats (\<lambda>t. t\<lparr>ts_total_bytes_downloaded := ts_total_bytes_downloaded t + size64 data\<rparr>) m3))"

definition download_chunk ::
    "'s transfer_env \<Rightarrow> clocks \<Rightarrow> NodeDiscovery option \<Rightarrow> bool \<Rightarrow> TransferRequest \<Rightarrow> TransferManager \<Rightarrow>
     bytes option outcome \<times> TransferManager" where
  "download_chunk env clk nd report req m =
     (if \<not> tm_running m then (Returned None, m)
      else case open_context (te_now env) req (bump_stats (\<lambda>t. t\<lparr>ts_total_downloads := ts_total_downloads t + 1\<rparr>) m) of
             (ctx, m1) \<Rightarrow>
               let candidates = candidate_peers clk nd req
               in if candidates = [] then (Returned None, fail_download m1)
                  else let k = (if 0 < rq_k_value req then rq_k_value req else cfg_selection_k (tm_config m1));
                           selected = select_k_peers (te_sort env) (te_shuffle env) nd candidates k (rq_mode req)
                       in case hedged_download env (rq_expected_sha256 req) ctx selected candidates (download_limiter m1) of
                            (None, l) \<Rightarrow> (Returned None, remove_transfer (rq_chunk_id req) (fail_download (te_meanwhile env (m1\<lparr>download_limiter := l\<rparr>))))
                          | (Some r, l) \<Rightarrow>
                              finish_download report req
                                (ctx\<lparr>ctx_stop_flag := True, ctx_downloaded_size := of_nat (bytes_downloaded r)\<rparr>)
                                selected (dl_data r) (te_meanwhile env (m1\<lparr>download_limiter := l\<rparr>)))"

text \<open>
  \<open>std::ofstream\<close> opens (\<open>fs_write_ok\<close>) and truncates the file; the stream is bad after the flush
  when less than all of the data reached it.
\<close>

definition download_chunk_to_file ::
    "'s transfer_env \<Rightarrow> clocks \<Rightarrow> NodeDiscovery option \<Rightarrow> bool \<Rightarrow> TransferRequest \<Rightarrow> string \<Rightarrow> TransferManager \<Rightarrow>
     bool outcome \<times> TransferManager" where
  "download_chunk_to_file env clk nd report req dest m =
     (if \<not> tm_running m then (Returned False, m)
      else case download_chunk env clk nd report req m of
             (Threw, m1) \<Rightarrow> (Threw, m1)
           | (Returned None, m1) \<Rightarrow> (Returned False, m1)
           | (Returned (Some data), m1) \<Rightarrow>
               let fs = tm_fs m1
               in if \<not> fs_write_ok fs dest then (Returned False, m1)
                  else (Returned (fs_store fs dest data = data),
                        m1\<lparr>tm_fs := fs\<lparr>files := al_put dest (fs_store fs dest data) (files fs)\<rparr>\<rparr>))"

definition upload_chunk ::
    "'s transfer_env \<Rightarrow> string \<Rightarrow> bytes \<Rightarrow> PeerNode \<Rightarrow> TransferManager \<Rightarrow> bool \<times> TransferManager" where
  "upload_chunk env chunk_id data peer m =
     (if \<not> tm_running m then (False, m)
      else let m1 = bump_stats (\<lambda>t. t\<lparr>ts_total_uploads := ts_total_uploads t + 1\<rparr>) m
           in case upload_to_peer (te_ops env) (te_sha env) (te_endian env) (te_clk env 0) chunk_id data (upload_limiter m1)
                     (te_connect env 0 (pn_address peer) (pn_port peer)) of
                (ok, l, _) \<Rightarrow>
                  (ok, bump_stats (\<lambda>t. if ok then t\<lparr>ts_total_bytes_uploaded := ts_total_bytes_uploaded t + size64 data\<rparr>
                                       else t\<lparr>ts_failed_uploads := ts_failed_uploads t + 1\<rparr>)
                         (te_meanwhile env (m1\<lparr>upload_limiter := l\<rparr>))))"


section \<open>The contract of the library sort\<close>

definition strict_weak :: "('a \<Rightarrow> 'a \<Rightarrow> bool) \<Rightarrow> 'a set \<Rightarrow> bool" where
  "strict_weak lt A \<longleftrightarrow>
     (\<forall>x\<in>A. \<not> lt x x) \<and> (\<forall>x\<in>A. \<forall>y\<in>A. \<forall>z\<in>A. lt x y \<longrightarrow> lt y z \<longrightarrow> lt x z) \<and>
     (\<forall>x\<in>A. \<forall>y\<in>A. \<forall>z\<in>A. lt x z \<longrightarrow> lt x y \<or> lt y z)"

lemma strict_weak_not_trans:
  "strict_weak lt A \<Longrightarrow> x \<in> A \<Longrightarrow> y \<in> A \<Longrightarrow> z \<in> A \<Longrightarrow> \<not> lt y x \<Longrightarrow> \<not> lt z y \<Longrightarrow> \<not> lt z x"
  unfolding strict_weak_def by blast

lemma strict_weak_key:
  assumes "\<And>a b. lt a b = fp_gt (f b) (f a)" and "\<forall>x\<in>A. f x \<noteq> NaN"
  shows "strict_weak lt A"
  unfolding strict_weak_def assms(1)
proof (intro conjI ballI impI)
  fix x y z
  assume A: "x \<in> A" "y \<in> A" "z \<in> A"
  show "fp_gt (f z) (f x)" if "fp_gt (f y) (f x)" "fp_gt (f z) (f y)"
    using that(2,1) by (rule fp_gt_trans)
  show "fp_gt (f y) (f x) \<or> fp_gt (f z) (f y)" if "fp_gt (f z) (f x)"
    using fp_gt_total [of "f y" "f x"] fp_gt_trans [of "f z" "f x" "f y"] that A assms(2) by auto
qed simp

text \<open>
  \<open>std::sort\<close>: for a comparison that is a strict weak ordering of the elements the result is
  an ordered permutation; nothing is said of the order of equivalent elements, nor of other
  comparisons.
\<close>

locale std_sort =
  fixes srt :: peer_sort
  assumes sort_perm: "strict_weak lt (set xs) \<Longrightarrow> mset (srt lt xs) = mset xs"
    and sort_ordered: "strict_weak lt (set xs) \<Longrightarrow> sorted_wrt (\<lambda>a b. \<not> lt b a) (srt lt xs)"
begin

lemma sort_length: "strict_weak lt (set xs) \<Longrightarrow> length (srt lt xs) = length xs"
  using sort_perm [of lt xs] by (metis size_mset)

lemma sort_set: "strict_weak lt (set xs) \<Longrightarrow> set (srt lt xs) = set xs"
  using sort_perm [of lt xs] by (metis set_mset_mset)

text \<open>The first \<open>k\<close> are the best \<open>k\<close>.\<close>

lemma take_best:
  fixes k :: nat
  assumes "strict_weak lt (set xs)"
  defines "sel \<equiv> take k (srt lt xs)"
  shows "length sel = min k (length xs) \<and> mset sel \<subseteq># mset xs \<and>
    (\<forall>a\<in>set sel. \<forall>b\<in>#mset xs - mset sel. \<not> lt b a)"
proof -
  let ?s = "srt lt xs"
  have m: "mset xs = mset sel + mset (drop k ?s)"
    using sort_perm [OF assms(1)] by (metis sel_def append_take_drop_id mset_append)
  have "sorted_wrt (\<lambda>a b. \<not> lt b a) (take k ?s @ drop k ?s)"
    using sort_ordered [OF assms(1)] by simp
  then have "\<forall>a\<in>set sel. \<forall>b\<in>set (drop k ?s). \<not> lt b a"
    unfolding sel_def sorted_wrt_append by blast
  then show ?thesis using m sort_length [OF assms(1)] by (simp add: sel_def)
qed

end

text \<open>An instance: sorting by insertion.\<close>

fun insert_peer :: "(PeerNode \<Rightarrow> PeerNode \<Rightarrow> bool) \<Rightarrow> PeerNode \<Rightarrow> PeerNode list \<Rightarrow> PeerNode list" where
  "insert_peer lt x [] = [x]"
| "insert_peer lt x (y # ys) = (if lt y x then y # insert_peer lt x ys else x # y # ys)"

definition insertion_sort :: peer_sort where
  "insertion_sort lt xs = foldr (insert_peer lt) xs []"

lemma mset_insert_peer [simp]: "mset (insert_peer lt x ys) = add_mset x (mset ys)"
  by (induction ys) auto

lemma set_insert_peer [simp]: "set (insert_peer lt x ys) = insert x (set ys)"
  by (induction ys) auto

lemma mset_insertion_sort [simp]: "mset (insertion_sort lt xs) = mset xs"
  by (induction xs) (auto simp: insertion_sort_def)

lemma insertion_sort_Cons: "insertion_sort lt (x # xs) = insert_peer lt x (insertion_sort lt xs)"
  by (simp add: insertion_sort_def)

lemma sorted_insert_peer:
  assumes "strict_weak lt A" and "insert x (set ys) \<subseteq> A" and "sorted_wrt (\<lambda>a b. \<not> lt b a) ys"
  shows "sorted_wrt (\<lambda>a b. \<not> lt b a) (insert_peer lt x ys)"
  using assms
proof (induction ys)
  case (Cons y ys)
  have A: "x \<in> A" "y \<in> A" and ysA: "insert x (set ys) \<subseteq> A" using Cons.prems(2) by simp_all
  have y: "\<forall>b\<in>set ys. \<not> lt b y" and ys: "sorted_wrt (\<lambda>a b. \<not> lt b a) ys" using Cons.prems(3) by simp_all
  show ?case
  proof (cases "lt y x")
    case True
    then have "\<not> lt x y" using Cons.prems(1) A unfolding strict_weak_def by blast
    then show ?thesis using True y Cons.IH [OF Cons.prems(1) ysA ys] by simp
  next
    case False
    have "\<not> lt b x" if "b \<in> set ys" for b
      by (rule strict_weak_not_trans [OF Cons.prems(1) A]) (use that ysA False y in auto)
    then show ?thesis using False y ys by simp
  qed
qed simp

lemma set_insertion_sort [simp]: "set (insertion_sort lt xs) = set xs"
  using mset_insertion_sort [of lt xs] by (metis set_mset_mset)

interpretation ins: std_sort insertion_sort
proof (unfold_locales, goal_cases)
  case (1 lt xs)
  then show ?case by simp
next
  case (2 lt xs)
  have "sorted_wrt (\<lambda>a b. \<not> lt b a) (insertion_sort lt ys)" if "set ys \<subseteq> set xs" for ys
    using that
  proof (induction ys)
    case (Cons y ys)
    then show ?case using sorted_insert_peer [OF 2, of y "insertion_sort lt ys"] by (simp add: insertion_sort_Cons)
  qed (simp add: insertion_sort_def)
  then show ?case by simp
qed

section \<open>Lemmas on the operations\<close>

text \<open>What an attempt returns does not depend on the limiter it shares with the others.\<close>

lemma recv_slices_limiter:
  "fst (recv_slices ops stop clk j tot acc l s) = fst (recv_slices ops stop clk j tot acc l' s)"
proof (induction "tot - length acc" arbitrary: acc j l l' s rule: less_induct)
  case less
  let ?r = "read_exact ops (min SLICE (tot - length acc)) s"
  show ?case
  proof (cases "tot \<le> length acc \<or> stop j \<or> fst ?r = []")
    case True
    then show ?thesis by (subst (1 2) recv_slices.simps) (auto simp: Let_def)
  next
    case False
    then have "0 < length (fst ?r)" and "length acc < tot" by auto
    then have "tot - length (acc @ fst ?r) < tot - length acc" unfolding length_append by linarith
    from less.hyps [OF this] False show ?thesis by (subst (1 2) recv_slices.simps) (simp add: Let_def)
  qed
qed

lemma download_from_peer_limiter:
  "fst (download_from_peer ops sha hex e clk stop i resume expected l conn) =
   fst (download_from_peer ops sha hex e clk stop i resume expected l' conn)"
  using recv_slices_limiter [of ops stop clk 0 _ "[]" l _ l']
  by (simp add: download_from_peer_def recv_response_def recv_payload_def Let_def case_prod_unfold split: option.split)


lemma attempt_limiter: "fst (attempt env x ctx i p l) = fst (attempt env x ctx i p l')"
  unfolding attempt_def case_prod_unfold by (simp add: download_from_peer_limiter [where l = l and l' = l'])

lemma attempt_checked:
  assumes "r = fst (attempt env x ctx i p l)" and "success r"
  shows "(x = '''' \<or> te_hex env (te_sha env (dl_data r)) = x) \<and> bytes_downloaded r = length (dl_data r)"
proof -
  obtain q l' s where d: "download_from_peer (te_ops env) (te_sha env) (te_hex env) (te_endian env) (te_clk env i)
             (\<lambda>j. ctx_stop_flag ctx \<or> te_stop env i j) (ctx_chunk_id ctx) (ctx_is_resume ctx) x l
             (te_connect env i (pn_address p) (pn_port p)) = (q, l', s)"
    by (rule prod_cases3)
  then have "r = q" using assms(1) by (simp add: attempt_def)
  with download_verified [OF d] assms(2) show ?thesis by simp
qed

text \<open>An attempt that finds the stop flag set ends without data, unless the peer announced none.\<close>

lemma recv_payload_stopped:
  assumes "stop 0" and "success (fst (recv_payload ops sha hex clk stop x h l s))"
  shows "dl_data (fst (recv_payload ops sha hex clk stop x h l s)) = []"
proof -
  have stopped: "fst (recv_slices ops stop clk 0 tot [] l s) = Inr d \<Longrightarrow> d = []" for tot s d
    using assms(1) by (subst (asm) recv_slices.simps) (simp split: if_splits)
  show ?thesis
    using assms(2) unfolding recv_payload_def Let_def
    by (auto simp: failed_download_def check_download_def split: if_splits sum.splits dest!: stopped)
qed

lemma download_stopped:
  assumes "stop 0" and "success (fst (download_from_peer ops sha hex e clk stop i resume x l conn))"
  shows "dl_data (fst (download_from_peer ops sha hex e clk stop i resume x l conn)) = []"
proof -
  have rp: "success (fst (recv_response ops sha hex e clk stop x l s)) \<Longrightarrow> dl_data (fst (recv_response ops sha hex e clk stop x l s)) = []" for s
    by (cases "recv_header ops e s"; cases "fst (recv_header ops e s)")
      (auto simp: recv_response_def failed_download_def recv_payload_stopped [where stop = stop, OF assms(1)])
  show ?thesis
    using assms(2) rp by (cases conn) (auto simp: download_from_peer_def failed_download_def Let_def case_prod_unfold)
qed

lemma attempt_stopped:
  assumes "r = fst (attempt env x ctx i p l)" and "success r" and "ctx_stop_flag ctx"
  shows "dl_data r = []"
  using assms(1,2) assms(3) unfolding attempt_def case_prod_unfold fst_conv by (auto intro!: download_stopped)

lemma race_results:
  "fst (race env x ctx i ps l) = map (\<lambda>(j, p). fst (attempt env x ctx j p l)) (enumerate i ps)"
proof (induction ps arbitrary: i l)
  case (Cons p ps)
  have "fst (race env x ctx (Suc i) ps l1) = map (\<lambda>(j, p). fst (attempt env x ctx j p l)) (enumerate (Suc i) ps)" for l1
    unfolding Cons.IH by (auto intro: attempt_limiter)
  then show ?case by (simp add: case_prod_unfold)
qed simp

lemma fallback_result:
  "fst (try_fallback env x ctx i ps l) = Some r \<Longrightarrow> success r \<and> (\<exists>j. \<exists>p\<in>set ps. r = fst (attempt env x ctx j p l))"
proof (induction ps arbitrary: i l)
  case (Cons p ps)
  show ?case
  proof (cases "success (fst (attempt env x ctx i p l))")
    case True
    with Cons.prems show ?thesis by (auto simp: case_prod_unfold split: if_splits)
  next
    case False
    with Cons.prems have "fst (try_fallback env x ctx (Suc i) ps (snd (attempt env x ctx i p l))) = Some r"
      by (auto simp: case_prod_unfold split: if_splits)
    from Cons.IH [OF this] show ?thesis using attempt_limiter by (metis list.set_intros(2))
  qed
qed simp

lemma fallback_finds:
  assumes "\<not> ctx_stop_flag ctx" and "\<forall>i. \<not> te_halt env i" and "p \<in> set ps" and "\<forall>i l. success (fst (attempt env x ctx i p l))"
  shows "fst (try_fallback env x ctx i ps l) \<noteq> None"
  using assms(3)
proof (induction ps arbitrary: i l)
  case (Cons q ps)
  then show ?case using assms by (cases "success (fst (attempt env x ctx i q l))") (auto simp: case_prod_unfold)
qed simp

lemma hedged_result:
  assumes "fst (hedged_download env x ctx sel cs l) = Some r"
  shows "success r \<and> (\<exists>j. \<exists>p\<in>set sel \<union> set cs. r = fst (attempt env x ctx j p l))"
proof (cases "find success (fst (race env x ctx 0 sel l))")
  case None
  with assms have "fst (try_fallback env x ctx (length sel) (fallback_peers cs sel) (snd (race env x ctx 0 sel l))) = Some r"
    by (simp add: hedged_download_def case_prod_unfold)
  from fallback_result [OF this] show ?thesis using attempt_limiter by (fastforce simp: fallback_peers_def)
next
  case (Some q)
  with assms have "q = r" by (simp add: hedged_download_def case_prod_unfold)
  with Some have "success r" and "r \<in> set (fst (race env x ctx 0 sel l))"
    by (auto simp: find_Some_iff)
  then obtain j where "j < length sel" "r = fst (attempt env x ctx j (sel ! j) l)"
    by (auto simp: race_results in_set_enumerate_eq)
  then show ?thesis using \<open>success r\<close> nth_mem [of j sel] by blast
qed

lemma hedged_finds:
  assumes "\<not> ctx_stop_flag ctx" and "\<forall>i. \<not> te_halt env i" and "p \<in> set cs" and "\<forall>i l. success (fst (attempt env x ctx i p l))"
    and "set sel \<subseteq> set cs" and "inj_on pn_node_id (set cs)"
  shows "\<exists>r. fst (hedged_download env x ctx sel cs l) = Some r"
proof (cases "p \<in> set sel")
  case True
  then obtain k where "k < length sel" "sel ! k = p" by (auto simp: in_set_conv_nth)
  then have "fst (attempt env x ctx k p l) \<in> set (fst (race env x ctx 0 sel l))"
    by (force simp: race_results in_set_enumerate_eq)
  then have "find success (fst (race env x ctx 0 sel l)) \<noteq> None"
    using assms(4) by (auto simp: find_None_iff)
  then show ?thesis by (auto simp: hedged_download_def case_prod_unfold)
next
  case False
  then have "p \<in> set (fallback_peers cs sel)"
    using assms(3,5,6) by (auto simp: fallback_peers_def inj_on_def)
  from fallback_finds [OF assms(1,2) this assms(4)] show ?thesis
    by (auto simp: hedged_download_def case_prod_unfold split: option.splits)
qed


lemma open_context_frame:
  "tm_fs (snd (open_context now req m)) = tm_fs m" "tm_stats (snd (open_context now req m)) = tm_stats m"
  "progress_dir (snd (open_context now req m)) = progress_dir m" "saved_progress (snd (open_context now req m)) = saved_progress m"
  "al_get (active_transfers (snd (open_context now req m))) (rq_chunk_id req) = Some (fst (open_context now req m))"
  by (simp_all add: open_context_def get_or_create_context_def set_context_def Let_def case_prod_unfold al_get_put split: option.split)

lemma open_context_new:
  "al_get (active_transfers m) (rq_chunk_id req) = None \<Longrightarrow>
   ctx_chunk_id (fst (open_context now req m)) = rq_chunk_id req \<and> \<not> ctx_stop_flag (fst (open_context now req m))"
  by (simp add: open_context_def get_or_create_context_def new_context_def Let_def case_prod_unfold)

lemma open_context_stopped:
  "al_get (active_transfers m) (rq_chunk_id req) = Some c \<Longrightarrow> ctx_stop_flag c \<Longrightarrow> ctx_stop_flag (fst (open_context now req m))"
  by (simp add: open_context_def get_or_create_context_def Let_def case_prod_unfold)

lemma save_progress_frame:
  "active_transfers (snd (save_progress i n m)) = active_transfers m" "tm_stats (snd (save_progress i n m)) = tm_stats m"
  "progress_dir (snd (save_progress i n m)) = progress_dir m"
  "fs_remove_ok (tm_fs (snd (save_progress i n m))) = fs_remove_ok (tm_fs m)"
  by (simp_all add: save_progress_def Let_def)

lemma saved_progress_save: "fs_write_ok (tm_fs m) (progress_file i m) \<Longrightarrow> al_get (saved_progress (snd (save_progress i n m))) i = Some n"
  by (simp add: save_progress_def Let_def al_get_put)

lemma update_context_frame [simp]:
  "tm_fs (update_context i ctx m) = tm_fs m" "tm_stats (update_context i ctx m) = tm_stats m"
  "progress_dir (update_context i ctx m) = progress_dir m" "progress_file j (update_context i ctx m) = progress_file j m"
  by (simp_all add: update_context_def set_context_def progress_file_def)

lemma finish_download_result:
  "fst (finish_download rep req ctx sel data m) =
    (if fs_remove_ok (tm_fs m) (ctx_file_path ctx) then Returned (Some data) else Threw)"
  by (simp add: finish_download_def Let_def save_progress_frame)

lemma finish_download_state:
  assumes "fs_remove_ok (tm_fs m) (ctx_file_path ctx)"
    and m'_def: "m' = snd (finish_download rep req ctx sel data m)"
  shows "al_get (active_transfers m') (rq_chunk_id req) = None"
    and "ts_total_bytes_downloaded (tm_stats m') = ts_total_bytes_downloaded (tm_stats m) + size64 data"
    and "fs_write_ok (tm_fs m) (progress_file (rq_chunk_id req) m) \<Longrightarrow>
         al_get (saved_progress m') (rq_chunk_id req) = Some (ctx_downloaded_size ctx)"
  using assms(1) saved_progress_save [of "update_context (rq_chunk_id req) ctx m" "rq_chunk_id req" "ctx_downloaded_size ctx"]
  unfolding m'_def
  by (simp_all add: finish_download_def Let_def save_progress_frame remove_transfer_def bump_stats_def al_get_del)

text \<open>
  The shape of a download that ran: what it opens, selects and gets, with the result.
\<close>

definition opened :: "'s transfer_env \<Rightarrow> TransferRequest \<Rightarrow> TransferManager \<Rightarrow> ChunkTransferContext \<times> TransferManager" where
  "opened env req m = open_context (te_now env) req (bump_stats (\<lambda>t. t\<lparr>ts_total_downloads := ts_total_downloads t + 1\<rparr>) m)"

definition chosen :: "'s transfer_env \<Rightarrow> clocks \<Rightarrow> NodeDiscovery option \<Rightarrow> TransferRequest \<Rightarrow> TransferManager \<Rightarrow> PeerNode list" where
  "chosen env clk nd req m =
     select_k_peers (te_sort env) (te_shuffle env) nd (candidate_peers clk nd req)
       (if 0 < rq_k_value req then rq_k_value req else cfg_selection_k (tm_config (snd (opened env req m)))) (rq_mode req)"

definition raced :: "'s transfer_env \<Rightarrow> clocks \<Rightarrow> NodeDiscovery option \<Rightarrow> TransferRequest \<Rightarrow> TransferManager \<Rightarrow>
    PeerDownloadResult option \<times> BandwidthLimiter" where
  "raced env clk nd req m =
     hedged_download env (rq_expected_sha256 req) (fst (opened env req m)) (chosen env clk nd req m) (candidate_peers clk nd req)
       (download_limiter (snd (opened env req m)))"

text \<open>The manager that a download finds when it resumes.\<close>

definition resumed :: "'s transfer_env \<Rightarrow> clocks \<Rightarrow> NodeDiscovery option \<Rightarrow> TransferRequest \<Rightarrow> TransferManager \<Rightarrow> TransferManager" where
  "resumed env clk nd req m = te_meanwhile env ((snd (opened env req m))\<lparr>download_limiter := snd (raced env clk nd req m)\<rparr>)"

lemma download_chunk_cases:
  assumes "tm_running m" and "candidate_peers clk nd req \<noteq> []"
    and ctx_def: "ctx = fst (opened env req m)" and m1_def: "m1 = resumed env clk nd req m"
  shows "download_chunk env clk nd rep req m =
    (case fst (raced env clk nd req m) of
       None \<Rightarrow> (Returned None, remove_transfer (rq_chunk_id req) (fail_download m1))
     | Some r \<Rightarrow> finish_download rep req (ctx\<lparr>ctx_stop_flag := True, ctx_downloaded_size := of_nat (bytes_downloaded r)\<rparr>)
                   (chosen env clk nd req m) (dl_data r) m1)"
  using assms(1,2) unfolding ctx_def m1_def
  by (simp only: download_chunk_def opened_def [symmetric] case_prod_unfold Let_def chosen_def [symmetric] raced_def [symmetric] resumed_def [symmetric]
      if_False simp_thms split: option.split)

lemma download_chunk_no_peers:
  "tm_running m \<Longrightarrow> candidate_peers clk nd req = [] \<Longrightarrow>
   download_chunk env clk nd rep req m = (Returned None, fail_download (snd (opened env req m)))"
  by (simp add: download_chunk_def opened_def case_prod_unfold)

lemma opened_frame:
  "tm_fs (snd (opened env req m)) = tm_fs m" "progress_dir (snd (opened env req m)) = progress_dir m"
  "ts_total_bytes_downloaded (tm_stats (snd (opened env req m))) = ts_total_bytes_downloaded (tm_stats m)"
  "al_get (active_transfers (snd (opened env req m))) (rq_chunk_id req) = Some (fst (opened env req m))"
  by (simp_all add: opened_def open_context_frame bump_stats_def)

text \<open>A download with data is one that ran: its data are those of a verified attempt.\<close>

lemma download_chunk_SomeE:
  assumes "download_chunk env clk nd rep req m = (Returned (Some data), m')"
  obtains r i p where "fst (raced env clk nd req m) = Some r" and "success r" and "data = dl_data r"
    and "r = fst (attempt env (rq_expected_sha256 req) (fst (opened env req m)) i p (download_limiter (snd (opened env req m))))"
    and "bytes_downloaded r = length data"
    and "fs_remove_ok (tm_fs (resumed env clk nd req m)) (ctx_file_path (fst (opened env req m)))"
    and "m' = snd (finish_download rep req ((fst (opened env req m))\<lparr>ctx_stop_flag := True, ctx_downloaded_size := of_nat (length data)\<rparr>)
                   (chosen env clk nd req m) data (resumed env clk nd req m))"
proof -
  have run1: "tm_running m" using assms by (rule contrapos_pp) (simp add: download_chunk_def)
  have run: "tm_running m" "candidate_peers clk nd req \<noteq> []"
    using assms run1 download_chunk_no_peers [of m clk nd req env rep] by auto
  note dc = download_chunk_cases [OF run refl refl, of env rep]
  obtain r where r: "fst (raced env clk nd req m) = Some r"
    using assms dc by (cases "fst (raced env clk nd req m)") auto
  obtain i p where att: "success r" "r = fst (attempt env (rq_expected_sha256 req) (fst (opened env req m)) i p (download_limiter (snd (opened env req m))))"
    using hedged_result r unfolding raced_def by blast
  have "Returned (Some data) = fst (finish_download rep req ((fst (opened env req m))\<lparr>ctx_stop_flag := True, ctx_downloaded_size := of_nat (bytes_downloaded r)\<rparr>)
      (chosen env clk nd req m) (dl_data r) (resumed env clk nd req m))"
    using assms dc r by simp
  then have ok: "fs_remove_ok (tm_fs (resumed env clk nd req m)) (ctx_file_path (fst (opened env req m)))" and data: "data = dl_data r"
    by (simp_all add: finish_download_result opened_frame split: if_splits)
  have n: "bytes_downloaded r = length data" using attempt_checked [OF att(2,1)] data by simp
  show thesis
    by (rule that [OF r att(1) data att(2) n ok]) (use assms dc r n data in \<open>simp add: prod_eq_iff\<close>)
qed


lemma download_chunk_checked:
  assumes "download_chunk env clk nd rep req m = (Returned (Some data), m')"
  shows "rq_expected_sha256 req = '''' \<or> te_hex env (te_sha env data) = rq_expected_sha256 req"
  by (rule download_chunk_SomeE [OF assms], drule attempt_checked) simp_all

section \<open>Properties\<close>

text \<open>The examples: a peer that serves three bytes, one that is unreachable, and a running manager.\<close>

definition ex_tm :: TransferManager where
  "ex_tm = (new_transfer_manager 0 ex_fs \<lparr>cfg_listen_port = 9000, cfg_gossip_port = 9001, cfg_max_connections = 100,
      cfg_max_peers = 50, cfg_max_upload_speed_mbps = 0, cfg_max_download_speed_mbps = 0, cfg_selection_k = 5,
      cfg_gossip_interval_sec = 10, cfg_heartbeat_timeout_sec = 60, cfg_transport = ''tcp'', cfg_worker_threads = 0\<rparr>)\<lparr>tm_running := True, tm_scheduler := True\<rparr>"

definition ex_good :: PeerNode where
  "ex_good = blank_peer\<lparr>pn_node_id := ''good'', pn_address := ''10.0.0.2'', pn_port := 9000\<rparr>"

definition ex_down :: PeerNode where
  "ex_down = blank_peer\<lparr>pn_node_id := ''down'', pn_address := ''10.0.0.3'', pn_port := 9000\<rparr>"

definition ex_env :: "seg_stream transfer_env" where
  "ex_env = \<lparr>te_ops = seg_ops, te_sha = ex_sha, te_hex = to_str, te_endian = Little, te_now = 0,
     te_sort = insertion_sort, te_shuffle = (\<lambda>xs. xs),
     te_connect = (\<lambda>i a p. if a = ''10.0.0.2'' then Some (ex_end [response_bytes ex_sha ''k_0'' (Some [1, 2, 3])]) else None),
     te_clk = (\<lambda>i j. 0), te_stop = (\<lambda>i j. False), te_halt = (\<lambda>i. False),
     te_meanwhile = bump_stats (\<lambda>t. t\<lparr>ts_total_bytes_downloaded := ts_total_bytes_downloaded t + 5\<rparr>)\<rparr>"

definition ex_req :: "string \<Rightarrow> PeerNode list \<Rightarrow> TransferRequest" where
  "ex_req x ps = \<lparr>rq_chunk_id = ''k_0'', rq_object_key = ''k'', rq_offset = 0, rq_expected_size = 3, rq_mode = NearestFirst,
     rq_k_value = 1, rq_enable_resume = True, rq_sources = ps, rq_expected_sha256 = x\<rparr>"

definition no_nan :: "PeerNode \<Rightarrow> bool" where
  "no_nan p \<longleftrightarrow> double_of_bits (pn_latency_ms p) \<noteq> NaN \<and> double_of_bits (pn_throughput_mbps p) \<noteq> NaN"

definition mode_order :: "NodeDiscovery \<Rightarrow> TransferMode \<Rightarrow> PeerNode \<Rightarrow> PeerNode \<Rightarrow> bool" where
  "mode_order d mode = (case mode of NearestFirst \<Rightarrow> closer | FastestFirst \<Rightarrow> faster | RarestFirst \<Rightarrow> rarer d)"

lemma fp_gt_neg [simp]: "fp_gt (fp_neg x) (fp_neg y) = fp_gt y x"
  by (cases x; cases y) auto

lemma fp_neg_NaN [simp]: "fp_neg x = NaN \<longleftrightarrow> x = NaN"
  by (cases x) auto

lemma mode_order_strict_weak:
  assumes "\<forall>p\<in>A. no_nan p"
  shows "strict_weak (mode_order d mode) A"
proof (cases mode)
  case NearestFirst
  have "strict_weak closer A"
    by (rule strict_weak_key [of closer "\<lambda>p. double_of_bits (pn_latency_ms p)"])
      (use assms in \<open>auto simp: closer_def no_nan_def\<close>)
  with NearestFirst show ?thesis by (simp add: mode_order_def)
next
  case FastestFirst
  have "strict_weak faster A"
    by (rule strict_weak_key [of faster "\<lambda>p. fp_neg (double_of_bits (pn_throughput_mbps p))"])
      (use assms in \<open>auto simp: faster_def no_nan_def\<close>)
  with FastestFirst show ?thesis by (simp add: mode_order_def)
next
  case RarestFirst
  then show ?thesis by (auto simp: mode_order_def rarer_def strict_weak_def)
qed

lemma actual_k: "n < 2 ^ 32 \<Longrightarrow> unat (min k (of_nat n) :: u32) = min (unat k) n"
  using unat_of_nat_u32 [of n] by (simp add: min_def word_le_nat_alt)

lemma select_k_sort:
  "select_k_peers srt shuffle (Some d) cs k mode =
   (if cs = [] then [] else take (unat (min k (of_nat (length cs)))) (srt (mode_order d mode) cs))"
  by (cases mode) (simp_all add: select_k_peers_def mode_order_def Let_def)

text \<open>
  C34. Selection. When no latency or throughput is a NaN, the selection has
  \<open>min k n\<close> of the \<open>n\<close> candidates, and no candidate left out is better, in the order of the
  mode, than one selected.
\<close>

theorem select_k_peers_best:
  assumes "std_sort srt" and "\<forall>p\<in>set cs. no_nan p" and "length cs < 2 ^ 32"
    and "sel = select_k_peers srt shuffle (Some d) cs k mode"
  shows "length sel = min (unat k) (length cs) \<and> mset sel \<subseteq># mset cs \<and>
    (\<forall>a\<in>set sel. \<forall>b\<in>#mset cs - mset sel. \<not> mode_order d mode b a)"
  using std_sort.take_best [OF assms(1) mode_order_strict_weak [OF assms(2)], where k = "min (unat k) (length cs)"] assms(3,4)
  by (auto simp: select_k_sort actual_k)

theorem select_k_peers_best_witness:
  "select_k_peers insertion_sort (\<lambda>xs. xs) (Some ex_node)
      [ex_down\<lparr>pn_latency_ms := 0x4024000000000000\<rparr>, ex_good\<lparr>pn_latency_ms := 0x3FF0000000000000\<rparr>] 1 NearestFirst =
    [ex_good\<lparr>pn_latency_ms := 0x3FF0000000000000\<rparr>] \<and>
   length [ex_good\<lparr>pn_latency_ms := 0x3FF0000000000000\<rparr>] = 1"
proof -
  let ?cs = "[ex_down\<lparr>pn_latency_ms := 0x4024000000000000\<rparr>, ex_good\<lparr>pn_latency_ms := 0x3FF0000000000000\<rparr>]"
  have nn: "\<forall>p\<in>set ?cs. no_nan p"
    by (simp add: no_nan_def ex_down_def ex_good_def blank_peer_def) code_simp
  have "insertion_sort closer ?cs = [?cs ! 1, ?cs ! 0]"
    by (simp add: insertion_sort_def ex_down_def ex_good_def blank_peer_def closer_def) code_simp
  then have s: "select_k_peers insertion_sort (\<lambda>xs. xs) (Some ex_node) ?cs 1 NearestFirst = [?cs ! 1]"
    by (simp add: select_k_peers_def)
  show ?thesis
    using s select_k_peers_best [OF ins.std_sort_axioms nn, of "[?cs ! 1]" "\<lambda>xs. xs" ex_node 1 NearestFirst] by simp
qed


lemma opened_new:
  "get_transfer_context (rq_chunk_id req) m = None \<Longrightarrow>
   ctx_chunk_id (fst (opened env req m)) = rq_chunk_id req \<and> \<not> ctx_stop_flag (fst (opened env req m))"
  unfolding opened_def by (rule open_context_new) (simp add: bump_stats_def get_transfer_context_def)

lemma ex_attempt_good:
  assumes "ctx_chunk_id ctx = ''k_0''" and "\<not> ctx_stop_flag ctx" and "x = '''' \<or> x = to_str (ex_sha [1, 2, 3])"
  shows "fst (attempt ex_env x ctx i ex_good l) = \<lparr>success = True, bytes_downloaded = 3, dl_data = [1, 2, 3]\<rparr>"
proof -
  have p: "seg_pending (ex_end [response_bytes ex_sha ''k_0'' (Some [1, 2, 3])]) =
      response_bytes ex_sha ''k_0'' (Some [1, 2, 3]) @ []"
    by (simp add: ex_end_def seg_pending_def)
  obtain l' s' where "download_from_peer seg_ops ex_sha to_str Little (\<lambda>_. 0) (\<lambda>_. False) ''k_0'' (ctx_is_resume ctx) x l
       (Some (ex_end [response_bytes ex_sha ''k_0'' (Some [1, 2, 3])])) =
       (\<lparr>success = True, bytes_downloaded = length [1, 2, 3 :: byte], dl_data = [1, 2, 3]\<rparr>, l', Some s')"
    using seg.download_gets [OF seg_writable p, where stop = "\<lambda>_. False" and expected = x and hex = to_str] assms(3) by fastforce
  then show ?thesis using assms by (simp add: attempt_def ex_env_def ex_good_def)
qed

lemma ex_download:
  assumes "x = '''' \<or> x = to_str (ex_sha [1, 2, 3])"
  shows "\<exists>m'. download_chunk ex_env ex_clk None False (ex_req x [ex_good]) ex_tm = (Returned (Some [1, 2, 3]), m')"
proof -
  let ?ctx = "fst (opened ex_env (ex_req x [ex_good]) ex_tm)"
  have c: "ctx_chunk_id ?ctx = ''k_0''" "\<not> ctx_stop_flag ?ctx"
    using opened_new [of "ex_req x [ex_good]" ex_tm ex_env]
    by (auto simp: get_transfer_context_def ex_tm_def new_transfer_manager_def ex_req_def)
  have x: "rq_expected_sha256 (ex_req x [ex_good]) = x" by (simp add: ex_req_def)
  have ch: "chosen ex_env ex_clk None (ex_req x [ex_good]) ex_tm = [ex_good]"
    by (simp add: chosen_def candidate_peers_def ex_req_def select_k_peers_def ex_env_def insertion_sort_def)
  have "fst (raced ex_env ex_clk None (ex_req x [ex_good]) ex_tm) = Some \<lparr>success = True, bytes_downloaded = 3, dl_data = [1, 2, 3]\<rparr>"
    using ex_attempt_good [OF c assms] x by (simp add: raced_def hedged_download_def ch case_prod_unfold)
  moreover have "tm_running ex_tm" and "candidate_peers ex_clk None (ex_req x [ex_good]) \<noteq> []"
    by (simp_all add: ex_tm_def candidate_peers_def ex_req_def)
  moreover have "fs_remove_ok (tm_fs (resumed ex_env ex_clk None (ex_req x [ex_good]) ex_tm)) p" for p
    by (simp add: resumed_def ex_env_def bump_stats_def opened_frame ex_tm_def new_transfer_manager_def ex_fs_def)
  ultimately have "fst (download_chunk ex_env ex_clk None False (ex_req x [ex_good]) ex_tm) = Returned (Some [1, 2, 3])"
    by (simp add: download_chunk_cases [OF _ _ refl refl] finish_download_result)
  then show ?thesis by (metis prod.collapse)
qed

text \<open>
  C7. Verified downloads. Whatever the peers send, whichever of them wins the race and
  whatever other coroutines do to the manager while the download is suspended: data that
  \<open>download_chunk\<close> returns have the digest the request expects, when it expects one, and no transfer of the
  chunk is active any more. If the others have counted \<open>n\<close> bytes by the time the download resumes,
  the statistics have grown by these and the size of the data.
\<close>

theorem download_chunk_verified:
  assumes "download_chunk env clk nd rep req m = (Returned (Some data), m')"
  shows "(rq_expected_sha256 req = '''' \<or> te_hex env (te_sha env data) = rq_expected_sha256 req) \<and>
    get_transfer_context (rq_chunk_id req) m' = None \<and>
    (\<forall>n. (\<forall>x. ts_total_bytes_downloaded (tm_stats (te_meanwhile env x)) = ts_total_bytes_downloaded (tm_stats x) + n) \<longrightarrow>
      ts_total_bytes_downloaded (tm_stats m') = ts_total_bytes_downloaded (tm_stats m) + n + size64 data)"
  by (rule download_chunk_SomeE [OF assms], drule attempt_checked)
    (simp_all add: finish_download_state [OF _ refl] resumed_def opened_frame get_transfer_context_def)

theorem download_chunk_verified_witness:
  "\<exists>m'. download_chunk ex_env ex_clk None False (ex_req (to_str (ex_sha [1, 2, 3])) [ex_good]) ex_tm = (Returned (Some [1, 2, 3]), m') \<and>
     ts_total_bytes_downloaded (tm_stats m') = 8 \<and> get_transfer_context ''k_0'' m' = None"
proof -
  obtain m' where d: "download_chunk ex_env ex_clk None False (ex_req (to_str (ex_sha [1, 2, 3])) [ex_good]) ex_tm = (Returned (Some [1, 2, 3]), m')"
    using ex_download by blast
  have "ts_total_bytes_downloaded (tm_stats (te_meanwhile ex_env x)) = ts_total_bytes_downloaded (tm_stats x) + 5" for x
    by (simp add: ex_env_def bump_stats_def)
  then show ?thesis
    using d download_chunk_verified [OF d] by (simp add: ex_req_def ex_tm_def new_transfer_manager_def size64_def)
qed

text \<open>
  C5. One honest peer is enough. If a single candidate answers with acceptable data, the
  download returns data, whatever the other candidates do: it is tried in the race or as a
  fallback. This is for a running manager with no transfer of the chunk active when the download starts, candidates with
  distinct node ids and no NaN measurements, a download that nobody stops meanwhile, neither by a
  cancellation nor by a second download of the chunk, and a temporary file that can be removed.
\<close>

theorem download_survives_bad_peers:
  assumes "tm_running m" and "get_transfer_context (rq_chunk_id req) m = None"
    and "cs = candidate_peers clk (Some d) req" and "p \<in> set cs" and "inj_on pn_node_id (set cs)" and "\<forall>q\<in>set cs. no_nan q"
    and "length cs < 2 ^ 32" and "std_sort (te_sort env)" and "\<forall>i. \<not> te_halt env i" and "\<forall>f. fs_remove_ok (tm_fs (resumed env clk (Some d) req m)) f"
    and "\<forall>ctx i l. ctx_chunk_id ctx = rq_chunk_id req \<and> \<not> ctx_stop_flag ctx \<longrightarrow>
           success (fst (attempt env (rq_expected_sha256 req) ctx i p l))"
  shows "\<exists>data m'. download_chunk env clk (Some d) rep req m = (Returned (Some data), m') \<and>
    (rq_expected_sha256 req = '''' \<or> te_hex env (te_sha env data) = rq_expected_sha256 req)"
proof -
  let ?ctx = "fst (opened env req m)"
  have c: "ctx_chunk_id ?ctx = rq_chunk_id req" "\<not> ctx_stop_flag ?ctx"
    using opened_new [OF assms(2), of env] by auto
  have "set (chosen env clk (Some d) req m) \<subseteq> set cs"
    using std_sort.sort_set [OF assms(8) mode_order_strict_weak [OF assms(6)]] assms(3)
    by (auto simp: chosen_def select_k_sort dest!: in_set_takeD)
  then obtain r where r: "fst (raced env clk (Some d) req m) = Some r"
    unfolding raced_def assms(3) [symmetric]
    using hedged_finds [OF c(2) assms(9,4) _ _ assms(5)] assms(11) c by blast
  obtain i q where att: "success r" "r = fst (attempt env (rq_expected_sha256 req) ?ctx i q (download_limiter (snd (opened env req m))))"
    using hedged_result r unfolding raced_def by blast
  have "candidate_peers clk (Some d) req \<noteq> []" using assms(3,4) by auto
  then have "fst (download_chunk env clk (Some d) rep req m) = Returned (Some (dl_data r))"
    using r assms(1,10) by (simp add: download_chunk_cases [OF _ _ refl refl] finish_download_result)
  then show ?thesis using attempt_checked [OF att(2,1)] by (metis prod.collapse)
qed

theorem download_survives_bad_peers_witness:
  "\<exists>data m'. download_chunk ex_env ex_clk (Some ex_node) False (ex_req (to_str (ex_sha [1, 2, 3])) [ex_down, ex_good]) ex_tm =
     (Returned (Some data), m') \<and> to_str (ex_sha data) = to_str (ex_sha [1, 2, 3])"
proof -
  let ?x = "to_str (ex_sha [1, 2, 3])"
  let ?r = "ex_req ?x [ex_down, ex_good]"
  have cs: "[ex_down, ex_good] = candidate_peers ex_clk (Some ex_node) ?r" by (simp add: candidate_peers_def ex_req_def)
  have nn: "\<forall>q\<in>set [ex_down, ex_good]. no_nan q"
    by (simp add: no_nan_def ex_down_def ex_good_def blank_peer_def double_of_bits_def)
  have "\<forall>ctx i l. ctx_chunk_id ctx = rq_chunk_id ?r \<and> \<not> ctx_stop_flag ctx \<longrightarrow>
      success (fst (attempt ex_env (rq_expected_sha256 ?r) ctx i ex_good l))"
    by (auto simp: ex_req_def ex_attempt_good)
  moreover have "inj_on pn_node_id (set [ex_down, ex_good])" by (simp add: ex_down_def ex_good_def inj_on_def)
  moreover have "tm_running ex_tm" "get_transfer_context (rq_chunk_id ?r) ex_tm = None"
      "\<forall>f. fs_remove_ok (tm_fs (resumed ex_env ex_clk (Some ex_node) ?r ex_tm)) f"
    by (simp_all add: ex_tm_def new_transfer_manager_def get_transfer_context_def resumed_def opened_frame bump_stats_def ex_env_def ex_fs_def)
  moreover have "std_sort (te_sort ex_env)" "\<forall>i. \<not> te_halt ex_env i"
    using ins.std_sort_axioms by (simp_all add: ex_env_def)
  ultimately have "\<exists>data m'. download_chunk ex_env ex_clk (Some ex_node) False ?r ex_tm = (Returned (Some data), m') \<and>
    (rq_expected_sha256 ?r = '''' \<or> te_hex ex_env (te_sha ex_env data) = rq_expected_sha256 ?r)"
    using cs nn by (intro download_survives_bad_peers [where p = ex_good and cs = "[ex_down, ex_good]"]) simp_all
  then show ?thesis by (auto simp: ex_req_def ex_env_def to_str_def ex_sha_def)
qed


text \<open>
  Contexts. A download that ran to its end leaves the chunk without an active
  transfer, unless no peer was known: then it fails with the context still active.
\<close>

theorem download_context_released:
  assumes "tm_running m" and "fst (download_chunk env clk nd rep req m) \<noteq> Threw"
  shows "get_transfer_context (rq_chunk_id req) (snd (download_chunk env clk nd rep req m)) = None \<longleftrightarrow>
    candidate_peers clk nd req \<noteq> []"
proof (cases "candidate_peers clk nd req = []")
  case True
  then show ?thesis
    using assms(1) by (simp add: download_chunk_no_peers get_transfer_context_def fail_download_def bump_stats_def opened_frame)
next
  case False
  then show ?thesis
    using assms by (auto simp: download_chunk_cases [OF _ _ refl refl] finish_download_result get_transfer_context_def
        remove_transfer_def al_get_del finish_download_state [OF _ refl] split: option.splits if_splits)
qed

theorem download_context_released_witness:
  "get_transfer_context ''k_0'' (snd (download_chunk ex_env ex_clk None False (ex_req '''' []) ex_tm)) \<noteq> None"
proof -
  have "tm_running ex_tm" and c: "candidate_peers ex_clk None (ex_req '''' []) = []"
    by (simp_all add: ex_tm_def candidate_peers_def ex_req_def)
  moreover from this have "fst (download_chunk ex_env ex_clk None False (ex_req '''' []) ex_tm) \<noteq> Threw"
    by (simp add: download_chunk_no_peers)
  ultimately show ?thesis
    using download_context_released [of ex_tm ex_env ex_clk None False "ex_req '''' []"] by (simp add: ex_req_def)
qed

text \<open>
  Shared stop flag. A download that finds an active context whose stop flag is set, left by
  a cancelled transfer or by another download of the chunk that has won, gets no bytes from any peer.
\<close>

theorem stopped_context_gets_nothing:
  assumes "get_transfer_context (rq_chunk_id req) m = Some ctx" and "ctx_stop_flag ctx"
    and "download_chunk env clk nd rep req m = (Returned (Some data), m')"
  shows "data = []"
proof -
  have "ctx_stop_flag (fst (opened env req m))"
    unfolding opened_def by (rule open_context_stopped) (use assms in \<open>auto simp: bump_stats_def get_transfer_context_def\<close>)
  moreover obtain r i p where "success r" and "data = dl_data r"
    and "r = fst (attempt env (rq_expected_sha256 req) (fst (opened env req m)) i p (download_limiter (snd (opened env req m))))"
    by (rule download_chunk_SomeE [OF assms(3)])
  ultimately show ?thesis using attempt_stopped by blast
qed

definition ex_empty_env :: "seg_stream transfer_env" where
  "ex_empty_env = ex_env\<lparr>te_connect := (\<lambda>i a p. Some (ex_end
      [wire_header (make_header Response 0 0 (ex_sha []) FLAG_LAST_PART)]))\<rparr>"

definition ex_cancelled :: TransferManager where
  "ex_cancelled = cancel_transfer ''k_0'' (snd (get_or_create_context 0 ''k_0'' True ex_tm))"

lemma ex_cancelled_context:
  "get_transfer_context ''k_0'' ex_cancelled = Some ((new_context 0 ''/tmp/eliop2p_progress'' ''k_0'' True)\<lparr>ctx_stop_flag := True\<rparr>)"
  by (simp add: ex_cancelled_def cancel_transfer_def get_or_create_context_def get_transfer_context_def ex_tm_def new_transfer_manager_def
      set_context_def save_progress_frame Let_def)

lemma ex_attempt_empty: "fst (attempt ex_empty_env '''' ctx i p l) = \<lparr>success = True, bytes_downloaded = 0, dl_data = []\<rparr>"
proof -
  let ?q = "make_header Request (of_nat (length (ctx_chunk_id ctx))) 0 zero_hash (if ctx_is_resume ctx then FLAG_RESUME else 0)"
  let ?h = "make_header Response 0 0 (ex_sha []) FLAG_LAST_PART"
  let ?s1 = "snd (write_exact seg_ops (to_bytes (ctx_chunk_id ctx)) (snd (send_header seg_ops Little ?q (ex_end [wire_header ?h]))))"
  have "seg_pending (ex_end [wire_header ?h]) = wire_header ?h @ []" by (simp add: ex_end_def seg_pending_def)
  then have p: "seg_pending ?s1 = wire_header ?h @ []" by (simp add: seg_writable)
  obtain s2 where "recv_header seg_ops Little ?s1 = (Some ?h, s2)"
    by (rule seg.recv_header_wireE [OF p, of Little]) simp_all
  then show ?thesis
    by (simp add: attempt_def ex_empty_env_def ex_env_def download_from_peer_def recv_response_def recv_payload_def seg_writable
        case_prod_unfold message_code_def recv_slices.simps [where acc = "[]"] check_download_def Let_def)
qed

theorem stopped_context_gets_nothing_witness:
  "\<exists>data m'. download_chunk ex_empty_env ex_clk None False (ex_req '''' [ex_good]) ex_cancelled = (Returned (Some data), m') \<and> data = []"
proof -
  let ?r = "ex_req '''' [ex_good]"
  have ch: "chosen ex_empty_env ex_clk None ?r ex_cancelled = [ex_good]"
    by (simp add: chosen_def candidate_peers_def ex_req_def select_k_peers_def ex_empty_env_def ex_env_def insertion_sort_def)
  have x: "rq_expected_sha256 ?r = ''''" and i: "rq_chunk_id ?r = ''k_0''" by (simp_all add: ex_req_def)
  have "fst (raced ex_empty_env ex_clk None ?r ex_cancelled) = Some \<lparr>success = True, bytes_downloaded = 0, dl_data = []\<rparr>"
    using x by (simp add: raced_def hedged_download_def ch case_prod_unfold ex_attempt_empty)
  moreover have "tm_running ex_cancelled" and "candidate_peers ex_clk None ?r \<noteq> []" and "fs_remove_ok (tm_fs ex_cancelled) p" for p
    by (simp_all add: ex_cancelled_def cancel_transfer_def get_or_create_context_def set_context_def save_progress_def
        ex_tm_def new_transfer_manager_def ex_fs_def candidate_peers_def ex_req_def Let_def)
  ultimately have "fst (download_chunk ex_empty_env ex_clk None False ?r ex_cancelled) = Returned (Some [])"
    by (simp add: download_chunk_cases [OF _ _ refl refl] finish_download_result resumed_def opened_frame ex_empty_env_def ex_env_def bump_stats_def)
  then obtain m' where d: "download_chunk ex_empty_env ex_clk None False ?r ex_cancelled = (Returned (Some []), m')"
    by (metis prod.collapse)
  show ?thesis
    using d stopped_context_gets_nothing [OF ex_cancelled_context [folded i] _ d] by simp
qed

text \<open>
  Progress that stays. After a successful download of data the saved progress of the
  chunk is still there, so that the next download of it asks to resume.
\<close>

theorem download_leaves_progress:
  assumes "download_chunk env clk nd rep req m = (Returned (Some data), m')"
    and "fs_write_ok (tm_fs (resumed env clk nd req m)) (progress_file (rq_chunk_id req) (resumed env clk nd req m))" and "0 < length data" and "length data < 2 ^ 64"
  shows "has_progress (rq_chunk_id req) m' \<and> load_progress (rq_chunk_id req) 0 m' = (True, size64 data)"
proof -
  have "al_get (saved_progress m') (rq_chunk_id req) = Some (size64 data)"
    by (rule download_chunk_SomeE [OF assms(1)])
      (use assms(2) in \<open>simp add: finish_download_state [OF _ refl] size64_def\<close>)
  moreover have "(0 :: u64) < size64 data"
    using assms(3,4) by (simp add: size64_def word_less_nat_alt unat_of_nat take_bit_nat_eq_self)
  ultimately show ?thesis by (simp add: has_progress_def load_progress_def)
qed

theorem download_leaves_progress_witness:
  "\<exists>m'. download_chunk ex_env ex_clk None False (ex_req '''' [ex_good]) ex_tm = (Returned (Some [1, 2, 3]), m') \<and> has_progress ''k_0'' m'"
proof -
  obtain m' where d: "download_chunk ex_env ex_clk None False (ex_req '''' [ex_good]) ex_tm = (Returned (Some [1, 2, 3]), m')"
    using ex_download by blast
  have "fs_write_ok (tm_fs (resumed ex_env ex_clk None (ex_req '''' [ex_good]) ex_tm)) p" for p
    by (simp add: resumed_def ex_env_def bump_stats_def opened_frame ex_tm_def new_transfer_manager_def ex_fs_def)
  then show ?thesis using d download_leaves_progress [OF d] by (simp add: ex_req_def)
qed

end
