(* ===== verification/Request_Handler.thy ===== *)
theory Request_Handler
  imports Transfer_Manager
begin

text \<open>
  The caching proxy of \<open>src/proxy/request_handler.cpp\<close>: parsing of the cache key and of the
  \<open>Range\<close> header, object metadata with the hashes that anchor chunk contents at the origin, the
  three sources of a chunk (local cache, peers, storage) and the assembly of a response.

  A handler works on the chunk store of the theory \<open>Chunk_Manager\<close>, when it has one, and on the
  outside: the peers, through the operations \<open>p2p_ops\<close> of a transfer manager, the storage
  client, and the clock, all over one state \<open>'w\<close>. A step returns a value, throws, or does what
  the language leaves undefined (\<open>Undefined\<close>: an iterator past the end of a vector). \<open>None\<close> is a
  step that does not return, which only a store into the cache can be.
\<close>

section \<open>Messages\<close>

record HttpRequest =
  hr_method :: string
  hr_path :: string
  hr_query_string :: string
  hr_headers :: "(string \<times> string) list"

record HttpResponse =
  rs_status_code :: nat
  rs_status_message :: string
  rs_headers :: "(string \<times> string) list"
  rs_body :: bytes

definition blank_response :: HttpResponse where
  "blank_response = \<lparr>rs_status_code = 200, rs_status_message = ''OK'', rs_headers = [], rs_body = []\<rparr>"

definition get_header :: "string \<Rightarrow> HttpRequest \<Rightarrow> string" where
  "get_header name r =
     (case al_get (hr_headers r) name of
        Some v \<Rightarrow> v
      | None \<Rightarrow> (case al_get (hr_headers r) (map tolower name) of Some v \<Rightarrow> v | None \<Rightarrow> ''''))"

definition has_header :: "string \<Rightarrow> HttpRequest \<Rightarrow> bool" where
  "has_header name r \<longleftrightarrow> al_get (hr_headers r) name \<noteq> None \<or> al_get (hr_headers r) (map tolower name) \<noteq> None"

definition set_header :: "string \<Rightarrow> string \<Rightarrow> HttpResponse \<Rightarrow> HttpResponse" where
  "set_header name v r = r\<lparr>rs_headers := al_put name v (rs_headers r)\<rparr>"

definition response_header :: "string \<Rightarrow> HttpResponse \<Rightarrow> string" where
  "response_header name r = (case al_get (rs_headers r) name of Some v \<Rightarrow> v | None \<Rightarrow> '''')"

section \<open>Object metadata\<close>

record ObjectInfo =
  oi_size :: u64
  oi_etag :: string
  oi_chunk_hashes :: "string list"

definition serialize_meta :: "ObjectInfo \<Rightarrow> string" where
  "serialize_meta obj =
     to_string (unat (oi_size obj)) @ '' '' @ oi_etag obj @ concat (map (\<lambda>h. '' '' @ h) (oi_chunk_hashes obj))"

text \<open>The strings that repeated \<open>iss >> s\<close> reads.\<close>

function (sequential) words :: "string \<Rightarrow> string list" where
  "words s =
     (let t = dropWhile isspace s
      in if t = [] then [] else takeWhile (\<lambda>c. \<not> isspace c) t # words (dropWhile (\<lambda>c. \<not> isspace c) t))"
  by pat_completeness auto
termination
proof (relation "measure length", goal_cases)
  case (2 s t)
  then obtain c r where t: "t = c # r" "\<not> isspace c"
    by (metis dropWhile_eq_Cons_conv neq_Nil_conv)
  then have "length (dropWhile (\<lambda>c. \<not> isspace c) t) < length t"
    by (simp add: le_imp_less_Suc length_dropWhile_le)
  moreover have "length t \<le> length s" using 2 by (simp add: length_dropWhile_le)
  ultimately show ?case by simp
qed simp

declare words.simps [simp del]

definition parse_meta :: "string \<Rightarrow> ObjectInfo option" where
  "parse_meta content =
     (case strtoull content of
        None \<Rightarrow> None
      | Some (n, r) \<Rightarrow>
          (case words r of
             [] \<Rightarrow> Some \<lparr>oi_size = n, oi_etag = '''', oi_chunk_hashes = []\<rparr>
           | e # hs \<Rightarrow> Some \<lparr>oi_size = n, oi_etag = e, oi_chunk_hashes = hs\<rparr>))"

section \<open>Cache keys\<close>

datatype RequestAuthType = AuthNone | PresignedURL | HeaderSigned | NonReusableHeader

record CacheKeyInfo =
  ci_bucket :: string
  ci_object_key :: string
  ci_full_object_key :: string
  ci_presigned_url :: "string option"
  ci_auth_header :: "string option"
  ci_etag :: "string option"
  ci_query_string :: string
  ci_auth_type :: RequestAuthType

definition detect_auth_type :: "HttpRequest \<Rightarrow> RequestAuthType" where
  "detect_auth_type r =
     (if hr_query_string r \<noteq> '''' \<and>
         (str_contains ''X-Amz-Signature'' (hr_query_string r) \<or> str_contains ''Signature'' (hr_query_string r) \<or>
          str_contains ''AWSAccessKeyId'' (hr_query_string r))
      then PresignedURL
      else if has_header ''x-amz-date'' r \<and> get_header ''x-amz-date'' r \<noteq> '''' then HeaderSigned
      else if has_header ''Authorization'' r then NonReusableHeader
      else AuthNone)"

definition parse_cache_key :: "HttpRequest \<Rightarrow> CacheKeyInfo option" where
  "parse_cache_key r =
     (if hr_path r = '''' \<or> hr_path r = ''/'' then None
      else let path = (if hd (hr_path r) = CHR ''/'' then drop 1 (hr_path r) else hr_path r)
           in if path = '''' then None
              else case find_char (CHR ''/'') path of
                     None \<Rightarrow> None
                   | Some slash_pos \<Rightarrow>
                       let b = substr path 0 slash_pos; k = drop (slash_pos + 1) path
                       in Some \<lparr>ci_bucket = b, ci_object_key = k, ci_full_object_key = b @ ''/'' @ k,
                                ci_presigned_url = (if hr_query_string r \<noteq> '''' then Some (hr_query_string r) else None),
                                ci_auth_header = (if has_header ''Authorization'' r then Some (get_header ''Authorization'' r) else None),
                                ci_etag = (if has_header ''If-None-Match'' r then Some (get_header ''If-None-Match'' r) else None),
                                ci_query_string = hr_query_string r, ci_auth_type = detect_auth_type r\<rparr>)"

definition is_cacheable :: "HttpRequest \<Rightarrow> bool" where
  "is_cacheable r \<longleftrightarrow> hr_method r = ''GET''"

definition get_cache_key :: "CacheKeyInfo \<Rightarrow> string" where
  "get_cache_key info = ci_full_object_key info @ (case ci_etag info of None \<Rightarrow> '''' | Some e \<Rightarrow> ''?v='' @ e)"

section \<open>Ranges\<close>

record ByteRange =
  br_start :: u64
  br_end :: u64
  br_valid :: bool

definition blank_range :: ByteRange where
  "blank_range = \<lparr>br_start = 0, br_end = 0, br_valid = False\<rparr>"

text \<open>A range specification after \<open>bytes=\<close> and up to the first comma; \<open>stoull\<close> fails by throwing.\<close>

definition parse_range_spec :: "string \<Rightarrow> string \<Rightarrow> u64 \<Rightarrow> ByteRange" where
  "parse_range_spec start_str end_str object_size =
     (if start_str = '''' then
        (case stoull end_str of
           None \<Rightarrow> blank_range
         | Some n \<Rightarrow>
             if n = 0 then blank_range
             else \<lparr>br_start = object_size - min n object_size, br_end = object_size - 1, br_valid = True\<rparr>)
      else
        case stoull start_str of
          None \<Rightarrow> blank_range
        | Some a \<Rightarrow>
            (case (if end_str = '''' then Some (object_size - 1)
                   else map_option (\<lambda>b. min b (object_size - 1)) (stoull end_str)) of
               None \<Rightarrow> blank_range\<lparr>br_start := a\<rparr>
             | Some b \<Rightarrow> \<lparr>br_start = a, br_end = b, br_valid = (a < object_size \<and> a \<le> b)\<rparr>))"

definition parse_range_header :: "string \<Rightarrow> u64 \<Rightarrow> ByteRange" where
  "parse_range_header header object_size =
     (if object_size = 0 \<or> \<not> starts_with ''bytes='' header then blank_range
      else let spec = drop 6 header;
               spec1 = (case find_char (CHR '','') spec of Some comma \<Rightarrow> take comma spec | None \<Rightarrow> spec)
           in case find_char (CHR ''-'') spec1 of
                None \<Rightarrow> blank_range
              | Some dash \<Rightarrow> parse_range_spec (take dash spec1) (drop (dash + 1) spec1) object_size)"

section \<open>Steps\<close>

datatype 'a run = Done 'a | Raised | Undefined

type_synonym ('a, 'h) io = "'h \<Rightarrow> ('a run \<times> 'h) option"

definition return_io :: "'a \<Rightarrow> ('a, 'h) io" where
  "return_io a h = Some (Done a, h)"

definition bind_io :: "('a, 'h) io \<Rightarrow> ('a \<Rightarrow> ('b, 'h) io) \<Rightarrow> ('b, 'h) io" where
  "bind_io f g h =
     (case f h of
        None \<Rightarrow> None
      | Some (Done a, h1) \<Rightarrow> g a h1
      | Some (Raised, h1) \<Rightarrow> Some (Raised, h1)
      | Some (Undefined, h1) \<Rightarrow> Some (Undefined, h1))"

record ObjectMetadata =
  om_size :: u64
  om_etag :: string

record 'w StorageClient =
  head_object :: "string \<Rightarrow> string \<Rightarrow> 'w \<Rightarrow> ObjectMetadata option \<times> 'w"
  get_object :: "string \<Rightarrow> string \<Rightarrow> u64 \<Rightarrow> u64 \<Rightarrow> 'w \<Rightarrow> bytes option \<times> 'w"

record 'w p2p_ops =
  p2p_download :: "TransferRequest \<Rightarrow> 'w \<Rightarrow> bytes option outcome \<times> 'w"
  p2p_announce :: "string \<Rightarrow> 'w \<Rightarrow> 'w"

record 'w proxy_env =
  pe_now :: "'w \<Rightarrow> u64"
  pe_sha :: "bytes \<Rightarrow> string"
  pe_p2p :: "'w p2p_ops"
  pe_storage :: "'w StorageClient option"

record 'w RequestHandler =
  rh_cache_manager :: "ChunkManager option"
  rh_transfer_manager :: bool
  rh_enable_p2p_fallback :: bool
  rh_allowed_bucket :: string
  rh_world :: 'w

definition new_request_handler :: "ChunkManager option \<Rightarrow> 'w \<Rightarrow> 'w RequestHandler" where
  "new_request_handler cm w =
     \<lparr>rh_cache_manager = cm, rh_transfer_manager = False, rh_enable_p2p_fallback = True, rh_allowed_bucket = '''', rh_world = w\<rparr>"

definition set_transfer_manager :: "bool \<Rightarrow> 'w RequestHandler \<Rightarrow> 'w RequestHandler" where
  "set_transfer_manager given h = h\<lparr>rh_transfer_manager := given\<rparr>"

definition set_p2p_fallback_enabled :: "bool \<Rightarrow> 'w RequestHandler \<Rightarrow> 'w RequestHandler" where
  "set_p2p_fallback_enabled b h = h\<lparr>rh_enable_p2p_fallback := b\<rparr>"

definition set_allowed_bucket :: "string \<Rightarrow> 'w RequestHandler \<Rightarrow> 'w RequestHandler" where
  "set_allowed_bucket b h = h\<lparr>rh_allowed_bucket := b\<rparr>"

text \<open>The calls of the handler on its cache, its transfer manager and its storage client.\<close>

definition cache_get :: "'w proxy_env \<Rightarrow> string \<Rightarrow> (bytes option, 'w RequestHandler) io" where
  "cache_get env k h =
     (case rh_cache_manager h of
        None \<Rightarrow> Some (Done None, h)
      | Some m \<Rightarrow>
          (case get_chunk (pe_now env (rh_world h)) k m of
             None \<Rightarrow> None
           | Some (c, m1) \<Rightarrow> Some (Done (map_option ck_data c), h\<lparr>rh_cache_manager := Some m1\<rparr>)))"

definition cache_store :: "'w proxy_env \<Rightarrow> string \<Rightarrow> bytes \<Rightarrow> (unit, 'w RequestHandler) io" where
  "cache_store env k data h =
     (case rh_cache_manager h of
        None \<Rightarrow> Some (Done (), h)
      | Some m \<Rightarrow>
          (case store_chunk (pe_sha env) (pe_now env (rh_world h)) k data m of
             None \<Rightarrow> None
           | Some (b, m1) \<Rightarrow> Some (Done (), h\<lparr>rh_cache_manager := Some m1\<rparr>)))"

definition peer_download :: "'w proxy_env \<Rightarrow> TransferRequest \<Rightarrow> (bytes option, 'w RequestHandler) io" where
  "peer_download env req h =
     (case p2p_download (pe_p2p env) req (rh_world h) of
        (Returned d, w) \<Rightarrow> Some (Done d, h\<lparr>rh_world := w\<rparr>)
      | (Threw, w) \<Rightarrow> Some (Raised, h\<lparr>rh_world := w\<rparr>))"

definition announce_local :: "'w proxy_env \<Rightarrow> string \<Rightarrow> (unit, 'w RequestHandler) io" where
  "announce_local env k h =
     Some (Done (), if rh_transfer_manager h then h\<lparr>rh_world := p2p_announce (pe_p2p env) k (rh_world h)\<rparr> else h)"

definition origin_head :: "'w proxy_env \<Rightarrow> string \<Rightarrow> string \<Rightarrow> (ObjectMetadata option, 'w RequestHandler) io" where
  "origin_head env b k h =
     (case pe_storage env of
        None \<Rightarrow> Some (Done None, h)
      | Some sc \<Rightarrow> (case head_object sc b k (rh_world h) of (r, w) \<Rightarrow> Some (Done r, h\<lparr>rh_world := w\<rparr>)))"

definition origin_get :: "'w proxy_env \<Rightarrow> string \<Rightarrow> string \<Rightarrow> u64 \<Rightarrow> u64 \<Rightarrow> (bytes option, 'w RequestHandler) io" where
  "origin_get env b k off len h =
     (case pe_storage env of
        None \<Rightarrow> Some (Done None, h)
      | Some sc \<Rightarrow> (case get_object sc b k off len (rh_world h) of (r, w) \<Rightarrow> Some (Done r, h\<lparr>rh_world := w\<rparr>)))"

section \<open>Object information\<close>

definition meta_key :: "CacheKeyInfo \<Rightarrow> string" where
  "meta_key info = ci_full_object_key info @ ''#meta''"

definition meta_request :: "CacheKeyInfo \<Rightarrow> TransferRequest" where
  "meta_request info =
     \<lparr>rq_chunk_id = meta_key info, rq_object_key = ci_full_object_key info, rq_offset = 0, rq_expected_size = 0,
      rq_mode = FastestFirst, rq_k_value = 3, rq_enable_resume = True, rq_sources = [], rq_expected_sha256 = ''''\<rparr>"

definition object_info_from_origin :: "'w proxy_env \<Rightarrow> CacheKeyInfo \<Rightarrow> (ObjectInfo option, 'w RequestHandler) io" where
  "object_info_from_origin env info =
     bind_io (origin_head env (ci_bucket info) (ci_object_key info)) (\<lambda>head.
       case head of
         None \<Rightarrow> return_io None
       | Some md \<Rightarrow>
           let obj = \<lparr>oi_size = om_size md, oi_etag = om_etag md, oi_chunk_hashes = []\<rparr>
           in bind_io
                (\<lambda>h. if rh_cache_manager h = None then return_io () h
                     else bind_io (cache_store env (meta_key info) (to_bytes (serialize_meta obj)))
                            (\<lambda>_. announce_local env (meta_key info)) h)
                (\<lambda>_. return_io (Some obj)))"

definition object_info_from_peers :: "'w proxy_env \<Rightarrow> CacheKeyInfo \<Rightarrow> (ObjectInfo option, 'w RequestHandler) io" where
  "object_info_from_peers env info h =
     (if rh_enable_p2p_fallback h \<and> rh_transfer_manager h
      then bind_io (peer_download env (meta_request info)) (\<lambda>d.
             case (case d of None \<Rightarrow> None | Some bs \<Rightarrow> if bs = [] then None else map_option (\<lambda>obj. (bs, obj)) (parse_meta (to_str bs))) of
               Some (bs, obj) \<Rightarrow> bind_io (cache_store env (meta_key info) bs) (\<lambda>_. return_io (Some obj))
             | None \<Rightarrow> object_info_from_origin env info) h
      else object_info_from_origin env info h)"

definition get_object_info :: "'w proxy_env \<Rightarrow> CacheKeyInfo \<Rightarrow> (ObjectInfo option, 'w RequestHandler) io" where
  "get_object_info env info =
     bind_io (cache_get env (meta_key info)) (\<lambda>meta.
       case (case meta of None \<Rightarrow> None | Some d \<Rightarrow> parse_meta (to_str d)) of
         Some obj \<Rightarrow> return_io (Some obj)
       | None \<Rightarrow> object_info_from_peers env info)"

section \<open>Chunks\<close>

datatype ChunkSource = FromCache | FromPeers | FromStorage

text \<open>\<open>chunk_size_mb\<close> is 16 and nothing changes it.\<close>

definition chunk_size :: u64 where
  "chunk_size = 16 * 1024 * 1024"

definition chunk_want :: "ObjectInfo \<Rightarrow> u64 \<Rightarrow> u64" where
  "chunk_want obj i = min chunk_size (oi_size obj - i * chunk_size)"

definition chunk_request :: "CacheKeyInfo \<Rightarrow> ObjectInfo \<Rightarrow> u64 \<Rightarrow> string \<Rightarrow> TransferRequest" where
  "chunk_request info obj i chunk_id =
     \<lparr>rq_chunk_id = chunk_id, rq_object_key = ci_full_object_key info, rq_offset = 0, rq_expected_size = chunk_want obj i,
      rq_mode = FastestFirst, rq_k_value = 3, rq_enable_resume = True, rq_sources = [],
      rq_expected_sha256 = (if unat i < length (oi_chunk_hashes obj) then oi_chunk_hashes obj ! unat i else '''')\<rparr>"

text \<open>The hash of a chunk from the origin enters the metadata, unless its slot is taken.\<close>

definition anchor_hash :: "nat \<Rightarrow> string \<Rightarrow> ObjectInfo \<Rightarrow> ObjectInfo option" where
  "anchor_hash i x obj =
     (let hs = oi_chunk_hashes obj; hs1 = (if length hs \<le> i then hs @ replicate (i + 1 - length hs) '''' else hs)
      in if hs1 ! i = '''' then Some (obj\<lparr>oi_chunk_hashes := hs1[i := x]\<rparr>) else None)"

definition update_meta :: "'w proxy_env \<Rightarrow> CacheKeyInfo \<Rightarrow> ObjectInfo \<Rightarrow> u64 \<Rightarrow> bytes \<Rightarrow> (unit, 'w RequestHandler) io" where
  "update_meta env info obj i data =
     bind_io (cache_get env (meta_key info)) (\<lambda>meta.
       let cur = (case meta of None \<Rightarrow> obj | Some d \<Rightarrow> (case parse_meta (to_str d) of None \<Rightarrow> obj | Some c \<Rightarrow> c))
       in case anchor_hash (unat i) (pe_sha env data) cur of
            None \<Rightarrow> return_io ()
          | Some obj1 \<Rightarrow> bind_io (cache_store env (meta_key info) (to_bytes (serialize_meta obj1)))
                            (\<lambda>_. announce_local env (meta_key info)))"

definition chunk_from_storage ::
    "'w proxy_env \<Rightarrow> CacheKeyInfo \<Rightarrow> ObjectInfo \<Rightarrow> u64 \<Rightarrow> string \<Rightarrow> (bytes option \<times> ChunkSource, 'w RequestHandler) io" where
  "chunk_from_storage env info obj i chunk_id =
     bind_io (origin_get env (ci_bucket info) (ci_object_key info) (i * chunk_size) (chunk_want obj i)) (\<lambda>d.
       case d of
         None \<Rightarrow> return_io (None, FromStorage)
       | Some data \<Rightarrow>
           bind_io (\<lambda>h. if rh_cache_manager h = None then return_io () h
                        else bind_io (cache_store env chunk_id data) (\<lambda>_. update_meta env info obj i data) h)
             (\<lambda>_. bind_io (announce_local env chunk_id) (\<lambda>_. return_io (Some data, FromStorage))))"

definition chunk_from_peers ::
    "'w proxy_env \<Rightarrow> CacheKeyInfo \<Rightarrow> ObjectInfo \<Rightarrow> u64 \<Rightarrow> string \<Rightarrow> (bytes option \<times> ChunkSource, 'w RequestHandler) io" where
  "chunk_from_peers env info obj i chunk_id h =
     (if rh_enable_p2p_fallback h \<and> rh_transfer_manager h
      then bind_io (peer_download env (chunk_request info obj i chunk_id)) (\<lambda>d.
             case d of
               None \<Rightarrow> chunk_from_storage env info obj i chunk_id
             | Some data \<Rightarrow>
                 if data = [] then chunk_from_storage env info obj i chunk_id
                 else bind_io (cache_store env chunk_id data) (\<lambda>_.
                        bind_io (announce_local env chunk_id) (\<lambda>_. return_io (Some data, FromPeers)))) h
      else chunk_from_storage env info obj i chunk_id h)"

definition fetch_chunk ::
    "'w proxy_env \<Rightarrow> CacheKeyInfo \<Rightarrow> ObjectInfo \<Rightarrow> u64 \<Rightarrow> (bytes option \<times> ChunkSource, 'w RequestHandler) io" where
  "fetch_chunk env info obj i =
     (case compute_chunk_id (ci_full_object_key info) (i * chunk_size) chunk_size of
        None \<Rightarrow> (\<lambda>h. Some (Undefined, h))
      | Some chunk_id \<Rightarrow>
          bind_io (cache_get env chunk_id) (\<lambda>c.
            case c of
              Some data \<Rightarrow> return_io (Some data, FromCache)
            | None \<Rightarrow> chunk_from_peers env info obj i chunk_id))"

section \<open>Requests\<close>

definition text_response :: "nat \<Rightarrow> string \<Rightarrow> string \<Rightarrow> HttpResponse" where
  "text_response code message msg =
     (set_header ''Content-Type'' ''text/plain'' (blank_response\<lparr>rs_status_code := code, rs_status_message := message\<rparr>))
       \<lparr>rs_body := to_bytes msg\<rparr>"

text \<open>The part of a chunk that belongs to the range; copying past its end is undefined.\<close>

definition trim_chunk :: "ByteRange \<Rightarrow> u64 \<Rightarrow> u64 \<Rightarrow> u64 \<Rightarrow> bytes \<Rightarrow> bytes run" where
  "trim_chunk rng first_chunk last_chunk i data =
     (let slice_begin = (if i = first_chunk then unat (br_start rng mod chunk_size) else 0);
          slice_end = (if i = last_chunk then unat (br_end rng mod chunk_size) + 1 else length data)
      in if slice_end \<le> slice_begin then Done []
         else if length data < slice_end then Undefined
         else Done (take (slice_end - slice_begin) (drop slice_begin data)))"

definition source_tag :: "u64 \<Rightarrow> ChunkSource \<Rightarrow> string" where
  "source_tag i src = to_string (unat i) @ (case src of FromCache \<Rightarrow> '':CACHE'' | FromPeers \<Rightarrow> '':P2P'' | FromStorage \<Rightarrow> '':STORAGE'')"

definition x_cache_step :: "ChunkSource \<Rightarrow> string \<Rightarrow> string" where
  "x_cache_step src x =
     (case src of FromCache \<Rightarrow> x | FromPeers \<Rightarrow> ''P2P'' | FromStorage \<Rightarrow> if x = ''HIT'' then ''MISS'' else x)"

text \<open>The loop over the chunks; the accumulator is the body, the \<open>X-Cache\<close> value and the sources.\<close>

fun assemble ::
    "'w proxy_env \<Rightarrow> CacheKeyInfo \<Rightarrow> ObjectInfo \<Rightarrow> ByteRange \<Rightarrow> u64 \<Rightarrow> u64 \<Rightarrow> nat list \<Rightarrow> bytes \<times> string \<times> string \<Rightarrow>
     ((bytes \<times> string \<times> string) option, 'w RequestHandler) io" where
  "assemble env info obj rng fst_c last_c [] acc h = return_io (Some acc) h"
| "assemble env info obj rng fst_c last_c (n # ns) (body, xc, srcs) h =
     bind_io (fetch_chunk env info obj (of_nat n)) (\<lambda>(d, src).
       case d of
         None \<Rightarrow> return_io None
       | Some data \<Rightarrow>
           (case trim_chunk rng fst_c last_c (of_nat n) data of
              Done part \<Rightarrow>
                assemble env info obj rng fst_c last_c ns
                  (body @ part, x_cache_step src xc, srcs @ (if fst_c < of_nat n then '','' else '''') @ source_tag (of_nat n) src)
            | Raised \<Rightarrow> (\<lambda>h. Some (Raised, h))
            | Undefined \<Rightarrow> (\<lambda>h. Some (Undefined, h)))) h"

definition success_response :: "ObjectInfo \<Rightarrow> ByteRange \<Rightarrow> bool \<Rightarrow> bytes \<times> string \<times> string \<Rightarrow> HttpResponse" where
  "success_response obj rng is_range acc =
     (case acc of (body, xc, srcs) \<Rightarrow>
        let r0 = blank_response\<lparr>rs_body := body\<rparr>;
            r1 = (if is_range
                  then set_header ''Content-Range''
                         (''bytes '' @ to_string (unat (br_start rng)) @ ''-'' @ to_string (unat (br_end rng)) @ ''/'' @
                          to_string (unat (oi_size obj))) (r0\<lparr>rs_status_code := 206, rs_status_message := ''Partial Content''\<rparr>)
                  else r0\<lparr>rs_status_code := 200, rs_status_message := ''OK''\<rparr>);
            r2 = set_header ''Content-Type'' ''application/octet-stream'' r1;
            r3 = set_header ''Accept-Ranges'' ''bytes'' r2;
            r4 = set_header ''Content-Length'' (to_string (length body)) r3;
            r5 = set_header ''X-Chunk-Sources'' srcs (set_header ''X-Cache'' xc r4)
        in if oi_etag obj \<noteq> '''' then set_header ''ETag'' (oi_etag obj) r5 else r5)"

definition head_response :: "ObjectInfo \<Rightarrow> HttpResponse" where
  "head_response obj =
     (let r = set_header ''Accept-Ranges'' ''bytes'' (set_header ''Content-Length'' (to_string (unat (oi_size obj))) blank_response)
      in if oi_etag obj \<noteq> '''' then set_header ''ETag'' (oi_etag obj) r else r)"

text \<open>A \<open>GET\<close> once the object is known.\<close>

definition serve_range :: "'w proxy_env \<Rightarrow> CacheKeyInfo \<Rightarrow> ObjectInfo \<Rightarrow> ByteRange \<Rightarrow> bool \<Rightarrow> (HttpResponse, 'w RequestHandler) io" where
  "serve_range env info obj rng is_range =
     (let first_chunk = br_start rng div chunk_size; last_chunk = br_end rng div chunk_size
      in bind_io (assemble env info obj rng first_chunk last_chunk [unat first_chunk..<Suc (unat last_chunk)] ([], ''HIT'', ''''))
           (\<lambda>acc. case acc of
              None \<Rightarrow> return_io (text_response 502 ''Bad Gateway'' ''Failed to fetch object data'')
            | Some a \<Rightarrow> return_io (success_response obj rng is_range a)))"

definition serve_object :: "'w proxy_env \<Rightarrow> HttpRequest \<Rightarrow> CacheKeyInfo \<Rightarrow> ObjectInfo \<Rightarrow> (HttpResponse, 'w RequestHandler) io" where
  "serve_object env r info obj =
     (if hr_method r = ''HEAD'' then return_io (head_response obj)
      else if has_header ''Range'' r then
        (let rng = parse_range_header (get_header ''Range'' r) (oi_size obj)
         in if \<not> br_valid rng
            then return_io (set_header ''Content-Range'' (''bytes */'' @ to_string (unat (oi_size obj)))
                   (blank_response\<lparr>rs_status_code := 416, rs_status_message := ''Range Not Satisfiable''\<rparr>))
            else serve_range env info obj rng True)
      else if oi_size obj = 0 then return_io (set_header ''Content-Length'' ''0'' blank_response)
      else serve_range env info obj \<lparr>br_start = 0, br_end = oi_size obj - 1, br_valid = True\<rparr> False)"

definition handle_request :: "'w proxy_env \<Rightarrow> HttpRequest \<Rightarrow> (HttpResponse, 'w RequestHandler) io" where
  "handle_request env r h =
     (if hr_method r \<noteq> ''GET'' \<and> hr_method r \<noteq> ''HEAD''
      then return_io (text_response 405 ''Method Not Allowed'' (''Method '' @ hr_method r @ '' not supported'')) h
      else case parse_cache_key r of
             None \<Rightarrow> return_io (text_response 400 ''Bad Request'' ''Invalid request: could not parse bucket/key from path'') h
           | Some info \<Rightarrow>
               if rh_allowed_bucket h \<noteq> '''' \<and> ci_bucket info \<noteq> rh_allowed_bucket h
               then return_io (text_response 403 ''Forbidden'' (''Bucket not allowed: '' @ ci_bucket info)) h
               else bind_io (get_object_info env info) (\<lambda>o'.
                      case o' of
                        None \<Rightarrow> return_io (text_response 404 ''Not Found'' (''Object not found: '' @ ci_full_object_key info))
                      | Some obj \<Rightarrow> serve_object env r info obj) h)"


section \<open>Predicates kept by the chunk store\<close>

text \<open>
  Every copy the store has, in memory or in an indexed file, satisfies \<open>P\<close>. The keys in
  use have distinct file names, none is empty and the disk completes its writes, so that reads
  and stores return and keep the predicate.
\<close>

definition cache_holds :: "(string \<Rightarrow> bytes \<Rightarrow> bool) \<Rightarrow> string set \<Rightarrow> ChunkManager \<Rightarrow> bool" where
  "cache_holds P K m \<longleftrightarrow>
     lru_inv (memory_cache m) \<and> inj_on sanitize_chunk_filename K \<and> '''' \<notin> K \<and> dom (al_get (disk_index m)) \<subseteq> K \<and>
     disk_writes (disk m) \<and> contents (memory_cache m) '''' = None \<and>
     (\<forall>k v. contents (memory_cache m) k = Some v \<longrightarrow> P k v) \<and>
     (\<forall>k v. al_get (disk_index m) k \<noteq> None \<longrightarrow> load_from_disk k m = Some v \<longrightarrow> P k v)"

lemma lru_put_le:
  assumes "lru_put now k data s = Some (b, t)"
  shows "contents t \<subseteq>\<^sub>m (contents s)(k \<mapsto> data) \<or> contents t = contents s"
  using assms lru_put_stored [of now k data s t] lru_put_refused [of now k data s t] by (cases b) auto

lemma lru_put_returns_nonempty:
  assumes "lru_inv s" and "contents s '''' = None" and "k \<noteq> ''''"
  shows "\<exists>b t. lru_put now k data s = Some (b, t)"
proof -
  have "'''' \<notin> dom (al_get (lru_map s))"
    using assms(1,2) by (simp add: lru_inv_def contents_def domIff)
  then have "'''' \<notin> set (map snd (lru_list s))"
    using assms(1) by (auto simp: lru_inv_def simp del: map_of_eq_Some_iff)
  then show ?thesis using lru_put_total [OF assms(1) _ assms(3)] by fastforce
qed

lemma cache_holds_store:
  assumes "cache_holds P K m" and "k \<in> K" and "P k data"
  shows "\<exists>b m'. store_chunk sha now k data m = Some (b, m') \<and> cache_holds P K m'"
proof -
  have inv: "lru_inv (memory_cache m)" "contents (memory_cache m) '''' = None" and k: "k \<noteq> ''''" and dw: "disk_writes (disk m)"
    using assms(1,2) by (auto simp: cache_holds_def)
  obtain b l where p: "lru_put now k data (memory_cache m) = Some (b, l)"
    using lru_put_returns_nonempty [OF inv k] by blast
  obtain m' where s: "store_chunk sha now k data m = Some (b, m')" using store_chunk_returns [OF p] by blast
  obtain l' where l': "lru_put now k data (memory_cache m) = Some (b, l')" "memory_cache m' = l'"
    and dw': "disk_writes (disk m')"
    and ix: "disk_index m' = (if disk_cache_path m = '''' then disk_index m else al_put k (size64 data) (disk_index m))"
    and ld: "\<And>j. load_from_disk j m' =
           (if sanitize_chunk_filename j = sanitize_chunk_filename k \<and> disk_cache_path m \<noteq> ''''
            then if fs_read_ok (disk m) (chunk_path (disk_cache_path m) j) then Some data else None
            else load_from_disk j m)"
    by (rule store_chunk_state [OF s dw], rule that, assumption+)
  have mem: "contents l j = Some v \<Longrightarrow> contents (memory_cache m) j = Some v \<or> j = k \<and> v = data" for j v
    using lru_put_le [OF p] by (auto dest!: map_leD split: if_splits)
  have "memory_cache m' = l" using p l' by simp
  moreover have "lru_inv l" using lru_inv_put [OF inv(1) p] .
  moreover have "P j v" if "contents l j = Some v" for j v
    using mem [OF that] assms(1,3) by (auto simp: cache_holds_def)
  moreover have "contents l '''' = None" using mem [of "''''"] inv(2) k by (cases "contents l ''''") auto
  moreover have "P j v" if "al_get (disk_index m') j \<noteq> None" "load_from_disk j m' = Some v" for j v
  proof (cases "disk_cache_path m \<noteq> '''' \<and> sanitize_chunk_filename j = sanitize_chunk_filename k")
    case True
    then have "j \<in> K" using that(1) ix assms(1,2) by (auto simp: cache_holds_def al_get_put split: if_splits)
    then have "j = k" using True assms(1,2) by (auto simp: cache_holds_def dest: inj_onD)
    then show ?thesis using True ld [of j] that(2) assms(3) by (auto split: if_splits)
  next
    case False
    then have "load_from_disk j m = Some v" and "al_get (disk_index m) j \<noteq> None"
      using that ld [of j] ix by (auto simp: al_get_put split: if_splits)
    then show ?thesis using assms(1) by (auto simp: cache_holds_def)
  qed
  ultimately have "cache_holds P K m'"
    using assms(1,2) dw' ix by (auto simp: cache_holds_def al_get_put split: if_splits)
  then show ?thesis using s by blast
qed

lemma get_chunk_returns:
  assumes "lru_inv (memory_cache m)" and "contents (memory_cache m) '''' = None" and "k \<noteq> ''''"
  shows "\<exists>r m'. get_chunk now k m = Some (r, m')"
proof -
  define l where "l = snd (lru_get now k (snd (lru_get now k (memory_cache m))))"
  have "\<exists>b t. lru_put now k data l = Some (b, t)" for data
    by (rule lru_put_returns_nonempty) (use assms in \<open>simp_all add: l_def lru_inv_get lru_get_keeps\<close>)
  then have "get_chunk now k m \<noteq> None"
    unfolding get_chunk_def Let_def case_prod_unfold l_def [symmetric]
    by (auto split: option.split) (metis option.distinct(1))
  then show ?thesis by (metis option.exhaust surj_pair)
qed

lemma cache_holds_get:
  assumes "cache_holds P K m" and "k \<noteq> ''''"
  shows "\<exists>r m'. get_chunk now k m = Some (r, m') \<and> cache_holds P K m' \<and> (\<forall>c. r = Some c \<longrightarrow> P k (ck_data c))"
proof -
  obtain r m' where g: "get_chunk now k m = Some (r, m')"
    using get_chunk_returns [of m k now] assms by (auto simp: cache_holds_def)
  from g have "cache_holds P K m' \<and> (\<forall>c. r = Some c \<longrightarrow> P k (ck_data c))"
  proof (cases rule: get_chunk_cases)
    case (hit l)
    then show ?thesis using assms by (auto simp: cache_holds_def same_tier_def)
  next
    case (gone l)
    then show ?thesis using assms by (auto simp: cache_holds_def same_tier_def al_get_del)
  next
    case (promoted l data)
    have mem: "contents l j = Some v \<Longrightarrow> contents (memory_cache m) j = Some v \<or> j = k \<and> v = data" for j v
      using promoted(6) by (auto dest!: map_leD split: if_splits)
    have d: "P k data" using assms(1) promoted(4,5) by (auto simp: cache_holds_def)
    have e: "contents l '''' = None" using mem [of "''''"] assms by (cases "contents l ''''") (auto simp: cache_holds_def)
    have c: "P j v" if "contents l j = Some v" for j v using mem [OF that] d assms(1) by (auto simp: cache_holds_def)
    then show ?thesis using promoted(1,2,7) assms e by (auto simp: cache_holds_def same_tier_def)
  qed
  then show ?thesis using g by blast
qed


section \<open>Steps that return and keep an invariant\<close>

definition ensures :: "('h \<Rightarrow> bool) \<Rightarrow> ('a, 'h) io \<Rightarrow> ('a \<Rightarrow> bool) \<Rightarrow> bool" where
  "ensures H f Q \<longleftrightarrow> (\<forall>h. H h \<longrightarrow> (\<exists>a h'. f h = Some (Done a, h') \<and> H h' \<and> Q a))"

lemma ensuresD: "ensures H f Q \<Longrightarrow> H h \<Longrightarrow> \<exists>a h'. f h = Some (Done a, h') \<and> H h' \<and> Q a"
  by (simp add: ensures_def)

lemma ensures_return [intro]: "Q a \<Longrightarrow> ensures H (return_io a) Q"
  by (simp add: ensures_def return_io_def)

lemma ensures_bind:
  assumes "ensures H f Q" and "\<And>a. Q a \<Longrightarrow> ensures H (g a) R"
  shows "ensures H (bind_io f g) R"
  unfolding ensures_def
proof (intro allI impI)
  fix h assume "H h"
  then obtain a h1 where "f h = Some (Done a, h1)" "H h1" "Q a" using ensuresD [OF assms(1)] by blast
  then show "\<exists>b h'. bind_io f g h = Some (Done b, h') \<and> H h' \<and> R b"
    using ensuresD [OF assms(2)] by (auto simp: bind_io_def)
qed

lemma ensures_cond:
  assumes "\<And>h. H h \<Longrightarrow> f h = g h \<or> f h = g' h" and "ensures H g Q" and "ensures H g' Q"
  shows "ensures H f Q"
  using assms unfolding ensures_def by metis

lemma ensures_weaken: "ensures H f Q \<Longrightarrow> (\<And>a. Q a \<Longrightarrow> R a) \<Longrightarrow> ensures H f R"
  unfolding ensures_def by blast

section \<open>The object behind a cache key\<close>

text \<open>
  \<open>slice_of obj a b\<close> are the bytes from \<open>a\<close> up to but not including \<open>b\<close>.
\<close>

definition slice_of :: "bytes \<Rightarrow> nat \<Rightarrow> nat \<Rightarrow> bytes" where
  "slice_of obj a b = take (b - a) (drop a obj)"

abbreviation CS :: nat where
  "CS \<equiv> 16777216"

definition origin_chunk :: "bytes \<Rightarrow> nat \<Rightarrow> bytes" where
  "origin_chunk obj i = take CS (drop (i * CS) obj)"

definition chunk_key :: "CacheKeyInfo \<Rightarrow> nat \<Rightarrow> string" where
  "chunk_key info i = ci_full_object_key info @ ''_'' @ to_string i"

definition object_keys :: "CacheKeyInfo \<Rightarrow> string set" where
  "object_keys info = insert (meta_key info) (range (chunk_key info))"

text \<open>What a true copy is: of a chunk, its bytes; of the metadata, one that gives the true size.\<close>

definition honest :: "CacheKeyInfo \<Rightarrow> bytes \<Rightarrow> string \<Rightarrow> bytes \<Rightarrow> bool" where
  "honest info obj k v \<longleftrightarrow>
     (\<forall>i. k = chunk_key info i \<longrightarrow> v = origin_chunk obj i) \<and>
     (k = meta_key info \<longrightarrow> (\<forall>o'. parse_meta (to_str v) = Some o' \<longrightarrow> oi_size o' = size64 obj))"

definition origin_serves :: "'w proxy_env \<Rightarrow> CacheKeyInfo \<Rightarrow> bytes \<Rightarrow> bool" where
  "origin_serves env info obj \<longleftrightarrow>
     (\<exists>sc. pe_storage env = Some sc \<and>
        (\<forall>w. \<exists>md w'. head_object sc (ci_bucket info) (ci_object_key info) w = (Some md, w') \<and> om_size md = size64 obj) \<and>
        (\<forall>w off len. 0 < unat len \<and> unat off + unat len \<le> length obj \<longrightarrow>
           (\<exists>w'. get_object sc (ci_bucket info) (ci_object_key info) off len w =
                  (Some (take (unat len) (drop (unat off) obj)), w'))))"

definition peers_honest :: "'w proxy_env \<Rightarrow> CacheKeyInfo \<Rightarrow> bytes \<Rightarrow> bool" where
  "peers_honest env info obj \<longleftrightarrow>
     (\<forall>req w. \<exists>d w'. p2p_download (pe_p2p env) req w = (Returned d, w') \<and>
        (\<forall>bs. d = Some bs \<and> bs \<noteq> [] \<longrightarrow> honest info obj (rq_chunk_id req) bs))"

definition handler_ok :: "CacheKeyInfo \<Rightarrow> bytes \<Rightarrow> string set \<Rightarrow> 'w RequestHandler \<Rightarrow> bool" where
  "handler_ok info obj K h \<longleftrightarrow>
     object_keys info \<subseteq> K \<and> (case rh_cache_manager h of None \<Rightarrow> True | Some m \<Rightarrow> cache_holds (honest info obj) K m)"

lemma key_nonempty [simp]: "meta_key info \<noteq> ''''" "chunk_key info i \<noteq> ''''"
  by (simp_all add: meta_key_def chunk_key_def)

lemma chunk_key_inj [simp]: "chunk_key info i = chunk_key info j \<longleftrightarrow> i = j"
  by (simp add: chunk_key_def)

lemma chunk_key_not_meta [simp]: "chunk_key info i \<noteq> meta_key info" "meta_key info \<noteq> chunk_key info i"
proof -
  have "isdigit (last (to_string i))" by (rule to_string_isdigit [of _ i]) simp
  then have "isdigit (last (chunk_key info i))" by (simp add: chunk_key_def)
  moreover have "\<not> isdigit (last (meta_key info))" by (simp add: meta_key_def isdigit_def)
  ultimately show "chunk_key info i \<noteq> meta_key info" "meta_key info \<noteq> chunk_key info i" by metis+
qed

lemma honest_chunk [simp]: "honest info obj (chunk_key info i) v \<longleftrightarrow> v = origin_chunk obj i"
  by (auto simp: honest_def)

lemma honest_meta:
  "honest info obj (meta_key info) v \<longleftrightarrow> (\<forall>o'. parse_meta (to_str v) = Some o' \<longrightarrow> oi_size o' = size64 obj)"
  by (auto simp: honest_def)

lemma parse_serialize_size: "parse_meta (serialize_meta o1) = Some o2 \<Longrightarrow> oi_size o2 = oi_size o1"
  using strtoull_to_string [of "unat (oi_size o1)" "'' '' @ r" for r] unsigned_less [of "oi_size o1", where ?'a = nat]
  by (auto simp: parse_meta_def serialize_meta_def isdigit_def split: option.splits list.splits)

lemma honest_serialize: "oi_size o1 = size64 obj \<Longrightarrow> honest info obj (meta_key info) (to_bytes (serialize_meta o1))"
  by (auto simp: honest_meta dest: parse_serialize_size)

lemma handler_ok_world [simp]: "handler_ok info obj K (h\<lparr>rh_world := w\<rparr>) = handler_ok info obj K h"
  by (simp add: handler_ok_def)

text \<open>The calls of the handler.\<close>

lemma cache_get_ensures:
  assumes "k \<noteq> ''''"
  shows "ensures (handler_ok info obj K) (cache_get env k) (\<lambda>d. \<forall>v. d = Some v \<longrightarrow> honest info obj k v)"
  unfolding ensures_def
proof (intro allI impI)
  fix h :: "'a RequestHandler" assume h: "handler_ok info obj K h"
  show "\<exists>a h'. cache_get env k h = Some (Done a, h') \<and> handler_ok info obj K h' \<and> (\<forall>v. a = Some v \<longrightarrow> honest info obj k v)"
  proof (cases "rh_cache_manager h")
    case None
    with h show ?thesis by (simp add: cache_get_def)
  next
    case (Some m)
    then have "cache_holds (honest info obj) K m" using h by (simp add: handler_ok_def)
    from cache_holds_get [OF this assms, of "pe_now env (rh_world h)"] Some h show ?thesis
      by (auto simp: cache_get_def handler_ok_def)
  qed
qed

lemma cache_store_ensures:
  assumes "k \<in> object_keys info" and "honest info obj k v"
  shows "ensures (handler_ok info obj K) (cache_store env k v) (\<lambda>_. True)"
  unfolding ensures_def
proof (intro allI impI)
  fix h :: "'a RequestHandler" assume h: "handler_ok info obj K h"
  show "\<exists>a h'. cache_store env k v h = Some (Done a, h') \<and> handler_ok info obj K h' \<and> True"
  proof (cases "rh_cache_manager h")
    case None
    with h show ?thesis by (simp add: cache_store_def)
  next
    case (Some m)
    then have "cache_holds (honest info obj) K m" "k \<in> K" using h assms(1) by (auto simp: handler_ok_def)
    from cache_holds_store [OF this assms(2), of "pe_sha env" "pe_now env (rh_world h)"] Some h show ?thesis
      by (auto simp: cache_store_def handler_ok_def)
  qed
qed

lemma peer_download_ensures:
  assumes "peers_honest env info obj"
  shows "ensures (handler_ok info obj K) (peer_download env req)
    (\<lambda>d. \<forall>v. d = Some v \<and> v \<noteq> [] \<longrightarrow> honest info obj (rq_chunk_id req) v)"
  unfolding ensures_def
proof (intro allI impI)
  fix h :: "'a RequestHandler" assume "handler_ok info obj K h"
  moreover obtain d w' where "p2p_download (pe_p2p env) req (rh_world h) = (Returned d, w')"
    and "\<forall>bs. d = Some bs \<and> bs \<noteq> [] \<longrightarrow> honest info obj (rq_chunk_id req) bs"
    using assms unfolding peers_honest_def by blast
  ultimately show "\<exists>a h'. peer_download env req h = Some (Done a, h') \<and> handler_ok info obj K h' \<and>
      (\<forall>v. a = Some v \<and> v \<noteq> [] \<longrightarrow> honest info obj (rq_chunk_id req) v)"
    by (simp add: peer_download_def)
qed

lemma announce_ensures: "ensures (handler_ok info obj K) (announce_local env k) (\<lambda>_. True)"
  by (simp add: ensures_def announce_local_def)

lemma origin_head_ensures:
  assumes "origin_serves env info obj"
  shows "ensures (handler_ok info obj K) (origin_head env (ci_bucket info) (ci_object_key info))
    (\<lambda>d. \<exists>md. d = Some md \<and> om_size md = size64 obj)"
  unfolding ensures_def
proof (intro allI impI)
  fix h :: "'a RequestHandler" assume "handler_ok info obj K h"
  moreover obtain sc md w' where "pe_storage env = Some sc" "om_size md = size64 obj"
      "head_object sc (ci_bucket info) (ci_object_key info) (rh_world h) = (Some md, w')"
    using assms unfolding origin_serves_def by blast
  ultimately show "\<exists>a h'. origin_head env (ci_bucket info) (ci_object_key info) h = Some (Done a, h') \<and> handler_ok info obj K h' \<and>
      (\<exists>md. a = Some md \<and> om_size md = size64 obj)"
    by (simp add: origin_head_def)
qed

lemma origin_get_ensures:
  assumes "origin_serves env info obj" and "unat off + unat len \<le> length obj" and "0 < unat len"
  shows "ensures (handler_ok info obj K) (origin_get env (ci_bucket info) (ci_object_key info) off len)
    (\<lambda>d. d = Some (take (unat len) (drop (unat off) obj)))"
  unfolding ensures_def
proof (intro allI impI)
  fix h :: "'a RequestHandler" assume "handler_ok info obj K h"
  moreover obtain sc w' where "pe_storage env = Some sc"
      "get_object sc (ci_bucket info) (ci_object_key info) off len (rh_world h) = (Some (take (unat len) (drop (unat off) obj)), w')"
    using assms unfolding origin_serves_def by blast
  ultimately show "\<exists>a h'. origin_get env (ci_bucket info) (ci_object_key info) off len h = Some (Done a, h') \<and>
      handler_ok info obj K h' \<and> a = Some (take (unat len) (drop (unat off) obj))"
    by (simp add: origin_get_def)
qed


section \<open>Fetching\<close>

lemma store_meta_ensures:
  assumes "oi_size o1 = size64 obj"
  shows "ensures (handler_ok info obj K)
    (bind_io (cache_store env (meta_key info) (to_bytes (serialize_meta o1))) (\<lambda>_. announce_local env (meta_key info))) (\<lambda>_. True)"
  using assms by (intro ensures_bind [OF cache_store_ensures] announce_ensures honest_serialize) (simp_all add: object_keys_def)

lemma object_info_from_origin_ensures:
  assumes "origin_serves env info obj"
  shows "ensures (handler_ok info obj K) (object_info_from_origin env info) (\<lambda>d. \<exists>o1. d = Some o1 \<and> oi_size o1 = size64 obj)"
proof -
  have c: "ensures (handler_ok info obj K) (\<lambda>h. if rh_cache_manager h = None then return_io () h
      else bind_io (cache_store env (meta_key info) (to_bytes (serialize_meta o1))) (\<lambda>_. announce_local env (meta_key info)) h) (\<lambda>_. True)"
    if "oi_size o1 = size64 obj" for o1
    by (rule ensures_cond [OF _ ensures_return [of "\<lambda>_. True" "()"] store_meta_ensures [OF that]]) auto
  show ?thesis
    unfolding object_info_from_origin_def Let_def
    by (rule ensures_bind [OF origin_head_ensures [OF assms]]) (auto intro!: ensures_bind [OF c] ensures_return)
qed

lemma object_info_from_peers_ensures:
  assumes "origin_serves env info obj" and "peers_honest env info obj"
  shows "ensures (handler_ok info obj K) (object_info_from_peers env info) (\<lambda>d. \<exists>o1. d = Some o1 \<and> oi_size o1 = size64 obj)"
proof -
  note org = object_info_from_origin_ensures [OF assms(1)]
  have "ensures (handler_ok info obj K) (bind_io (peer_download env (meta_request info)) (\<lambda>d.
             case (case d of None \<Rightarrow> None | Some bs \<Rightarrow> if bs = [] then None else map_option (\<lambda>obj. (bs, obj)) (parse_meta (to_str bs))) of
               Some (bs, obj) \<Rightarrow> bind_io (cache_store env (meta_key info) bs) (\<lambda>_. return_io (Some obj))
             | None \<Rightarrow> object_info_from_origin env info)) (\<lambda>d. \<exists>o1. d = Some o1 \<and> oi_size o1 = size64 obj)"
  proof (rule ensures_bind [OF peer_download_ensures [OF assms(2)]])
    fix d :: "bytes option" assume d: "\<forall>v. d = Some v \<and> v \<noteq> [] \<longrightarrow> honest info obj (rq_chunk_id (meta_request info)) v"
    have "ensures (handler_ok info obj K) (bind_io (cache_store env (meta_key info) bs) (\<lambda>_. return_io (Some o1)))
        (\<lambda>d. \<exists>o1. d = Some o1 \<and> oi_size o1 = size64 obj)"
      if "d = Some bs" "bs \<noteq> []" "parse_meta (to_str bs) = Some o1" for bs o1
    proof -
      have "honest info obj (meta_key info) bs" using d that by (simp add: meta_request_def)
      then have "oi_size o1 = size64 obj" using that(3) by (simp add: honest_meta)
      then show ?thesis
        by (intro ensures_bind [OF cache_store_ensures] ensures_return) (simp_all add: object_keys_def \<open>honest info obj (meta_key info) bs\<close>)
    qed
    then show "ensures (handler_ok info obj K)
        (case (case d of None \<Rightarrow> None | Some bs \<Rightarrow> if bs = [] then None else map_option (\<lambda>obj. (bs, obj)) (parse_meta (to_str bs))) of
               Some (bs, obj) \<Rightarrow> bind_io (cache_store env (meta_key info) bs) (\<lambda>_. return_io (Some obj))
             | None \<Rightarrow> object_info_from_origin env info) (\<lambda>d. \<exists>o1. d = Some o1 \<and> oi_size o1 = size64 obj)"
      using org by (auto split: option.split)
  qed
  from ensures_cond [OF _ this org] show ?thesis by (simp add: object_info_from_peers_def)
qed

lemma get_object_info_ensures:
  assumes "origin_serves env info obj" and "peers_honest env info obj"
  shows "ensures (handler_ok info obj K) (get_object_info env info) (\<lambda>d. \<exists>o1. d = Some o1 \<and> oi_size o1 = size64 obj)"
  unfolding get_object_info_def
  by (rule ensures_bind [OF cache_get_ensures])
    (auto simp: honest_meta intro!: object_info_from_peers_ensures [OF assms] split: option.split)

lemma anchor_hash_size: "anchor_hash i x o1 = Some o2 \<Longrightarrow> oi_size o2 = oi_size o1"
  by (auto simp: anchor_hash_def Let_def split: if_splits)

lemma update_meta_ensures:
  assumes "oi_size o1 = size64 obj"
  shows "ensures (handler_ok info obj K) (update_meta env info o1 i data) (\<lambda>_. True)"
  unfolding update_meta_def
proof (rule ensures_bind [OF cache_get_ensures])
  fix d assume d: "\<forall>v. d = Some v \<longrightarrow> honest info obj (meta_key info) v"
  define cur where "cur = (case d of None \<Rightarrow> o1 | Some d \<Rightarrow> (case parse_meta (to_str d) of None \<Rightarrow> o1 | Some c \<Rightarrow> c))"
  have "oi_size cur = size64 obj" using d assms by (auto simp: cur_def honest_meta split: option.split)
  then have "ensures (handler_ok info obj K)
      (case anchor_hash (unat i) (pe_sha env data) cur of
            None \<Rightarrow> return_io ()
          | Some obj1 \<Rightarrow> bind_io (cache_store env (meta_key info) (to_bytes (serialize_meta obj1))) (\<lambda>_. announce_local env (meta_key info)))
      (\<lambda>_. True)"
    by (auto split: option.split intro!: store_meta_ensures dest: anchor_hash_size)
  then show "ensures (handler_ok info obj K)
      (let cur = (case d of None \<Rightarrow> o1 | Some d \<Rightarrow> (case parse_meta (to_str d) of None \<Rightarrow> o1 | Some c \<Rightarrow> c))
       in case anchor_hash (unat i) (pe_sha env data) cur of
            None \<Rightarrow> return_io ()
          | Some obj1 \<Rightarrow> bind_io (cache_store env (meta_key info) (to_bytes (serialize_meta obj1)))
                            (\<lambda>_. announce_local env (meta_key info))) (\<lambda>_. True)"
    by (simp add: cur_def Let_def)
qed simp


text \<open>The numbers of a chunk inside the object: nothing wraps.\<close>

lemma chunk_size_nat [simp]: "unat chunk_size = CS"
  by (simp add: chunk_size_def)

lemma chunk_offset:
  assumes "n * CS < length obj" and "length obj < 2 ^ 64"
  shows "unat (of_nat n * chunk_size) = n * CS" and "unat (of_nat n :: u64) = n"
proof -
  have n: "n < 2 ^ 64" using assms by simp
  then show 1: "unat (of_nat n :: u64) = n" by (simp add: unat_of_nat take_bit_nat_eq_self)
  have "n * CS < 2 ^ 64" using assms by linarith
  then show "unat (of_nat n * chunk_size) = n * CS"
    using 1 by (simp add: unat_word_ariths take_bit_nat_eq_self)
qed

lemma chunk_want_nat:
  assumes "n * CS < length obj" and "length obj < 2 ^ 64" and "oi_size o1 = size64 obj"
  shows "unat (chunk_want o1 (of_nat n)) = min CS (length obj - n * CS)"
proof -
  note off = chunk_offset [OF assms(1,2)]
  have sz: "unat (size64 obj) = length obj" using assms(2) by (simp add: size64_def unat_of_nat take_bit_nat_eq_self)
  have "of_nat n * chunk_size \<le> size64 obj" using off sz assms(1) by (simp add: word_le_nat_alt)
  then have "unat (size64 obj - of_nat n * chunk_size) = length obj - n * CS" using off sz by (simp add: unat_sub)
  then show ?thesis using assms(3) by (simp add: chunk_want_def min_def word_le_nat_alt)
qed

lemma chunk_id_key:
  assumes "n * CS < length obj" and "length obj < 2 ^ 64"
  shows "compute_chunk_id (ci_full_object_key info) (of_nat n * chunk_size) chunk_size = Some (chunk_key info n)"
proof -
  have "chunk_size \<noteq> 0" by (simp add: chunk_size_def)
  then show ?thesis using chunk_offset [OF assms] by (simp add: compute_chunk_id_def chunk_key_def)
qed

lemma chunk_from_storage_ensures:
  assumes "origin_serves env info obj" and "oi_size o1 = size64 obj" and "n * CS < length obj" and "length obj < 2 ^ 64"
  shows "ensures (handler_ok info obj K) (chunk_from_storage env info o1 (of_nat n) (chunk_key info n))
    (\<lambda>(d, src). d = Some (origin_chunk obj n))"
proof -
  note off = chunk_offset [OF assms(3,4)] chunk_want_nat [OF assms(3,4,2)]
  have le: "unat (of_nat n * chunk_size) + unat (chunk_want o1 (of_nat n)) \<le> length obj" using off assms(3) by simp
  have pos: "0 < unat (chunk_want o1 (of_nat n))" using off assms(3) by simp
  have oc: "take (min CS (length obj - n * CS)) (drop (n * CS) obj) = origin_chunk obj n"
    by (simp add: origin_chunk_def min_def)
  have st: "ensures (handler_ok info obj K) (bind_io (cache_store env (chunk_key info n) (origin_chunk obj n))
      (\<lambda>_. update_meta env info o1 (of_nat n) (origin_chunk obj n))) (\<lambda>_. True)"
    by (intro ensures_bind [OF cache_store_ensures] update_meta_ensures [OF assms(2)]) (simp_all add: object_keys_def)
  have c: "ensures (handler_ok info obj K) (\<lambda>h. if rh_cache_manager h = None then return_io () h
      else bind_io (cache_store env (chunk_key info n) (origin_chunk obj n))
        (\<lambda>_. update_meta env info o1 (of_nat n) (origin_chunk obj n)) h) (\<lambda>_. True)"
    by (rule ensures_cond [OF _ ensures_return [of "\<lambda>_. True" "()"] st]) auto
  show ?thesis
    unfolding chunk_from_storage_def
    by (rule ensures_bind [OF origin_get_ensures [OF assms(1) le pos]])
      (auto simp: off oc intro!: ensures_bind [OF c] ensures_bind [OF announce_ensures] ensures_return)
qed

lemma chunk_from_peers_ensures:
  assumes "origin_serves env info obj" and "peers_honest env info obj" and "oi_size o1 = size64 obj"
    and "n * CS < length obj" and "length obj < 2 ^ 64"
  shows "ensures (handler_ok info obj K) (chunk_from_peers env info o1 (of_nat n) (chunk_key info n))
    (\<lambda>(d, src). d = Some (origin_chunk obj n))"
proof -
  note st = chunk_from_storage_ensures [OF assms(1,3,4,5)]
  have "ensures (handler_ok info obj K) (bind_io (peer_download env (chunk_request info o1 (of_nat n) (chunk_key info n))) (\<lambda>d.
             case d of
               None \<Rightarrow> chunk_from_storage env info o1 (of_nat n) (chunk_key info n)
             | Some data \<Rightarrow>
                 if data = [] then chunk_from_storage env info o1 (of_nat n) (chunk_key info n)
                 else bind_io (cache_store env (chunk_key info n) data) (\<lambda>_.
                        bind_io (announce_local env (chunk_key info n)) (\<lambda>_. return_io (Some data, FromPeers)))))
      (\<lambda>(d, src). d = Some (origin_chunk obj n))"
  proof (rule ensures_bind [OF peer_download_ensures [OF assms(2)]])
    fix d :: "bytes option"
    assume "\<forall>v. d = Some v \<and> v \<noteq> [] \<longrightarrow> honest info obj (rq_chunk_id (chunk_request info o1 (of_nat n) (chunk_key info n))) v"
    then have "d = Some v \<Longrightarrow> v \<noteq> [] \<Longrightarrow> v = origin_chunk obj n" for v by (simp add: chunk_request_def)
    moreover have "ensures (handler_ok info obj K) (bind_io (cache_store env (chunk_key info n) (origin_chunk obj n)) (\<lambda>_.
        bind_io (announce_local env (chunk_key info n)) (\<lambda>_. return_io (Some (origin_chunk obj n), FromPeers))))
        (\<lambda>(d, src). d = Some (origin_chunk obj n))"
      by (intro ensures_bind [OF cache_store_ensures] ensures_bind [OF announce_ensures] ensures_return) (simp_all add: object_keys_def)
    ultimately show "ensures (handler_ok info obj K)
          (case d of
               None \<Rightarrow> chunk_from_storage env info o1 (of_nat n) (chunk_key info n)
             | Some data \<Rightarrow>
                 if data = [] then chunk_from_storage env info o1 (of_nat n) (chunk_key info n)
                 else bind_io (cache_store env (chunk_key info n) data) (\<lambda>_.
                        bind_io (announce_local env (chunk_key info n)) (\<lambda>_. return_io (Some data, FromPeers))))
      (\<lambda>(d, src). d = Some (origin_chunk obj n))"
      using st by (cases d) auto
  qed
  from ensures_cond [OF _ this st] show ?thesis by (simp add: chunk_from_peers_def)
qed

lemma fetch_chunk_ensures:
  assumes "origin_serves env info obj" and "peers_honest env info obj" and "oi_size o1 = size64 obj"
    and "n * CS < length obj" and "length obj < 2 ^ 64"
  shows "ensures (handler_ok info obj K) (fetch_chunk env info o1 (of_nat n)) (\<lambda>(d, src). d = Some (origin_chunk obj n))"
  unfolding fetch_chunk_def chunk_id_key [OF assms(4,5)] option.case
  by (rule ensures_bind [OF cache_get_ensures])
    (auto split: option.split intro!: chunk_from_peers_ensures [OF assms] ensures_return)

section \<open>Assembling\<close>

lemma slice_append: "a \<le> b \<Longrightarrow> b \<le> c \<Longrightarrow> slice_of obj a b @ slice_of obj b c = slice_of obj a c"
proof -
  assume ab: "a \<le> b" and bc: "b \<le> c"
  then have "drop b obj = drop (b - a) (drop a obj)" and "c - a = (b - a) + (c - b)" by simp_all
  then show ?thesis by (simp only: slice_of_def take_add)
qed

text \<open>The part of chunk \<open>n\<close> in the range from \<open>a\<close> to \<open>b\<close>, as a slice of the object.\<close>

definition part_of :: "bytes \<Rightarrow> nat \<Rightarrow> nat \<Rightarrow> nat \<Rightarrow> bytes" where
  "part_of obj a b n = slice_of obj (max a (n * CS)) (min (b + 1) ((n + 1) * CS))"

lemma parts_concat:
  assumes "a \<le> b" and "a div CS < m" and "m \<le> Suc (b div CS)"
  shows "concat (map (part_of obj a b) [a div CS..<m]) = slice_of obj a (min (b + 1) (m * CS))"
  using assms(2,3)
proof (induction m)
  case (Suc m)
  show ?case
  proof (cases "a div CS = m")
    case True
    then have "m * CS \<le> a" by (metis div_times_less_eq_dividend)
    then show ?thesis using True by (simp add: part_of_def max_def)
  next
    case False
    with Suc have lt: "a div CS < m" and le: "m \<le> b div CS" by auto
    have "m * CS \<le> b" using le by (metis div_le_mono div_times_less_eq_dividend le_trans mult_le_mono1)
    moreover have "a < m * CS" using lt by (simp add: div_less_iff_less_mult)
    ultimately have pm: "part_of obj a b m = slice_of obj (m * CS) (min (b + 1) (Suc m * CS))"
      and mn: "min (b + 1) (m * CS) = m * CS"
      and app: "slice_of obj a (m * CS) @ slice_of obj (m * CS) (min (b + 1) (Suc m * CS)) = slice_of obj a (min (b + 1) (Suc m * CS))"
      by (simp_all add: part_of_def max_def slice_append)
    have ih: "concat (map (part_of obj a b) [a div CS..<m]) = slice_of obj a (m * CS)"
      using Suc.IH lt le unfolding mn by simp
    have "[a div CS..<Suc m] = [a div CS..<m] @ [m]" using lt by simp
    then show ?thesis by (simp only: map_append concat_append list.map concat.simps append_Nil2 pm ih app)
  qed
qed simp


lemma slice_of_chunk: "s \<le> e \<Longrightarrow> e \<le> CS \<Longrightarrow> take (e - s) (drop s (origin_chunk obj n)) = slice_of obj (n * CS + s) (n * CS + e)"
  by (simp add: slice_of_def origin_chunk_def drop_take min_def add.commute)

lemma chunk_bounds:
  assumes "a div CS \<le> n" and "n \<le> b div CS" and "a \<le> b" and "b < length obj"
  shows "(if n = a div CS then a mod CS else 0) = max a (n * CS) - n * CS"
    and "(if n = b div CS then b mod CS + 1 else length (origin_chunk obj n)) = min (b + 1) (Suc n * CS) - n * CS"
    and "max a (n * CS) < min (b + 1) (Suc n * CS)" and "min (b + 1) (Suc n * CS) - n * CS \<le> length (origin_chunk obj n)"
proof -
  have a: "a = a div CS * CS + a mod CS" "a mod CS < CS" and b: "b = b div CS * CS + b mod CS" "b mod CS < CS" by simp_all
  have an: "a < Suc n * CS" using assms(1) by (metis a(1) div_less_iff_less_mult le_imp_less_Suc zero_less_numeral)
  have nb: "n * CS \<le> b" using assms(2) by (metis div_times_less_eq_dividend le_trans mult_le_mono1)
  have later: "Suc n * CS \<le> b" if "n \<noteq> b div CS"
  proof -
    have "Suc n \<le> b div CS" using that assms(2) by simp
    then show ?thesis by (metis div_times_less_eq_dividend le_trans mult_le_mono1)
  qed
  have earlier: "a < n * CS" if "n \<noteq> a div CS"
    using that assms(1) by (simp add: div_less_iff_less_mult [symmetric])
  show "(if n = a div CS then a mod CS else 0) = max a (n * CS) - n * CS"
    using earlier by (cases "n = a div CS") (simp_all add: max_absorb1 max_absorb2 minus_div_mult_eq_mod)
  show len: "(if n = b div CS then b mod CS + 1 else length (origin_chunk obj n)) = min (b + 1) (Suc n * CS) - n * CS"
    using b later assms(4) by (cases "n = b div CS") (auto simp: min_def origin_chunk_def Suc_diff_le minus_div_mult_eq_mod)
  show "max a (n * CS) < min (b + 1) (Suc n * CS)" using an nb assms(3) by (auto simp: max_def min_def)
  show "min (b + 1) (Suc n * CS) - n * CS \<le> length (origin_chunk obj n)"
    using assms(4) nb by (auto simp: min_def origin_chunk_def)
qed

lemma trim_origin_chunk:
  assumes "unat (br_start rng) div CS \<le> n" and "n \<le> unat (br_end rng) div CS" and "unat (br_start rng) \<le> unat (br_end rng)"
    and "unat (br_end rng) < length obj" and "length obj < 2 ^ 64"
  shows "trim_chunk rng (br_start rng div chunk_size) (br_end rng div chunk_size) (of_nat n) (origin_chunk obj n) =
    Done (part_of obj (unat (br_start rng)) (unat (br_end rng)) n)"
proof -
  let ?a = "unat (br_start rng)" and ?b = "unat (br_end rng)"
  note bd = chunk_bounds [OF assms(1-4)]
  have "n < 2 ^ 64" using assms(2,4,5) div_le_dividend [of ?b CS] by linarith
  then have n: "unat (of_nat n :: u64) = n" by (simp add: unat_of_nat take_bit_nat_eq_self)
  have eqs: "of_nat n = br_start rng div chunk_size \<longleftrightarrow> n = ?a div CS" "of_nat n = br_end rng div chunk_size \<longleftrightarrow> n = ?b div CS"
    using n by (auto simp: word_unat_eq_iff unat_div)
  have bgn: "(if of_nat n = br_start rng div chunk_size then unat (br_start rng mod chunk_size) else 0) = max ?a (n * CS) - n * CS"
    using bd(1) by (simp only: eqs unat_mod chunk_size_nat)
  have finish: "(if of_nat n = br_end rng div chunk_size then unat (br_end rng mod chunk_size) + 1 else length (origin_chunk obj n)) =
      min (?b + 1) (Suc n * CS) - n * CS"
    using bd(2) by (simp only: eqs unat_mod chunk_size_nat)
  define s where "s = max ?a (n * CS) - n * CS"
  define e where "e = min (?b + 1) (Suc n * CS) - n * CS"
  have "s < e" and "e \<le> CS" and "e \<le> length (origin_chunk obj n)" and "n * CS + s = max ?a (n * CS)" and "n * CS + e = min (?b + 1) (Suc n * CS)"
    using bd(3,4) by (auto simp: s_def e_def)
  then show ?thesis
    using slice_of_chunk [of s e obj n]
    unfolding trim_chunk_def Let_def bgn finish s_def [symmetric] e_def [symmetric]
    by (simp add: part_of_def)
qed

lemma assemble_ensures:
  assumes "origin_serves env info obj" and "peers_honest env info obj" and "oi_size o1 = size64 obj" and "length obj < 2 ^ 64"
    and "unat (br_start rng) \<le> unat (br_end rng)" and "unat (br_end rng) < length obj"
    and "set ns \<subseteq> {unat (br_start rng) div CS..unat (br_end rng) div CS}"
  shows "ensures (handler_ok info obj K)
    (assemble env info o1 rng (br_start rng div chunk_size) (br_end rng div chunk_size) ns (body, xc, srcs))
    (\<lambda>r. \<exists>xc' srcs'. r = Some (body @ concat (map (part_of obj (unat (br_start rng)) (unat (br_end rng))) ns), xc', srcs'))"
  using assms(7)
proof (induction ns arbitrary: body xc srcs)
  case Nil
  have "ensures (handler_ok info obj K) (return_io (Some (body, xc, srcs))) (\<lambda>r. \<exists>xc' srcs'. r = Some (body, xc', srcs'))"
    by (rule ensures_return) simp
  then show ?case by (simp add: ensures_def)
next
  case (Cons n ns)
  let ?p = "part_of obj (unat (br_start rng)) (unat (br_end rng))"
  let ?f = "br_start rng div chunk_size" and ?l = "br_end rng div chunk_size"
  have n: "unat (br_start rng) div CS \<le> n" "n \<le> unat (br_end rng) div CS" using Cons.prems by auto
  have "n * CS \<le> unat (br_end rng)" using n(2) by (metis div_times_less_eq_dividend le_trans mult_le_mono1)
  then have len: "n * CS < length obj" using assms(6) by linarith
  let ?g = "\<lambda>(d, src). case d of None \<Rightarrow> return_io None
       | Some data \<Rightarrow>
           (case trim_chunk rng ?f ?l (of_nat n) data of
              Done part \<Rightarrow>
                assemble env info o1 rng ?f ?l ns
                  (body @ part, x_cache_step src xc, srcs @ (if ?f < of_nat n then '','' else '''') @ source_tag (of_nat n) src)
            | Raised \<Rightarrow> (\<lambda>h. Some (Raised, h))
            | Undefined \<Rightarrow> (\<lambda>h. Some (Undefined, h)))"
  have "ensures (handler_ok info obj K) (bind_io (fetch_chunk env info o1 (of_nat n)) ?g)
      (\<lambda>r. \<exists>xc' srcs'. r = Some (body @ concat (map ?p (n # ns)), xc', srcs'))"
  proof (rule ensures_bind [OF fetch_chunk_ensures [OF assms(1,2,3) len assms(4)]])
    fix d :: "bytes option \<times> ChunkSource" assume "case d of (d, src) \<Rightarrow> d = Some (origin_chunk obj n)"
    then obtain src where "d = (Some (origin_chunk obj n), src)" by (cases d) auto
    then have "?g d = assemble env info o1 rng ?f ?l ns
        (body @ ?p n, x_cache_step src xc, srcs @ (if ?f < of_nat n then '','' else '''') @ source_tag (of_nat n) src)"
      using trim_origin_chunk [OF n assms(5,6,4)] by simp
    then show "ensures (handler_ok info obj K) (?g d) (\<lambda>r. \<exists>xc' srcs'. r = Some (body @ concat (map ?p (n # ns)), xc', srcs'))"
      using Cons.IH [of "body @ ?p n"] Cons.prems by simp
  qed
  then show ?case by (simp add: ensures_def)
qed

lemma serve_range_ensures:
  assumes "origin_serves env info obj" and "peers_honest env info obj" and "oi_size o1 = size64 obj" and "length obj < 2 ^ 64"
    and "unat (br_start rng) \<le> unat (br_end rng)" and "unat (br_end rng) < length obj"
  shows "ensures (handler_ok info obj K) (serve_range env info o1 rng is_range)
    (\<lambda>r. rs_status_code r = (if is_range then 206 else 200) \<and>
         rs_body r = slice_of obj (unat (br_start rng)) (unat (br_end rng) + 1))"
proof -
  let ?a = "unat (br_start rng)" and ?b = "unat (br_end rng)"
  let ?ns = "[unat (br_start rng div chunk_size)..<Suc (unat (br_end rng div chunk_size))]"
  have ab: "?a div CS \<le> ?b div CS" using assms(5) by (rule div_le_mono)
  have bm: "?b + 1 \<le> Suc (?b div CS) * CS" using dividend_less_div_times [of CS ?b] by (simp add: Suc_le_eq)
  have c: "concat (map (part_of obj ?a ?b) ?ns) = slice_of obj ?a (?b + 1)"
    using parts_concat [OF assms(5), of "Suc (?b div CS)" obj] ab bm by (simp only: unat_div chunk_size_nat min_absorb1 le_imp_less_Suc order_refl)
  have "set ?ns \<subseteq> {?a div CS..?b div CS}" by (auto simp: unat_div)
  note as = assemble_ensures [OF assms this, of K "[]" "''HIT''" "''''"]
  show ?thesis
    unfolding serve_range_def Let_def
    by (rule ensures_bind [OF as])
      (auto simp: c success_response_def Let_def set_header_def blank_response_def simp del: upt_Suc intro!: ensures_return)
qed


section \<open>Peers that verify\<close>

text \<open>
  What the handler relies on when it downloads from peers: data it asked for by digest have
  that digest. The transfer manager keeps this promise.
\<close>

locale verified_peers =
  fixes env :: "'w proxy_env"
  assumes download_digest: "p2p_download (pe_p2p env) req w = (Returned (Some data), w') \<Longrightarrow>
    rq_expected_sha256 req \<noteq> '''' \<Longrightarrow> pe_sha env data = rq_expected_sha256 req"
begin

lemma peer_download_digest:
  "peer_download env req h = Some (Done (Some data), h') \<Longrightarrow> rq_expected_sha256 req \<noteq> '''' \<Longrightarrow>
   pe_sha env data = rq_expected_sha256 req"
  by (auto simp: peer_download_def split: prod.splits outcome.splits intro: download_digest)

lemma storage_source:
  "chunk_from_storage env info obj i k h = Some (Done (d, src), h') \<Longrightarrow> src = FromStorage"
  by (auto simp: chunk_from_storage_def bind_io_def return_io_def split: option.splits run.splits)

lemma fetched_from_peers:
  assumes "fetch_chunk env info obj i h = Some (Done (Some data, FromPeers), h')"
    and "unat i < length (oi_chunk_hashes obj)" and "oi_chunk_hashes obj ! unat i \<noteq> ''''"
  shows "pe_sha env data = oi_chunk_hashes obj ! unat i"
proof -
  obtain k where k: "compute_chunk_id (ci_full_object_key info) (i * chunk_size) chunk_size = Some k"
    by (simp add: compute_chunk_id_def chunk_size_def)
  then obtain h1 where "chunk_from_peers env info obj i k h1 = Some (Done (Some data, FromPeers), h')"
    using assms(1) by (auto simp: fetch_chunk_def bind_io_def return_io_def split: option.splits run.splits)
  then obtain h2 where "peer_download env (chunk_request info obj i k) h1 = Some (Done (Some data), h2)"
    by (auto simp: chunk_from_peers_def bind_io_def return_io_def dest!: storage_source split: option.splits run.splits if_splits)
  from peer_download_digest [OF this] assms(2,3) show ?thesis by (simp add: chunk_request_def)
qed

end

definition tm_proxy_env ::
    "(bytes \<Rightarrow> bytes) \<Rightarrow> (bytes \<Rightarrow> string) \<Rightarrow> (TransferRequest \<Rightarrow> 's transfer_env) \<Rightarrow> clocks \<Rightarrow> (PeerNode list \<Rightarrow> PeerNode list) \<Rightarrow>
     (TransferManager \<times> NodeDiscovery option) StorageClient option \<Rightarrow> (TransferManager \<times> NodeDiscovery option) proxy_env" where
  "tm_proxy_env sha hex E clk shuffle storage =
     \<lparr>pe_now = (\<lambda>_. wall_sec clk), pe_sha = (\<lambda>d. hex (sha d)),
      pe_p2p = \<lparr>p2p_download = (\<lambda>req (m, nd).
                  case download_chunk ((E req)\<lparr>te_sha := sha, te_hex := hex\<rparr>) clk nd False req m of (r, m') \<Rightarrow> (r, (m', nd))),
                p2p_announce = (\<lambda>k (m, nd). (m, announce_local_chunk shuffle clk k nd))\<rparr>,
      pe_storage = storage\<rparr>"

interpretation tmp: verified_peers "tm_proxy_env sha hex E clk shuffle storage" for sha hex E clk shuffle storage
  by unfold_locales (auto simp: tm_proxy_env_def split: prod.splits dest!: download_chunk_checked)

section \<open>Properties\<close>

lemma range_bounds:
  assumes "br_valid (parse_range_header s n)"
  shows "br_start (parse_range_header s n) \<le> br_end (parse_range_header s n) \<and> br_end (parse_range_header s n) < n"
proof -
  have n: "n \<noteq> 0" using assms by (auto simp: parse_range_header_def blank_range_def)
  then have pos: "0 < unat n" by (simp add: unat_gt_0)
  then have m: "unat (n - 1) = unat n - 1" by (simp add: unat_sub word_le_nat_alt)
  have suffix: "unat (n - min x n) = unat n - min (unat x) (unat n)" for x
    by (simp add: unat_sub min_def word_le_nat_alt)
  have spec: "br_start r \<le> br_end r \<and> br_end r < n" if rv: "r = parse_range_spec a b n" "br_valid r" for r a b
  proof (cases "a = ''''")
    case True
    then obtain x where "r = \<lparr>br_start = n - min x n, br_end = n - 1, br_valid = True\<rparr>" "x \<noteq> 0"
      using rv by (auto simp: parse_range_spec_def blank_range_def split: option.splits if_splits)
    moreover from this have "0 < unat x" by (simp add: unat_gt_0)
    ultimately show ?thesis using pos m suffix [of x] by (simp add: word_le_nat_alt word_less_nat_alt)
  next
    case False
    then obtain x y where r: "r = \<lparr>br_start = x, br_end = y, br_valid = True\<rparr>" "x \<le> y" "y \<le> n - 1"
      using rv by (auto simp: parse_range_spec_def blank_range_def split: option.splits if_splits)
    then have "unat y \<le> unat n - 1" using m by (simp add: word_le_nat_alt)
    then show ?thesis using r pos by (simp add: word_less_nat_alt)
  qed
  have "\<exists>a b. parse_range_header s n = parse_range_spec a b n"
    using assms by (auto simp: parse_range_header_def Let_def blank_range_def split: option.splits if_splits)
  then show ?thesis using spec assms by metis
qed

text \<open>
  Ranges. A range that the parser accepts lies inside the object.
\<close>

theorem parse_range_bounds:
  assumes "br_valid (parse_range_header s n)"
  shows "br_start (parse_range_header s n) \<le> br_end (parse_range_header s n) \<and> br_end (parse_range_header s n) < n"
  using assms by (rule range_bounds)

theorem parse_range_bounds_witness:
  "br_valid (parse_range_header ''bytes=2-500'' 10) \<and> br_start (parse_range_header ''bytes=2-500'' 10) = 2 \<and>
   br_end (parse_range_header ''bytes=2-500'' 10) < 10"
proof -
  have v: "br_valid (parse_range_header ''bytes=2-500'' 10)" and s: "br_start (parse_range_header ''bytes=2-500'' 10) = 2"
    by (simp_all add: parse_range_header_def parse_range_spec_def starts_with_def stoull_def strtoull_def split_sign_def
        isspace_def isdigit_def digits_val_def)
  show ?thesis using v s parse_range_bounds [OF v] by simp
qed


lemma to_string_no: "\<not> isdigit c \<Longrightarrow> c \<notin> set (to_string n)"
  using to_string_isdigit by blast

lemma find_no [simp]: "find_char (CHR '','') (to_string n) = None" "find_char (CHR ''-'') (to_string n) = None"
  by (simp_all add: find_char_None to_string_no isdigit_def)

lemma range_header_parts:
  assumes "CHR '','' \<notin> set a" and "CHR '','' \<notin> set b" and "CHR ''-'' \<notin> set a" and "n \<noteq> 0"
  shows "parse_range_header (''bytes='' @ a @ ''-'' @ b) n = parse_range_spec a b n"
proof -
  have "find_char (CHR '','') (a @ ''-'' @ b) = None" using assms by (simp add: find_char_None)
  moreover have "find_char (CHR ''-'') (a @ ''-'' @ b) = Some (length a)" using assms by (simp add: find_char_append)
  ultimately show ?thesis using assms(4) by (simp add: parse_range_header_def starts_with_def)
qed

text \<open>
  C36. Ranges, printed and parsed. The three forms of a range header that clients send are
  parsed to the bytes they name, cut at the end of the object.
\<close>

theorem parse_range_roundtrip:
  assumes "a \<le> b" and "a < n" and "n < 2 ^ 64" and "b < 2 ^ 64"
  shows "parse_range_header (''bytes='' @ to_string a @ ''-'' @ to_string b) (of_nat n) =
      \<lparr>br_start = of_nat a, br_end = of_nat (min b (n - 1)), br_valid = True\<rparr> \<and>
    parse_range_header (''bytes='' @ to_string a @ ''-'') (of_nat n) =
      \<lparr>br_start = of_nat a, br_end = of_nat (n - 1), br_valid = True\<rparr> \<and>
    (0 < b \<longrightarrow> parse_range_header (''bytes=-'' @ to_string b) (of_nat n) =
      \<lparr>br_start = of_nat (n - min b n), br_end = of_nat (n - 1), br_valid = True\<rparr>)"
proof -
  let ?n = "of_nat n :: u64"
  have un: "unat (of_nat x :: u64) = x" if "x < 2 ^ 64" for x using that by (simp add: unat_of_nat take_bit_nat_eq_self)
  have n0: "?n \<noteq> 0" using un [OF assms(3)] assms(2) by (metis not_less_zero unat_0)
  have n1: "?n - 1 = of_nat (n - 1)" using assms(2) by (simp add: of_nat_diff)
  have mb: "min (of_nat b) (of_nat (n - 1)) = (of_nat (min b (n - 1)) :: u64)"
    using un [of b] un [of "n - 1"] assms by (simp add: min_def word_le_nat_alt)
  have mn: "?n - min (of_nat b) ?n = of_nat (n - min b n)"
    using un [of b] un [of n] assms by (simp add: min_def word_le_nat_alt of_nat_diff)
  have ord: "(of_nat a :: u64) < ?n" "(of_nat a :: u64) \<le> of_nat (min b (n - 1))" "(of_nat a :: u64) \<le> of_nat (n - 1)"
    "(of_nat a :: u64) \<le> of_nat b"
    using un [of a] un [of b] un [of n] un [of "n - 1"] un [of "min b (n - 1)"] assms by (auto simp: word_le_nat_alt word_less_nat_alt)
  have b0: "0 < b \<Longrightarrow> (of_nat b :: u64) \<noteq> 0" using un [OF assms(4)] by (metis less_numeral_extra(3) unat_0)
  have st: "stoull (to_string a) = Some (of_nat a)" "stoull (to_string b) = Some (of_nat b)"
    using assms by (simp_all add: stoull_to_string)
  note h = range_header_parts [of "to_string a" _ ?n] range_header_parts [of "''''" "to_string b" ?n]
  show ?thesis
    using h(1) [of "to_string b"] h(1) [of "''''"] h(2) n0 n1 mb mn ord st b0
    by (auto simp: to_string_no isdigit_def parse_range_spec_def)
qed

theorem parse_range_roundtrip_witness:
  "parse_range_header (''bytes='' @ to_string 2 @ ''-'' @ to_string 500) (of_nat 10) =
     \<lparr>br_start = of_nat 2, br_end = of_nat (min 500 (10 - 1)), br_valid = True\<rparr>"
  using parse_range_roundtrip [of 2 500 10] by simp

lemma words_space: "isspace c \<Longrightarrow> words (c # s) = words s"
  by (subst (1 2) words.simps) simp

lemma words_Nil [simp]: "words [] = []"
  by (subst words.simps) simp

lemma words_token:
  assumes "t \<noteq> []" and "\<forall>c\<in>set t. \<not> isspace c" and "r = [] \<or> isspace (hd r)"
  shows "words (t @ r) = t # words r"
proof -
  have "dropWhile isspace (t @ r) = t @ r" using assms(1,2) by (cases t) simp_all
  moreover have "takeWhile (\<lambda>c. \<not> isspace c) (t @ r) = t" "dropWhile (\<lambda>c. \<not> isspace c) (t @ r) = r"
    using assms(2,3) by (cases r; simp add: takeWhile_append2 dropWhile_append2)+
  ultimately show ?thesis using assms(1) by (subst words.simps) simp
qed

lemma words_join:
  assumes "\<forall>t\<in>set ts. \<forall>c\<in>set t. \<not> isspace c"
  shows "words (concat (map ((#) (CHR '' '')) ts)) = filter (\<lambda>t. t \<noteq> []) ts"
  using assms
proof (induction ts)
  case (Cons t ts)
  let ?r = "concat (map ((#) (CHR '' '')) ts)"
  have "?r = [] \<or> isspace (hd ?r)" by (cases ts) (simp_all add: isspace_def)
  then have "words (t @ ?r) = (if t = [] then words ?r else t # words ?r)" using Cons.prems words_token [of t ?r] by simp
  then show ?case using Cons by (simp add: words_space isspace_def)
qed simp

lemma parse_serialize:
  assumes "\<forall>t\<in>set (oi_etag obj # oi_chunk_hashes obj). \<forall>c\<in>set t. \<not> isspace c"
  shows "parse_meta (serialize_meta obj) =
    (case filter (\<lambda>t. t \<noteq> '''') (oi_etag obj # oi_chunk_hashes obj) of
       [] \<Rightarrow> Some \<lparr>oi_size = oi_size obj, oi_etag = '''', oi_chunk_hashes = []\<rparr>
     | e # hs \<Rightarrow> Some \<lparr>oi_size = oi_size obj, oi_etag = e, oi_chunk_hashes = hs\<rparr>)"
proof -
  let ?r = "concat (map ((#) (CHR '' '')) (oi_etag obj # oi_chunk_hashes obj))"
  have "strtoull (serialize_meta obj) = Some (oi_size obj, ?r)"
    using strtoull_to_string [of "unat (oi_size obj)" ?r] unsigned_less [of "oi_size obj", where ?'a = nat]
    by (simp add: serialize_meta_def isdigit_def)
  then show ?thesis unfolding parse_meta_def using words_join [OF assms] by (simp split: list.split)
qed

text \<open>
  C37. Metadata, printed and parsed. For fields without white space, a metadata record comes back as it was
  written exactly when no chunk hash is empty and an empty etag has no chunk hashes after it: an empty
  field leaves no word in the text, so it is lost and the fields after it move up by one.
\<close>

theorem meta_roundtrip:
  assumes "\<forall>t\<in>set (oi_etag obj # oi_chunk_hashes obj). \<forall>c\<in>set t. \<not> isspace c"
  shows "(parse_meta (serialize_meta obj) = Some obj) \<longleftrightarrow>
    '''' \<notin> set (oi_chunk_hashes obj) \<and> (oi_etag obj = '''' \<longrightarrow> oi_chunk_hashes obj = [])"
proof -
  have flt: "filter (\<lambda>t. t \<noteq> '''') hs = hs \<longleftrightarrow> '''' \<notin> set hs" for hs :: "string list"
    by (auto simp: filter_id_conv)
  show ?thesis
  proof (cases "oi_etag obj = ''''")
    case False
    then have "parse_meta (serialize_meta obj) = Some (obj\<lparr>oi_chunk_hashes := filter (\<lambda>t. t \<noteq> '''') (oi_chunk_hashes obj)\<rparr>)"
      using parse_serialize [OF assms] by simp
    then show ?thesis using False flt [of "oi_chunk_hashes obj"] by (cases obj) simp
  next
    case True
    show ?thesis
    proof (cases "filter (\<lambda>t. t \<noteq> '''') (oi_chunk_hashes obj)")
      case Nil
      then show ?thesis using True parse_serialize [OF assms] by (cases obj) auto
    next
      case (Cons e hs)
      then have "e \<noteq> ''''" by (metis (mono_tags, lifting) filter_eq_Cons_iff)
      moreover from Cons have "oi_chunk_hashes obj \<noteq> []" by auto
      ultimately show ?thesis using True Cons parse_serialize [OF assms] by (cases obj) auto
    qed
  qed
qed

theorem meta_roundtrip_witness:
  "parse_meta (serialize_meta \<lparr>oi_size = 20, oi_etag = ''e'', oi_chunk_hashes = [''a'', ''b'']\<rparr>) =
     Some \<lparr>oi_size = 20, oi_etag = ''e'', oi_chunk_hashes = [''a'', ''b'']\<rparr>"
  using meta_roundtrip [of "\<lparr>oi_size = 20, oi_etag = ''e'', oi_chunk_hashes = [''a'', ''b'']\<rparr>"] by (simp add: isspace_def)

text \<open>
  Hashes out of order. When a chunk other than the first is the first one fetched from the
  origin, its hash is written to its own slot and read back as the hash of chunk 0.
\<close>

theorem out_of_order_hash_misplaced:
  assumes "0 < i" and "x \<noteq> ''''" and "oi_etag obj \<noteq> ''''" and "oi_chunk_hashes obj = []"
    and "\<forall>c\<in>set (oi_etag obj @ x). \<not> isspace c"
  shows "\<exists>o1 o2. anchor_hash i x obj = Some o1 \<and> oi_chunk_hashes o1 ! i = x \<and>
    parse_meta (serialize_meta o1) = Some o2 \<and> oi_chunk_hashes o2 = [x]"
proof -
  let ?hs = "replicate i '''' @ [x]"
  let ?o = "obj\<lparr>oi_chunk_hashes := ?hs\<rparr>"
  have up: "(replicate (Suc i) '''')[i := x] = ?hs"
    by (simp add: replicate_append_same [symmetric] list_update_append)
  have "anchor_hash i x obj = Some ?o"
    using assms(4) up by (simp add: anchor_hash_def Let_def del: replicate_Suc)
  moreover have "parse_meta (serialize_meta ?o) = Some (?o\<lparr>oi_chunk_hashes := [x]\<rparr>)"
    using assms by (subst parse_serialize) (auto simp: in_set_replicate)
  moreover have "?hs ! i = x" by (simp add: nth_append)
  ultimately show ?thesis by auto
qed

theorem out_of_order_hash_misplaced_witness:
  "\<exists>o1 o2. anchor_hash 3 ''ff'' \<lparr>oi_size = 99, oi_etag = ''e'', oi_chunk_hashes = []\<rparr> = Some o1 \<and> oi_chunk_hashes o1 ! 3 = ''ff'' \<and>
    parse_meta (serialize_meta o1) = Some o2 \<and> oi_chunk_hashes o2 = [''ff'']"
  by (rule out_of_order_hash_misplaced) (simp_all add: isspace_def)


text \<open>The chunk and metadata keys of one object have distinct file names.\<close>

lemma sanitize_suffix:
  assumes "\<forall>c\<in>set t. safe_char c" and "c \<in> set t" and "c \<noteq> CHR ''.''"
  shows "sanitize_chunk_filename (k @ t) = map (\<lambda>c. if safe_char c then c else CHR ''_'') k @ t"
proof -
  let ?f = "\<lambda>c. if safe_char c then c else CHR ''_''"
  have "map ?f t = t" using assms(1) by (simp add: map_idI)
  then have out: "map ?f (k @ t) = map ?f k @ t" by simp
  have c: "c \<in> set (map ?f k @ t)" using assms(2) by simp
  have "map ?f k @ t \<noteq> []" using assms(2) by auto
  moreover have "map ?f k @ t \<noteq> ''.''" using c assms(3) by (metis empty_iff empty_set insert_iff list.set(2))
  moreover have "map ?f k @ t \<noteq> ''..''" using c assms(3) by (metis empty_iff empty_set insert_iff list.set(2))
  ultimately show ?thesis unfolding sanitize_chunk_filename_def Let_def out by simp
qed

lemma unat_pred: "n \<noteq> 0 \<Longrightarrow> unat (n - 1 :: u64) = unat n - 1"
  by (simp add: unat_sub word_le_nat_alt Suc_le_eq unat_gt_0)

lemma sanitize_object_key:
  "sanitize_chunk_filename (chunk_key info i) =
     map (\<lambda>c. if safe_char c then c else CHR ''_'') (ci_full_object_key info) @ ''_'' @ to_string i"
  "sanitize_chunk_filename (meta_key info) =
     map (\<lambda>c. if safe_char c then c else CHR ''_'') (ci_full_object_key info) @ ''#meta''"
proof -
  let ?t = "''_'' @ to_string i"
  have "\<forall>c\<in>set ?t. safe_char c" by (auto simp: safe_char_def isalnum_def dest: to_string_isdigit)
  then show "sanitize_chunk_filename (chunk_key info i) =
     map (\<lambda>c. if safe_char c then c else CHR ''_'') (ci_full_object_key info) @ ''_'' @ to_string i"
    using sanitize_suffix [of ?t "CHR ''_''" "ci_full_object_key info"] by (simp add: chunk_key_def)
  have "\<forall>c\<in>set ''#meta''. safe_char c" by (simp add: safe_char_def isalnum_def islower_def)
  then show "sanitize_chunk_filename (meta_key info) =
     map (\<lambda>c. if safe_char c then c else CHR ''_'') (ci_full_object_key info) @ ''#meta''"
    using sanitize_suffix [of "''#meta''" "CHR ''#''" "ci_full_object_key info"] by (simp add: meta_key_def)
qed

lemma object_keys_inj: "inj_on sanitize_chunk_filename (object_keys info)"
proof -
  have "''_'' @ to_string i \<noteq> ''#meta''" for i by simp
  then show ?thesis
    unfolding inj_on_def object_keys_def by (auto simp: sanitize_object_key)
qed

text \<open>The answer that a \<open>GET\<close> of an object should have.\<close>

definition answers :: "HttpRequest \<Rightarrow> bytes \<Rightarrow> HttpResponse \<Rightarrow> bool" where
  "answers r obj rs \<longleftrightarrow>
    (if has_header ''Range'' r
     then let rng = parse_range_header (get_header ''Range'' r) (size64 obj)
          in if br_valid rng
             then rs_status_code rs = 206 \<and> rs_body rs = slice_of obj (unat (br_start rng)) (unat (br_end rng) + 1)
             else rs_status_code rs = 416 \<and> rs_body rs = []
     else rs_status_code rs = 200 \<and> rs_body rs = obj)"

lemma unat_size64: "length obj < 2 ^ 64 \<Longrightarrow> unat (size64 obj) = length obj"
  by (simp add: size64_def unat_of_nat take_bit_nat_eq_self)

lemma serve_object_ensures:
  assumes "hr_method r = ''GET''" and "origin_serves env info obj" and "peers_honest env info obj"
    and "0 < length obj" and "length obj < 2 ^ 64" and o1: "oi_size o1 = size64 obj"
  shows "ensures (handler_ok info obj K) (serve_object env r info o1) (answers r obj)"
proof (cases "has_header ''Range'' r")
  case True
  let ?rng = "parse_range_header (get_header ''Range'' r) (size64 obj)"
  show ?thesis
  proof (cases "br_valid ?rng")
    case valid: True
    have "unat (br_start ?rng) \<le> unat (br_end ?rng)" "unat (br_end ?rng) < length obj"
      using range_bounds [OF valid] unat_size64 [OF assms(5)] by (simp_all add: word_le_nat_alt word_less_nat_alt)
    from serve_range_ensures [OF assms(2,3) o1 assms(5) this, of K True] show ?thesis
      using True valid assms(1) o1 by (simp add: serve_object_def answers_def [abs_def] Let_def)
  qed (use True assms(1) o1 in \<open>auto simp: serve_object_def answers_def set_header_def blank_response_def intro!: ensures_return\<close>)
next
  case False
  have pos: "size64 obj \<noteq> 0" using unat_size64 [OF assms(5)] assms(4) by (metis less_irrefl unat_0)
  let ?all = "\<lparr>br_start = 0, br_end = size64 obj - 1, br_valid = True\<rparr>"
  have e: "unat (br_end ?all) = length obj - 1" using pos unat_size64 [OF assms(5)] by (simp add: unat_pred)
  have "ensures (handler_ok info obj K) (serve_range env info o1 ?all False)
      (\<lambda>r. rs_status_code r = (if False then 206 else 200) \<and> rs_body r = slice_of obj (unat (br_start ?all)) (unat (br_end ?all) + 1))"
    by (rule serve_range_ensures [OF assms(2,3) o1 assms(5)]) (use e assms(4) in simp_all)
  then show ?thesis
    using False pos assms(1,4) o1 e by (simp add: serve_object_def slice_of_def answers_def [abs_def] Let_def)
qed

text \<open>A \<open>GET\<close> from the first guard to the response.\<close>

lemma get_request_answered:
  assumes "hr_method r = ''GET''" and "parse_cache_key r = Some info"
    and "rh_allowed_bucket h = '''' \<or> rh_allowed_bucket h = ci_bucket info"
    and "origin_serves env info obj" and "peers_honest env info obj" and "handler_ok info obj K h"
    and "0 < length obj" and "length obj < 2 ^ 64"
  shows "\<exists>rs h'. handle_request env r h = Some (Done rs, h') \<and> handler_ok info obj K h' \<and> answers r obj rs"
proof -
  let ?f = "bind_io (get_object_info env info) (\<lambda>o'.
      case o' of
        None \<Rightarrow> return_io (text_response 404 ''Not Found'' (''Object not found: '' @ ci_full_object_key info))
      | Some obj \<Rightarrow> serve_object env r info obj)"
  have hr: "handle_request env r h = ?f h" using assms(1,2,3) by (auto simp: handle_request_def)
  have "ensures (handler_ok info obj K) ?f (answers r obj)"
  proof (rule ensures_bind [OF get_object_info_ensures [OF assms(4,5)]])
    fix o' :: "ObjectInfo option" assume "\<exists>o1. o' = Some o1 \<and> oi_size o1 = size64 obj"
    then obtain o1 where "o' = Some o1" "oi_size o1 = size64 obj" by blast
    then show "ensures (handler_ok info obj K)
        (case o' of
           None \<Rightarrow> return_io (text_response 404 ''Not Found'' (''Object not found: '' @ ci_full_object_key info))
         | Some obj \<Rightarrow> serve_object env r info obj) (answers r obj)"
      using serve_object_ensures [OF assms(1,4,5,7,8), of o1] by (simp only: option.case)
  qed
  from ensuresD [OF this assms(6)] show ?thesis unfolding hr .
qed

lemmas get_request_served = get_request_answered [unfolded answers_def]

text \<open>
  C1. The proxy serves the object. When the storage origin serves the object, the peers are
  honest about it and the cache holds only true copies, a \<open>GET\<close> returns: status 200 with all
  the bytes of the object, or with a \<open>Range\<close> header status 206 with exactly the bytes of the
  range, or 416 when the range is not inside the object; and the cache holds only true copies
  afterwards. This holds for any mixture of chunks in memory, on disk, at peers and at the origin.
\<close>

theorem proxy_serves_origin:
  assumes "hr_method r = ''GET''" and "parse_cache_key r = Some info"
    and "rh_allowed_bucket h = '''' \<or> rh_allowed_bucket h = ci_bucket info"
    and "origin_serves env info obj" and "peers_honest env info obj" and "handler_ok info obj K h"
    and "0 < length obj" and "length obj < 2 ^ 64"
  shows "\<exists>rs h'. handle_request env r h = Some (Done rs, h') \<and> handler_ok info obj K h' \<and>
    (if has_header ''Range'' r
     then let rng = parse_range_header (get_header ''Range'' r) (size64 obj)
          in if br_valid rng
             then rs_status_code rs = 206 \<and> rs_body rs = slice_of obj (unat (br_start rng)) (unat (br_end rng) + 1)
             else rs_status_code rs = 416 \<and> rs_body rs = []
     else rs_status_code rs = 200 \<and> rs_body rs = obj)"
  by (rule get_request_served [OF assms])

definition ex_storage :: "bytes \<Rightarrow> unit StorageClient" where
  "ex_storage bs = \<lparr>head_object = (\<lambda>b k w. (Some \<lparr>om_size = 3, om_etag = ''e''\<rparr>, w)),
     get_object = (\<lambda>b k off len w. (Some (take (unat len) (drop (unat off) bs)), w))\<rparr>"

definition ex_proxy :: "bytes \<Rightarrow> unit proxy_env" where
  "ex_proxy bs = \<lparr>pe_now = (\<lambda>_. 0), pe_sha = to_str,
     pe_p2p = \<lparr>p2p_download = (\<lambda>req w. (Returned None, w)), p2p_announce = (\<lambda>k w. w)\<rparr>, pe_storage = Some (ex_storage bs)\<rparr>"

definition ex_get :: "(string \<times> string) list \<Rightarrow> HttpRequest" where
  "ex_get hs = \<lparr>hr_method = ''GET'', hr_path = ''/b/x'', hr_query_string = '''', hr_headers = hs\<rparr>"

definition ex_handler :: "unit RequestHandler" where
  "ex_handler = set_transfer_manager True (new_request_handler (Some (new_chunk_manager ex_fs ex_cfg)) ())"

lemma ex_cache_key:
  obtains info where "parse_cache_key (ex_get hs) = Some info" and "ci_bucket info = ''b''"
  by (simp add: parse_cache_key_def ex_get_def substr_def Let_def)

lemma empty_not_key: "'''' \<notin> object_keys info"
  unfolding object_keys_def using key_nonempty by (metis insertE rangeE)

lemma ex_handler_ok: "handler_ok info obj (object_keys info) ex_handler"
proof -
  have "lru_inv (memory_cache (new_chunk_manager ex_fs ex_cfg))"
    using cm_inv_new [OF ex_fs_writes, of "{}" ex_cfg] by (simp add: cm_inv_def)
  then have "cache_holds (honest info obj) (object_keys info) (new_chunk_manager ex_fs ex_cfg)"
    using object_keys_inj [of info] by (auto simp: cache_holds_def new_cm_simps empty_not_key)
  then show ?thesis by (simp add: handler_ok_def ex_handler_def set_transfer_manager_def new_request_handler_def)
qed

theorem proxy_serves_origin_witness:
  "\<exists>rs h'. handle_request (ex_proxy [7, 8, 9]) (ex_get [(''range'', ''bytes=1-1'')]) ex_handler = Some (Done rs, h') \<and>
     rs_status_code rs = 206 \<and> rs_body rs = [8]"
proof -
  let ?r = "ex_get [(''range'', ''bytes=1-1'')]" and ?o = "[7, 8, 9] :: bytes"
  have lower: "tolower (CHR ''R'') = CHR ''r''" "tolower (CHR ''a'') = CHR ''a''" "tolower (CHR ''n'') = CHR ''n''"
      "tolower (CHR ''g'') = CHR ''g''" "tolower (CHR ''e'') = CHR ''e''"
    by code_simp+
  obtain info where info: "parse_cache_key ?r = Some info" by (rule ex_cache_key)
  have org: "origin_serves (ex_proxy ?o) info ?o" and "peers_honest (ex_proxy ?o) info ?o"
    by (auto simp: origin_serves_def peers_honest_def ex_proxy_def ex_storage_def size64_def)
  moreover have "hr_method ?r = ''GET''" "rh_allowed_bucket ex_handler = ''''"
    by (simp_all add: ex_get_def ex_handler_def set_transfer_manager_def new_request_handler_def)
  moreover have "has_header ''Range'' ?r" "get_header ''Range'' ?r = ''bytes=1-1''"
    by (simp_all add: has_header_def get_header_def ex_get_def lower)
  moreover have "parse_range_header ''bytes=1-1'' (size64 ?o) = \<lparr>br_start = 1, br_end = 1, br_valid = True\<rparr>"
    by (simp add: size64_def parse_range_header_def parse_range_spec_def starts_with_def stoull_def strtoull_def split_sign_def
        isspace_def isdigit_def digits_val_def)
  ultimately show ?thesis
    using proxy_serves_origin [OF _ info _ _ _ ex_handler_ok [of info ?o], of "ex_proxy ?o"] by (fastforce simp: slice_of_def)
qed


text \<open>
  C10. Anchored chunks. A chunk that the handler got from peers through the transfer manager has
  the digest that its metadata list for that chunk, whatever the peers sent.
\<close>

theorem fetch_chunk_anchored:
  assumes "fetch_chunk (tm_proxy_env sha hex E clk shuffle storage) info obj i h = Some (Done (Some data, FromPeers), h')"
    and "unat i < length (oi_chunk_hashes obj)" and "oi_chunk_hashes obj ! unat i \<noteq> ''''"
  shows "hex (sha data) = oi_chunk_hashes obj ! unat i"
  using tmp.fetched_from_peers [OF assms] by (simp add: tm_proxy_env_def)

definition ex_peer_env :: "TransferRequest \<Rightarrow> seg_stream transfer_env" where
  "ex_peer_env req = ex_env\<lparr>te_connect := (\<lambda>i a p. Some (ex_end [response_bytes ex_sha (rq_chunk_id req) (Some [1, 2, 3])]))\<rparr>"

definition ex_located :: NodeDiscovery where
  "ex_located = ex_node\<lparr>chunk_locations := [(''b/x_0'', [''n2''])]\<rparr>"

definition ex_info :: CacheKeyInfo where
  "ex_info = \<lparr>ci_bucket = ''b'', ci_object_key = ''x'', ci_full_object_key = ''b/x'', ci_presigned_url = None, ci_auth_header = None,
     ci_etag = None, ci_query_string = '''', ci_auth_type = AuthNone\<rparr>"

definition ex_obj :: ObjectInfo where
  "ex_obj = \<lparr>oi_size = 3, oi_etag = ''e'', oi_chunk_hashes = [to_str (ex_sha [1, 2, 3])]\<rparr>"

lemma ex_chunk_id: "compute_chunk_id (ci_full_object_key ex_info) (0 * chunk_size) chunk_size = Some ''b/x_0''"
proof -
  have "to_string 0 = ''0''" by code_simp
  then show ?thesis by (simp add: compute_chunk_id_def chunk_size_def ex_info_def)
qed

lemma ex_peer_attempt:
  assumes "ctx_chunk_id ctx = rq_chunk_id req" and "\<not> ctx_stop_flag ctx" and "length (rq_chunk_id req) \<le> 256"
  shows "fst (attempt (ex_peer_env req) (to_str (ex_sha [1, 2, 3])) ctx i p l) = \<lparr>success = True, bytes_downloaded = 3, dl_data = [1, 2, 3]\<rparr>"
proof -
  let ?s = "ex_end [response_bytes ex_sha (rq_chunk_id req) (Some [1, 2, 3])]"
  have p: "seg_pending ?s = response_bytes ex_sha (rq_chunk_id req) (Some [1, 2, 3]) @ []" by (simp add: ex_end_def seg_pending_def)
  obtain l' s' where "download_from_peer seg_ops ex_sha to_str Little (\<lambda>_. 0) (\<lambda>_. False) (rq_chunk_id req) (ctx_is_resume ctx)
       (to_str (ex_sha [1, 2, 3])) l (Some ?s) =
       (\<lparr>success = True, bytes_downloaded = length [1, 2, 3 :: byte], dl_data = [1, 2, 3]\<rparr>, l', Some s')"
    using seg.download_gets [OF seg_writable p, where stop = "\<lambda>_. False" and expected = "to_str (ex_sha [1, 2, 3])" and hex = to_str] assms(3)
    by fastforce
  then show ?thesis using assms by (simp add: attempt_def ex_peer_env_def ex_env_def)
qed

lemma ex_peer_download:
  assumes "req = chunk_request ex_info ex_obj 0 ''b/x_0''"
  shows "fst (download_chunk (ex_peer_env req) ex_clk (Some ex_located) False req ex_tm) = Returned (Some [1, 2, 3])"
proof -
  have x: "rq_expected_sha256 req = to_str (ex_sha [1, 2, 3])" and i: "rq_chunk_id req = ''b/x_0''" and src: "rq_sources req = []"
    and md: "rq_mode req = FastestFirst" and kv: "rq_k_value req = 3"
    using assms by (simp_all add: chunk_request_def ex_obj_def)
  have "get_peers_with_chunk ex_clk ''b/x_0'' ex_located = [ex_peer]"
    by (simp add: get_peers_with_chunk_def ex_located_def ex_node_def new_node_discovery_def is_active_def wall_sec_def ex_clk_def ex_peer_def)
  then have cs: "candidate_peers ex_clk (Some ex_located) req = [ex_peer]" by (simp add: candidate_peers_def src i)
  have "get_transfer_context (rq_chunk_id req) ex_tm = None"
    by (simp add: get_transfer_context_def ex_tm_def new_transfer_manager_def)
  note c = opened_new [OF this, of "ex_peer_env req"]
  have ch: "chosen (ex_peer_env req) ex_clk (Some ex_located) req ex_tm = [ex_peer]"
    by (simp add: chosen_def cs md kv select_k_peers_def ex_peer_env_def ex_env_def insertion_sort_def min_def)
  have "fst (raced (ex_peer_env req) ex_clk (Some ex_located) req ex_tm) = Some \<lparr>success = True, bytes_downloaded = 3, dl_data = [1, 2, 3]\<rparr>"
    using ex_peer_attempt c by (simp add: raced_def hedged_download_def ch case_prod_unfold x i)
  moreover have "tm_running ex_tm" and "fs_remove_ok (tm_fs ex_tm) p" for p
    by (simp_all add: ex_tm_def new_transfer_manager_def ex_fs_def)
  ultimately show ?thesis
    using cs by (simp add: download_chunk_cases [OF _ _ refl refl] finish_download_result resumed_def opened_frame ex_peer_env_def ex_env_def bump_stats_def)
qed

theorem fetch_chunk_anchored_witness:
  "\<exists>data h'. fetch_chunk (tm_proxy_env ex_sha to_str ex_peer_env ex_clk (\<lambda>xs. xs) None) ex_info ex_obj 0
       (set_transfer_manager True (new_request_handler None (ex_tm, Some ex_located))) = Some (Done (Some data, FromPeers), h') \<and>
     to_str (ex_sha data) = to_str (ex_sha [1, 2, 3])"
proof -
  define e where "e = tm_proxy_env ex_sha to_str ex_peer_env ex_clk (\<lambda>xs. xs) None"
  define h where "h = set_transfer_manager True (new_request_handler None (ex_tm, Some ex_located))"
  define req where "req = chunk_request ex_info ex_obj 0 ''b/x_0''"
  have h: "rh_cache_manager h = None" "rh_transfer_manager h" "rh_enable_p2p_fallback h" "rh_world h = (ex_tm, Some ex_located)"
    by (simp_all add: h_def set_transfer_manager_def new_request_handler_def)
  have same: "(ex_peer_env req)\<lparr>te_sha := ex_sha, te_hex := to_str\<rparr> = ex_peer_env req" by (simp add: ex_peer_env_def ex_env_def)
  obtain w where w: "p2p_download (pe_p2p e) req (ex_tm, Some ex_located) = (Returned (Some [1, 2, 3]), w)"
    using ex_peer_download [OF req_def] by (simp add: e_def tm_proxy_env_def same case_prod_unfold)
  obtain h' where f: "fetch_chunk e ex_info ex_obj 0 h = Some (Done (Some [1, 2, 3], FromPeers), h')"
    unfolding fetch_chunk_def ex_chunk_id option.case
    by (simp add: bind_io_def cache_get_def h chunk_from_peers_def req_def [symmetric] peer_download_def w cache_store_def
        announce_local_def return_io_def)
  have o: "oi_chunk_hashes ex_obj ! unat (0 :: u64) = to_str (ex_sha [1, 2, 3])" and "0 < length (oi_chunk_hashes ex_obj)"
    and "to_str (ex_sha [1, 2, 3]) \<noteq> ''''"
    by (simp_all add: ex_obj_def to_str_def ex_sha_def)
  then have "to_str (ex_sha [1, 2, 3]) = oi_chunk_hashes ex_obj ! unat (0 :: u64)"
    by (intro fetch_chunk_anchored [OF f [unfolded e_def]]) (simp_all only: unat_0 simp_thms)
  then show ?thesis using f unfolding o e_def h_def by blast
qed

text \<open>
  Short chunks. When the chunk that a request needs is shorter than the object's size says,
  as after a wrong copy was stored, the handler copies past the end of the data.
\<close>

theorem short_chunk_undefined:
  assumes "br_start rng div chunk_size = i" and "br_end rng div chunk_size = i" and "br_start rng \<le> br_end rng"
    and "fetch_chunk env info obj i h = Some (Done (Some data, src), h')" and "length data \<le> unat (br_end rng mod chunk_size)"
  shows "serve_range env info obj rng is_range h = Some (Undefined, h')"
proof -
  have "unat (br_start rng) \<le> unat (br_end rng)" using assms(3) by (simp add: word_le_nat_alt)
  moreover have "unat (br_start rng) div CS = unat (br_end rng) div CS"
    using arg_cong [OF assms(1), of unat] arg_cong [OF assms(2), of unat] by (simp add: unat_div)
  ultimately have "unat (br_start rng) mod CS \<le> unat (br_end rng) mod CS"
    by (metis (no_types, lifting) div_mult_mod_eq nat_add_left_cancel_le)
  then have t: "trim_chunk rng i i i data = Undefined" using assms(5) by (simp add: trim_chunk_def unat_mod)
  have "[unat i..<Suc (unat i)] = [unat i]" by simp
  then show ?thesis
    using assms(4) t unfolding serve_range_def Let_def assms(1,2) by (simp add: bind_io_def)
qed

theorem short_chunk_undefined_witness:
  "\<exists>h'. serve_range (ex_proxy [7]) ex_info ex_obj \<lparr>br_start = 0, br_end = 2, br_valid = True\<rparr> False (new_request_handler None ()) = Some (Undefined, h')"
proof -
  have z: "(0 :: u64) div chunk_size = 0" "(2 :: u64) div chunk_size = 0" "(2 :: u64) mod chunk_size = 2" by (simp_all add: chunk_size_def)
  obtain h' where f: "fetch_chunk (ex_proxy [7]) ex_info ex_obj 0 (new_request_handler None ()) = Some (Done (Some [7], FromStorage), h')"
    unfolding fetch_chunk_def ex_chunk_id option.case
    by (simp add: bind_io_def cache_get_def new_request_handler_def chunk_from_peers_def chunk_from_storage_def origin_get_def
        ex_proxy_def ex_storage_def return_io_def announce_local_def ex_obj_def chunk_want_def chunk_size_def)
  show ?thesis
    by (rule exI, rule short_chunk_undefined [OF _ _ _ f]) (simp_all add: z)
qed

text \<open>
  Cache keys. The key of a request is its path without the leading slash, split at the
  first slash into a bucket without slashes and an object key.
\<close>

theorem cache_key_path:
  assumes "parse_cache_key r = Some info"
  shows "CHR ''/'' \<notin> set (ci_bucket info) \<and> ci_full_object_key info = ci_bucket info @ ''/'' @ ci_object_key info \<and>
    (hr_path r = ci_full_object_key info \<or> hr_path r = ''/'' @ ci_full_object_key info)"
proof -
  define p where "p = (if hd (hr_path r) = CHR ''/'' then drop 1 (hr_path r) else hr_path r)"
  obtain n where n: "find_char (CHR ''/'') p = Some n" and b: "ci_bucket info = take n p" and k: "ci_object_key info = drop (n + 1) p"
    and f: "ci_full_object_key info = ci_bucket info @ ''/'' @ ci_object_key info" and ne: "hr_path r \<noteq> ''''"
    using assms by (auto simp: p_def parse_cache_key_def Let_def substr_def split: option.splits if_splits)
  have "p = take n p @ p ! n # drop (Suc n) p" using find_char_bound [OF n] by (metis id_take_nth_drop)
  then have pf: "p = ci_full_object_key info" using find_char_bound [OF n] f b k by simp
  have "hr_path r = (if hd (hr_path r) = CHR ''/'' then ''/'' @ p else p)" using ne unfolding p_def by (cases "hr_path r") auto
  then show ?thesis using find_char_take [OF n] b f pf by metis
qed

theorem cache_key_path_witness:
  "\<exists>info. parse_cache_key (ex_get []) = Some info \<and> CHR ''/'' \<notin> set (ci_bucket info) \<and> hr_path (ex_get []) = ''/b/x''"
proof -
  obtain info where i: "parse_cache_key (ex_get []) = Some info" by (rule ex_cache_key)
  show ?thesis using i cache_key_path [OF i] by (simp add: ex_get_def)
qed

end
