(* ===== verification/Json_Api.thy ===== *)
theory Json_Api
  imports Ieee_Float
begin

text \<open>
  The interface of the JSON library (\<open>nlohmann::json\<close>) that the control plane is written against.
  The library is not part of the sources: its values are a type variable \<open>'j\<close> and the operations
  the code calls are the fields of \<open>json_api\<close>, where \<open>None\<close> is an exception of the library
  (a value that is not an object, a member of another type, a text that does not parse, a string
  that is not UTF-8). \<open>ja_parse\<close> is \<open>json::parse\<close> on a whole text; \<open>ja_read\<close> is the extraction from a stream, which
  takes the value at the front of the text and leaves the rest unread. The locale \<open>json_lib\<close> lists the documented laws the proofs rely on, for
  objects built from an initializer list; \<open>jval_api\<close> is a reference instance of them.
\<close>

section \<open>Operations and laws\<close>

record 'j json_api =
  ja_parse :: "string \<Rightarrow> 'j option"
  ja_read :: "string \<Rightarrow> 'j option"
  ja_dump :: "'j \<Rightarrow> string option"
  ja_dump_indent :: "nat \<Rightarrow> 'j \<Rightarrow> string option"
  ja_object :: "(string \<times> 'j) list \<Rightarrow> 'j"
  ja_array :: "'j list \<Rightarrow> 'j"
  ja_string :: "string \<Rightarrow> 'j"
  ja_unsigned :: "u64 \<Rightarrow> 'j"
  ja_bool :: "bool \<Rightarrow> 'j"
  ja_double :: "fp \<Rightarrow> 'j"
  ja_contains :: "'j \<Rightarrow> string \<Rightarrow> bool"
  ja_at :: "'j \<Rightarrow> string \<Rightarrow> 'j option"
  ja_items :: "'j \<Rightarrow> 'j list"
  ja_get_string :: "'j \<Rightarrow> string option"
  ja_value_string :: "'j \<Rightarrow> string \<Rightarrow> string \<Rightarrow> string option"
  ja_value_int :: "'j \<Rightarrow> string \<Rightarrow> u32 \<Rightarrow> u32 option"
  ja_value_u64 :: "'j \<Rightarrow> string \<Rightarrow> u64 \<Rightarrow> u64 option"
  ja_value_bool :: "'j \<Rightarrow> string \<Rightarrow> bool \<Rightarrow> bool option"
  ja_value_float :: "'j \<Rightarrow> string \<Rightarrow> fp \<Rightarrow> fp option"
  ja_value_double :: "'j \<Rightarrow> string \<Rightarrow> fp \<Rightarrow> fp option"
  ja_value_json :: "'j \<Rightarrow> string \<Rightarrow> 'j \<Rightarrow> 'j option"

text \<open>
  \<open>for (const auto& x : j[k]) v.push_back(x.get<std::string>())\<close> for a member \<open>k\<close> that is there;
  \<open>int\<close> is kept as its 32 bits, and its conversions to \<open>uint16_t\<close> and \<open>uint64_t\<close> are the truncation
  and the sign extension of C++.
\<close>

definition member_items :: "'j json_api \<Rightarrow> 'j \<Rightarrow> string \<Rightarrow> 'j list" where
  "member_items J j k = (case ja_at J j k of None \<Rightarrow> [] | Some v \<Rightarrow> ja_items J v)"

definition read_strings :: "'j json_api \<Rightarrow> 'j \<Rightarrow> string \<Rightarrow> string list option" where
  "read_strings J j k = those (map (ja_get_string J) (member_items J j k))"

definition u16_of_int :: "u32 \<Rightarrow> u16" where
  "u16_of_int i = ucast i"

definition u64_of_int :: "u32 \<Rightarrow> u64" where
  "u64_of_int i = scast i"

locale json_lib =
  fixes J :: "'j json_api"
  assumes contains_object:
      "distinct (map fst kvs) \<Longrightarrow> ja_contains J (ja_object J kvs) k \<longleftrightarrow> k \<in> fst ` set kvs"
    and at_object:
      "distinct (map fst kvs) \<Longrightarrow> map_of kvs k = Some v \<Longrightarrow> ja_at J (ja_object J kvs) k = Some v"
    and items_array: "ja_items J (ja_array J xs) = xs"
    and get_string: "ja_get_string J (ja_string J s) = Some s"
    and value_string:
      "distinct (map fst kvs) \<Longrightarrow> map_of kvs k = Some (ja_string J s) \<Longrightarrow>
         ja_value_string J (ja_object J kvs) k d = Some s"
    and value_int:
      "distinct (map fst kvs) \<Longrightarrow> map_of kvs k = Some (ja_unsigned J n) \<Longrightarrow>
         ja_value_int J (ja_object J kvs) k i = Some (ucast n)"
    and value_u64:
      "distinct (map fst kvs) \<Longrightarrow> map_of kvs k = Some (ja_unsigned J n) \<Longrightarrow>
         ja_value_u64 J (ja_object J kvs) k n' = Some n"
    and value_bool:
      "distinct (map fst kvs) \<Longrightarrow> map_of kvs k = Some (ja_bool J b) \<Longrightarrow>
         ja_value_bool J (ja_object J kvs) k b' = Some b"
    and value_float:
      "distinct (map fst kvs) \<Longrightarrow> map_of kvs k = Some (ja_double J x) \<Longrightarrow> x \<noteq> NaN \<Longrightarrow>
         ja_value_float J (ja_object J kvs) k x' = Some (to_float x)"
    and value_double:
      "distinct (map fst kvs) \<Longrightarrow> map_of kvs k = Some (ja_double J x) \<Longrightarrow> x \<noteq> NaN \<Longrightarrow>
         ja_value_double J (ja_object J kvs) k x' = Some x"
    and value_json:
      "distinct (map fst kvs) \<Longrightarrow> map_of kvs k = Some v \<Longrightarrow>
         ja_value_json J (ja_object J kvs) k w = Some v"
begin

lemma those_get_string: "those (map (ja_get_string J) (map (ja_string J) xs)) = Some xs"
  by (induction xs) (simp_all add: get_string)

lemma read_strings_object:
  "distinct (map fst kvs) \<Longrightarrow> map_of kvs k = Some (ja_array J (map (ja_string J) xs)) \<Longrightarrow>
     read_strings J (ja_object J kvs) k = Some xs"
  using those_get_string [of xs] by (simp add: read_strings_def member_items_def at_object items_array)

lemmas object_reads = contains_object at_object items_array value_string value_int value_u64
  value_bool value_float value_double value_json read_strings_object

end

section \<open>A reference instance\<close>

text \<open>The values JSON has, with the accessors reading them; the text form is left to the caller.\<close>

datatype jval = JNull | JBool bool | JNum u64 | JReal fp | JStr string
  | JArr "jval list" | JObj "(string \<times> jval) list"

fun jmember :: "jval \<Rightarrow> string \<Rightarrow> jval option" where
  "jmember (JObj kvs) k = map_of kvs k"
| "jmember _ k = None"

fun jitems :: "jval \<Rightarrow> jval list" where
  "jitems (JArr xs) = xs"
| "jitems (JObj kvs) = map snd kvs"
| "jitems JNull = []"
| "jitems v = [v]"

fun jstring :: "jval \<Rightarrow> string option" where
  "jstring (JStr s) = Some s"
| "jstring _ = None"

fun jnum :: "jval \<Rightarrow> u64 option" where
  "jnum (JNum n) = Some n"
| "jnum (JBool b) = Some (if b then 1 else 0)"
| "jnum _ = None"

fun jbool :: "jval \<Rightarrow> bool option" where
  "jbool (JBool b) = Some b"
| "jbool _ = None"

fun jreal :: "jval \<Rightarrow> fp option" where
  "jreal (JReal x) = Some x"
| "jreal (JNum n) = Some (double_of_u64 n)"
| "jreal _ = None"

definition jvalue :: "(jval \<Rightarrow> 'a option) \<Rightarrow> jval \<Rightarrow> string \<Rightarrow> 'a \<Rightarrow> 'a option" where
  "jvalue get j k d =
     (case j of JObj kvs \<Rightarrow> (case map_of kvs k of None \<Rightarrow> Some d | Some v \<Rightarrow> get v) | _ \<Rightarrow> None)"

definition jval_api :: "(string \<Rightarrow> jval option) \<Rightarrow> (jval \<Rightarrow> string option) \<Rightarrow> jval json_api" where
  "jval_api parse dump = \<lparr>ja_parse = parse, ja_read = parse, ja_dump = dump, ja_dump_indent = (\<lambda>_. dump), ja_object = JObj, ja_array = JArr,
     ja_string = JStr, ja_unsigned = JNum, ja_bool = JBool, ja_double = JReal,
     ja_contains = (\<lambda>j k. jmember j k \<noteq> None), ja_at = jmember, ja_items = jitems,
     ja_get_string = jstring, ja_value_string = jvalue jstring,
     ja_value_int = jvalue (map_option ucast \<circ> jnum), ja_value_u64 = jvalue jnum,
     ja_value_bool = jvalue jbool, ja_value_float = jvalue (map_option to_float \<circ> jreal),
     ja_value_double = jvalue jreal, ja_value_json = jvalue Some\<rparr>"

interpretation jv: json_lib "jval_api parse dump"
  by unfold_locales (auto simp: jval_api_def jvalue_def map_of_eq_None_iff dest: map_of_SomeD intro: rev_image_eqI
      split: option.splits)

end
