(* ===== verification/Control_Server.thy ===== *)
theory Control_Server
  imports Json_Api Location_Table "HOL-Library.Monad_Syntax"
begin

text \<open>
  The control plane server of \<open>src/control/server.cpp\<close>: the node registry, the chunk location
  index, the replication commands waiting for each node, and the HTTP handlers over them.

  Every handler runs under \<open>nodes_mutex\<close>, so it is one function from the state (and the clock) to
  the state and a response; a response \<open>None\<close> is an exception of the JSON library that leaves the
  handler. The response body is the value the handler builds, and \<open>response_text\<close> its
  document and text. Which handler a
  request reaches is the router's choice and is given by the constructor of \<open>cp_request\<close>.
\<close>

section \<open>Data\<close>

record ChunkLocation =
  cl_chunk_id :: string
  cl_peer_ids :: "string list"

record NodeRegistration =
  nr_node_id :: string
  nr_address :: string
  nr_p2p_port :: u16
  nr_http_port :: u16
  nr_memory_capacity_mb :: u64
  nr_disk_capacity_mb :: u64
  nr_available_chunks :: "string list"

record NodeStatus =
  ns_node_id :: string
  ns_online :: bool
  ns_memory_used_mb :: u64
  ns_disk_used_mb :: u64
  ns_cache_hit_rate :: fp
  ns_total_chunks :: u64
  ns_active_connections :: u64
  ns_upload_speed_mbps :: fp
  ns_download_speed_mbps :: fp
  ns_last_update_time :: u64

definition new_node_status :: NodeStatus where
  "new_node_status = \<lparr>ns_node_id = '''', ns_online = True, ns_memory_used_mb = 0, ns_disk_used_mb = 0,
     ns_cache_hit_rate = Fin 0, ns_total_chunks = 0, ns_active_connections = 0,
     ns_upload_speed_mbps = Fin 0, ns_download_speed_mbps = Fin 0, ns_last_update_time = 0\<rparr>"

record ReplicationCommand =
  rc_command_id :: string
  rc_chunk_id :: string
  rc_action :: string
  rc_source_node_id :: string
  rc_target_node_id :: string
  rc_priority :: u32
  rc_created_at :: u64

record ControlPlaneServerConfig =
  sc_bind_address :: string
  sc_listen_port :: u16
  sc_heartbeat_timeout_sec :: u32
  sc_cleanup_interval_sec :: u32
  sc_max_nodes :: u32
  sc_enable_replica_adjustment :: bool
  sc_min_replicas :: u32
  sc_max_replicas :: u32

record ControlPlaneServerMetrics =
  sm_total_nodes :: u64
  sm_active_nodes :: u64
  sm_total_heartbeats :: u64
  sm_total_chunk_reports :: u64
  sm_total_queries :: u64
  sm_commands_issued :: u64
  sm_replication_decisions :: u64

record NodeInfo =
  ni_registration :: NodeRegistration
  ni_status :: NodeStatus
  ni_last_heartbeat_time :: u64
  ni_online :: bool
  ni_chunks :: "string list"

record PendingCommand =
  pc_cmd :: ReplicationCommand
  pc_delivered_at :: u64

type_synonym chunk_index = "(string \<times> string list) list"

record ControlPlaneServer =
  cs_config :: ControlPlaneServerConfig
  cs_running :: bool
  cs_thread_joinable :: bool
  cs_metrics :: ControlPlaneServerMetrics
  cs_nodes :: "(string \<times> NodeInfo) list"
  cs_chunk_index :: chunk_index
  cs_pending_commands :: "(string \<times> PendingCommand list) list"
  cs_command_sequence :: u64

definition COMMAND_ACK_TIMEOUT_SEC :: u64 where
  "COMMAND_ACK_TIMEOUT_SEC = 60"

definition new_control_server :: "ControlPlaneServerConfig \<Rightarrow> ControlPlaneServer" where
  "new_control_server cfg = \<lparr>cs_config = cfg, cs_running = False, cs_thread_joinable = False,
     cs_metrics = \<lparr>sm_total_nodes = 0, sm_active_nodes = 0, sm_total_heartbeats = 0,
       sm_total_chunk_reports = 0, sm_total_queries = 0, sm_commands_issued = 0,
       sm_replication_decisions = 0\<rparr>,
     cs_nodes = [], cs_chunk_index = [], cs_pending_commands = [], cs_command_sequence = 0\<rparr>"

text \<open>The difference is computed in \<open>uint64_t\<close>: a heartbeat time after \<open>now\<close> wraps around.\<close>

definition is_node_active :: "u64 \<Rightarrow> ControlPlaneServer \<Rightarrow> NodeInfo \<Rightarrow> bool" where
  "is_node_active now s node \<longleftrightarrow>
     now - ni_last_heartbeat_time node \<le> ucast (sc_heartbeat_timeout_sec (cs_config s))"

section \<open>The chunk location index\<close>

definition index_add :: "string \<Rightarrow> string \<Rightarrow> chunk_index \<Rightarrow> chunk_index" where
  "index_add node_id c idx =
     al_put c (List.insert node_id (case al_get idx c of None \<Rightarrow> [] | Some ps \<Rightarrow> ps)) idx"

definition index_remove :: "string \<Rightarrow> string \<Rightarrow> chunk_index \<Rightarrow> chunk_index" where
  "index_remove node_id c idx =
     (case al_get idx c of
        None \<Rightarrow> idx
      | Some ps \<Rightarrow> (let ps' = removeAll node_id ps in if ps' = [] then al_del c idx else al_put c ps' idx))"

definition update_chunk_index_locked :: "string \<Rightarrow> string list \<Rightarrow> bool \<Rightarrow> chunk_index \<Rightarrow> chunk_index" where
  "update_chunk_index_locked node_id chunk_ids add idx =
     fold (if add then index_add node_id else index_remove node_id) chunk_ids idx"

definition locations_of :: "chunk_index \<Rightarrow> string \<Rightarrow> string list" where
  "locations_of idx c = (case al_get idx c of Some ps \<Rightarrow> ps | None \<Rightarrow> [])"

section \<open>Requests and responses\<close>

record node_view =
  nv_registration :: NodeRegistration
  nv_available_chunks :: "string list"
  nv_online :: bool
  nv_status :: "NodeStatus option"

datatype cp_body =
    Error_body string
  | Health_body u64
  | Registered_body string
  | Empty_body
  | Nodes_body "node_view list" nat nat
  | Locations_body "ChunkLocation list"
  | Metrics_body ControlPlaneServerMetrics nat
  | Commands_body "ReplicationCommand list"
  | Ok_body
  | Not_found_body string

record cp_response =
  cr_status :: nat
  cr_body :: cp_body

abbreviation reply :: "nat \<Rightarrow> cp_body \<Rightarrow> cp_response option" where
  "reply st b \<equiv> Some \<lparr>cr_status = st, cr_body = b\<rparr>"

definition parse_json_body :: "'j json_api \<Rightarrow> string \<Rightarrow> 'j" where
  "parse_json_body J body =
     (if body = '''' then ja_object J []
      else case ja_parse J body of Some j \<Rightarrow> j | None \<Rightarrow> ja_object J [])"

text \<open>
  The parameter \<open>:node_id\<close> is cut out of the request path by hand, in four handlers that differ in
  the suffix. The result is empty when the path has no such part.
\<close>

definition path_node_id :: "string \<Rightarrow> string \<Rightarrow> string" where
  "path_node_id suffix req_path =
     (case str_find ''/api/v1/nodes/'' req_path 0 of
        None \<Rightarrow> ''''
      | Some nodes_pos \<Rightarrow>
          (let start = nodes_pos + 15
           in case str_find suffix req_path start of
                None \<Rightarrow> ''''
              | Some e \<Rightarrow> substr req_path start (e - start)))"

section \<open>Registration and heartbeat\<close>

definition read_registration :: "'j json_api \<Rightarrow> 'j \<Rightarrow> NodeRegistration option" where
  "read_registration J body = do {
     node_id \<leftarrow> ja_value_string J body ''node_id'' '''';
     address \<leftarrow> ja_value_string J body ''address'' '''';
     p2p_port \<leftarrow> ja_value_int J body ''p2p_port'' 0;
     http_port \<leftarrow> ja_value_int J body ''http_port'' 0;
     mem \<leftarrow> ja_value_int J body ''memory_capacity_mb'' 0;
     disk \<leftarrow> ja_value_int J body ''disk_capacity_mb'' 0;
     chunks \<leftarrow> (if ja_contains J body ''available_chunks'' then read_strings J body ''available_chunks''
                else Some []);
     Some \<lparr>nr_node_id = node_id, nr_address = address, nr_p2p_port = u16_of_int p2p_port,
       nr_http_port = u16_of_int http_port, nr_memory_capacity_mb = u64_of_int mem,
       nr_disk_capacity_mb = u64_of_int disk, nr_available_chunks = chunks\<rparr> }"

definition new_node_info :: "u64 \<Rightarrow> NodeRegistration \<Rightarrow> NodeInfo" where
  "new_node_info now reg = \<lparr>ni_registration = reg,
     ni_status = new_node_status\<lparr>ns_node_id := nr_node_id reg, ns_online := True\<rparr>,
     ni_last_heartbeat_time = now, ni_online = True, ni_chunks = []\<rparr>"

definition reregister :: "u64 \<Rightarrow> NodeRegistration \<Rightarrow> NodeInfo \<Rightarrow> NodeInfo" where
  "reregister now reg nd = nd\<lparr>ni_registration := reg,
     ni_status := (ni_status nd)\<lparr>ns_node_id := nr_node_id reg\<rparr>,
     ni_last_heartbeat_time := now, ni_online := True\<rparr>"

definition enter_node :: "NodeRegistration \<Rightarrow> NodeInfo \<Rightarrow> ControlPlaneServer \<Rightarrow> ControlPlaneServer" where
  "enter_node reg nd s =
     (let nodes = al_put (nr_node_id reg) nd (cs_nodes s)
      in s\<lparr>cs_nodes := nodes,
           cs_chunk_index :=
             update_chunk_index_locked (nr_node_id reg) (nr_available_chunks reg) True (cs_chunk_index s),
           cs_metrics := (cs_metrics s)\<lparr>sm_total_nodes := of_nat (length nodes)\<rparr>\<rparr>)"

definition register_handler ::
  "'j json_api \<Rightarrow> u64 \<Rightarrow> string \<Rightarrow> ControlPlaneServer \<Rightarrow> ControlPlaneServer \<times> cp_response option" where
  "register_handler J now body_text s =
     (let body = parse_json_body J body_text
      in if \<not> ja_contains J body ''node_id'' \<or> \<not> ja_contains J body ''address''
         then (s, reply 400 (Error_body ''Missing required fields: node_id, address''))
         else case read_registration J body of
                None \<Rightarrow> (s, None)
              | Some reg \<Rightarrow>
                  (case al_get (cs_nodes s) (nr_node_id reg) of
                     Some nd \<Rightarrow> (enter_node reg (reregister now reg nd) s,
                                 reply 201 (Registered_body (nr_node_id reg)))
                   | None \<Rightarrow>
                       if length (cs_nodes s) \<ge> unat (sc_max_nodes (cs_config s))
                       then (s, reply 503 (Error_body ''Maximum node limit reached''))
                       else (enter_node reg (new_node_info now reg) s,
                             reply 201 (Registered_body (nr_node_id reg)))))"

text \<open>
  A heartbeat assigns the fields of the status one after the other; an exception in the middle
  leaves the fields before it assigned.
\<close>

fun assign_all :: "('a \<Rightarrow> 'a option) list \<Rightarrow> 'a \<Rightarrow> 'a \<times> bool" where
  "assign_all [] x = (x, True)"
| "assign_all (f # fs) x = (case f x of None \<Rightarrow> (x, False) | Some y \<Rightarrow> assign_all fs y)"

definition heartbeat_assignments :: "'j json_api \<Rightarrow> 'j \<Rightarrow> (NodeStatus \<Rightarrow> NodeStatus option) list" where
  "heartbeat_assignments J body =
     [\<lambda>st. map_option (\<lambda>v. st\<lparr>ns_online := v\<rparr>) (ja_value_bool J body ''online'' True),
      \<lambda>st. map_option (\<lambda>v. st\<lparr>ns_memory_used_mb := u64_of_int v\<rparr>) (ja_value_int J body ''memory_used_mb'' 0),
      \<lambda>st. map_option (\<lambda>v. st\<lparr>ns_disk_used_mb := u64_of_int v\<rparr>) (ja_value_int J body ''disk_used_mb'' 0),
      \<lambda>st. map_option (\<lambda>v. st\<lparr>ns_cache_hit_rate := v\<rparr>) (ja_value_float J body ''cache_hit_rate'' (Fin 0)),
      \<lambda>st. map_option (\<lambda>v. st\<lparr>ns_total_chunks := u64_of_int v\<rparr>) (ja_value_int J body ''total_chunks'' 0),
      \<lambda>st. map_option (\<lambda>v. st\<lparr>ns_active_connections := u64_of_int v\<rparr>)
             (ja_value_int J body ''active_connections'' 0),
      \<lambda>st. map_option (\<lambda>v. st\<lparr>ns_upload_speed_mbps := v\<rparr>) (ja_value_double J body ''upload_speed_mbps'' (Fin 0)),
      \<lambda>st. map_option (\<lambda>v. st\<lparr>ns_download_speed_mbps := v\<rparr>)
             (ja_value_double J body ''download_speed_mbps'' (Fin 0)),
      \<lambda>st. map_option (\<lambda>v. st\<lparr>ns_last_update_time := u64_of_int v\<rparr>) (ja_value_int J body ''timestamp'' 0)]"

definition heartbeat_handler ::
  "'j json_api \<Rightarrow> u64 \<Rightarrow> string \<Rightarrow> string \<Rightarrow> ControlPlaneServer \<Rightarrow>
     ControlPlaneServer \<times> cp_response option" where
  "heartbeat_handler J now req_path body_text s =
     (let node_id = path_node_id ''/heartbeat'' req_path
      in if node_id = '''' then (s, reply 400 (Error_body ''Invalid path''))
         else let body = parse_json_body J body_text
              in case al_get (cs_nodes s) node_id of
                   None \<Rightarrow> (s, reply 404 (Error_body (''Node not found: '' @ node_id)))
                 | Some nd \<Rightarrow>
                     (case assign_all (heartbeat_assignments J body) (ni_status nd) of
                        (st, False) \<Rightarrow>
                          (s\<lparr>cs_nodes := al_put node_id (nd\<lparr>ni_status := st\<rparr>) (cs_nodes s)\<rparr>, None)
                      | (st, True) \<Rightarrow>
                          (s\<lparr>cs_nodes := al_put node_id
                               (nd\<lparr>ni_status := st, ni_last_heartbeat_time := now, ni_online := True\<rparr>)
                               (cs_nodes s),
                             cs_metrics := (cs_metrics s)\<lparr>sm_total_heartbeats := sm_total_heartbeats (cs_metrics s) + 1\<rparr>\<rparr>,
                           reply 204 Empty_body)))"

section \<open>Chunk reports and queries\<close>

definition report_chunks_handler ::
  "'j json_api \<Rightarrow> string \<Rightarrow> string \<Rightarrow> ControlPlaneServer \<Rightarrow> ControlPlaneServer \<times> cp_response option" where
  "report_chunks_handler J req_path body_text s =
     (let node_id = path_node_id ''/chunks'' req_path
      in if node_id = '''' then (s, reply 400 (Error_body ''Invalid path''))
         else let body = parse_json_body J body_text
              in if \<not> ja_contains J body ''chunk_ids'' then (s, reply 400 (Error_body ''Missing chunk_ids''))
                 else case read_strings J body ''chunk_ids'' of
                        None \<Rightarrow> (s, None)
                      | Some chunk_ids \<Rightarrow>
                          (case al_get (cs_nodes s) node_id of
                             None \<Rightarrow> (s, reply 404 (Error_body (''Node not found: '' @ node_id)))
                           | Some nd \<Rightarrow>
                               (s\<lparr>cs_chunk_index :=
                                    update_chunk_index_locked node_id chunk_ids True
                                      (update_chunk_index_locked node_id (ni_chunks nd) False (cs_chunk_index s)),
                                  cs_nodes := al_put node_id (nd\<lparr>ni_chunks := chunk_ids\<rparr>) (cs_nodes s),
                                  cs_metrics := (cs_metrics s)
                                    \<lparr>sm_total_chunk_reports := sm_total_chunk_reports (cs_metrics s) + 1\<rparr>\<rparr>,
                                reply 204 Empty_body)))"

definition active_nodes :: "u64 \<Rightarrow> ControlPlaneServer \<Rightarrow> nat" where
  "active_nodes now s = length (filter (is_node_active now s \<circ> snd) (cs_nodes s))"

definition view_node :: "u64 \<Rightarrow> ControlPlaneServer \<Rightarrow> NodeInfo \<Rightarrow> node_view" where
  "view_node now s nd = \<lparr>nv_registration = ni_registration nd, nv_available_chunks = ni_chunks nd,
     nv_online = is_node_active now s nd,
     nv_status = (if is_node_active now s nd then Some (ni_status nd) else None)\<rparr>"

definition count_nodes :: "u64 \<Rightarrow> ControlPlaneServer \<Rightarrow> ControlPlaneServer" where
  "count_nodes now s = s\<lparr>cs_metrics := (cs_metrics s)\<lparr>sm_total_nodes := of_nat (length (cs_nodes s)),
     sm_active_nodes := of_nat (active_nodes now s)\<rparr>\<rparr>"

definition query_nodes_handler :: "u64 \<Rightarrow> ControlPlaneServer \<Rightarrow> ControlPlaneServer \<times> cp_response option" where
  "query_nodes_handler now s =
     (count_nodes now s,
      reply 200 (Nodes_body (map (view_node now s \<circ> snd) (cs_nodes s)) (length (cs_nodes s)) (active_nodes now s)))"

definition locate :: "chunk_index \<Rightarrow> string \<Rightarrow> ChunkLocation" where
  "locate idx c = \<lparr>cl_chunk_id = c, cl_peer_ids = locations_of idx c\<rparr>"

definition query_locations_handler ::
  "'j json_api \<Rightarrow> string \<Rightarrow> ControlPlaneServer \<Rightarrow> ControlPlaneServer \<times> cp_response option" where
  "query_locations_handler J body_text s =
     (let body = parse_json_body J body_text
      in if \<not> ja_contains J body ''chunk_ids'' then (s, reply 400 (Error_body ''Missing chunk_ids''))
         else case read_strings J body ''chunk_ids'' of
                None \<Rightarrow> (s, None)
              | Some requested \<Rightarrow>
                  (s\<lparr>cs_metrics := (cs_metrics s)\<lparr>sm_total_queries := sm_total_queries (cs_metrics s) + 1\<rparr>\<rparr>,
                   reply 200 (Locations_body (map (locate (cs_chunk_index s)) requested))))"

definition metrics_handler :: "u64 \<Rightarrow> ControlPlaneServer \<Rightarrow> ControlPlaneServer \<times> cp_response option" where
  "metrics_handler now s =
     (let s' = count_nodes now s
      in (s', reply 200 (Metrics_body (cs_metrics s') (length (cs_chunk_index s)))))"

section \<open>Replication commands\<close>

definition recently_delivered :: "u64 \<Rightarrow> PendingCommand \<Rightarrow> bool" where
  "recently_delivered now p \<longleftrightarrow> pc_delivered_at p \<noteq> 0 \<and> now - pc_delivered_at p < COMMAND_ACK_TIMEOUT_SEC"

fun deliver :: "u64 \<Rightarrow> PendingCommand list \<Rightarrow> PendingCommand list \<times> ReplicationCommand list" where
  "deliver now [] = ([], [])"
| "deliver now (p # ps) =
     (case deliver now ps of (ps', out) \<Rightarrow>
        if recently_delivered now p then (p # ps', out)
        else (p\<lparr>pc_delivered_at := now\<rparr> # ps', pc_cmd p # out))"

definition commands_handler ::
  "u64 \<Rightarrow> string \<Rightarrow> ControlPlaneServer \<Rightarrow> ControlPlaneServer \<times> cp_response option" where
  "commands_handler now req_path s =
     (let node_id = path_node_id ''/commands'' req_path
      in if node_id = '''' then (s, reply 400 (Error_body ''Invalid path''))
         else case al_get (cs_nodes s) node_id of
                None \<Rightarrow> (s, reply 404 (Error_body (''Node not found: '' @ node_id)))
              | Some _ \<Rightarrow>
                  (case al_get (cs_pending_commands s) node_id of
                     None \<Rightarrow> (s, reply 200 (Commands_body []))
                   | Some ps \<Rightarrow>
                       (case deliver now ps of (ps', out) \<Rightarrow>
                          (s\<lparr>cs_pending_commands := al_put node_id ps' (cs_pending_commands s)\<rparr>,
                           reply 200 (Commands_body out)))))"

definition ack_handler ::
  "'j json_api \<Rightarrow> string \<Rightarrow> string \<Rightarrow> ControlPlaneServer \<Rightarrow> ControlPlaneServer \<times> cp_response option" where
  "ack_handler J req_path body_text s =
     (let node_id = path_node_id ''/commands/ack'' req_path
      in case ja_value_string J (parse_json_body J body_text) ''command_id'' '''' of
           None \<Rightarrow> (s, None)
         | Some command_id \<Rightarrow>
             if node_id = '''' \<or> command_id = ''''
             then (s, reply 400 (Error_body ''node_id and command_id are required''))
             else (s\<lparr>cs_pending_commands :=
                       (case al_get (cs_pending_commands s) node_id of
                          None \<Rightarrow> cs_pending_commands s
                        | Some ps \<Rightarrow>
                            (let ps' = filter (\<lambda>p. rc_command_id (pc_cmd p) \<noteq> command_id) ps
                             in if ps' = [] then al_del node_id (cs_pending_commands s)
                                else al_put node_id ps' (cs_pending_commands s)))\<rparr>,
                   reply 200 Ok_body))"

section \<open>The server\<close>

datatype cp_request =
    Health
  | Register string
  | Heartbeat string string
  | Report_chunks string string
  | Query_nodes
  | Query_locations string
  | Get_metrics
  | Get_commands string
  | Ack_command string string
  | Other string

text \<open>The clock counts milliseconds; \<open>/health\<close> reports it so, the other handlers in seconds.\<close>

fun serve :: "'j json_api \<Rightarrow> u64 \<Rightarrow> cp_request \<Rightarrow> ControlPlaneServer \<Rightarrow> ControlPlaneServer \<times> cp_response option" where
  "serve J ms Health s = (s, reply 200 (Health_body ms))"
| "serve J ms (Register body) s = register_handler J (ms div 1000) body s"
| "serve J ms (Heartbeat path body) s = heartbeat_handler J (ms div 1000) path body s"
| "serve J ms (Report_chunks path body) s = report_chunks_handler J path body s"
| "serve J ms Query_nodes s = query_nodes_handler (ms div 1000) s"
| "serve J ms (Query_locations body) s = query_locations_handler J body s"
| "serve J ms Get_metrics s = metrics_handler (ms div 1000) s"
| "serve J ms (Get_commands path) s = commands_handler (ms div 1000) path s"
| "serve J ms (Ack_command path body) s = ack_handler J path body s"
| "serve J ms (Other path) s = (s, reply 404 (Not_found_body path))"

text \<open>
  The address the server binds, with the IPv6-only option where the code sets it. Assigning the
  server thread while the previous one has not been joined terminates the program (\<open>None\<close>).
\<close>

datatype bind_target = Any_ipv4 u16 | Any_ipv6 u16 | Address string u16

definition bind_choice :: "ControlPlaneServerConfig \<Rightarrow> bind_target \<times> bool option" where
  "bind_choice cfg =
     (if sc_bind_address cfg = ''0.0.0.0'' then (Any_ipv4 (sc_listen_port cfg), None)
      else if sc_bind_address cfg = ''::'' \<or> sc_bind_address cfg = '''' then (Any_ipv6 (sc_listen_port cfg), Some False)
      else (Address (sc_bind_address cfg) (sc_listen_port cfg), Some (CHR '':'' \<in> set (sc_bind_address cfg))))"

definition server_start :: "ControlPlaneServer \<Rightarrow> (ControlPlaneServer \<times> bind_target \<times> bool option \<times> bool) option" where
  "server_start s =
     (if cs_thread_joinable s then None
      else Some (s\<lparr>cs_running := True, cs_thread_joinable := True\<rparr>,
                 fst (bind_choice (cs_config s)), snd (bind_choice (cs_config s)), True))"

definition server_stop :: "ControlPlaneServer \<Rightarrow> ControlPlaneServer" where
  "server_stop s = (if cs_running s then s\<lparr>cs_running := False, cs_thread_joinable := False\<rparr> else s)"

definition server_is_running :: "ControlPlaneServer \<Rightarrow> bool" where
  "server_is_running s = cs_running s"

definition server_get_metrics :: "ControlPlaneServer \<Rightarrow> ControlPlaneServerMetrics" where
  "server_get_metrics s = cs_metrics s"

definition server_get_listen_port :: "ControlPlaneServer \<Rightarrow> u16" where
  "server_get_listen_port s = sc_listen_port (cs_config s)"

definition get_node_count :: "ControlPlaneServer \<Rightarrow> nat" where
  "get_node_count s = length (cs_nodes s)"

definition get_active_node_count :: "u64 \<Rightarrow> ControlPlaneServer \<Rightarrow> nat" where
  "get_active_node_count now s = active_nodes now s"

definition get_all_nodes :: "ControlPlaneServer \<Rightarrow> NodeRegistration list" where
  "get_all_nodes s = map (ni_registration \<circ> snd) (cs_nodes s)"

definition query_chunk_locations :: "string list \<Rightarrow> ControlPlaneServer \<Rightarrow> ChunkLocation list option" where
  "query_chunk_locations chunk_ids s = Some (map (locate (cs_chunk_index s)) chunk_ids)"


section \<open>Response documents\<close>

definition node_json :: "'j json_api \<Rightarrow> node_view \<Rightarrow> 'j" where
  "node_json J v = ja_object J
     ([(''node_id'', ja_string J (nr_node_id (nv_registration v))),
       (''address'', ja_string J (nr_address (nv_registration v))),
       (''p2p_port'', ja_unsigned J (ucast (nr_p2p_port (nv_registration v)))),
       (''http_port'', ja_unsigned J (ucast (nr_http_port (nv_registration v)))),
       (''memory_capacity_mb'', ja_unsigned J (nr_memory_capacity_mb (nv_registration v))),
       (''disk_capacity_mb'', ja_unsigned J (nr_disk_capacity_mb (nv_registration v))),
       (''available_chunks'', ja_array J (map (ja_string J) (nv_available_chunks v))),
       (''online'', ja_bool J (nv_online v))] @
      (case nv_status v of
         None \<Rightarrow> []
       | Some st \<Rightarrow> [(''memory_used_mb'', ja_unsigned J (ns_memory_used_mb st)),
                     (''disk_used_mb'', ja_unsigned J (ns_disk_used_mb st)),
                     (''cache_hit_rate'', ja_double J (ns_cache_hit_rate st)),
                     (''total_chunks'', ja_unsigned J (ns_total_chunks st)),
                     (''active_connections'', ja_unsigned J (ns_active_connections st))]))"

definition location_json :: "'j json_api \<Rightarrow> ChunkLocation \<Rightarrow> 'j" where
  "location_json J l = ja_object J [(''chunk_id'', ja_string J (cl_chunk_id l)),
     (''peer_ids'', ja_array J (map (ja_string J) (cl_peer_ids l)))]"

definition command_json :: "'j json_api \<Rightarrow> ReplicationCommand \<Rightarrow> 'j" where
  "command_json J c = ja_object J
     [(''command_id'', ja_string J (rc_command_id c)), (''chunk_id'', ja_string J (rc_chunk_id c)),
      (''action'', ja_string J (rc_action c)), (''source_node_id'', ja_string J (rc_source_node_id c)),
      (''target_node_id'', ja_string J (rc_target_node_id c)), (''priority'', ja_unsigned J (ucast (rc_priority c))),
      (''created_at'', ja_unsigned J (rc_created_at c))]"

definition metrics_json :: "'j json_api \<Rightarrow> ControlPlaneServerMetrics \<Rightarrow> nat \<Rightarrow> 'j" where
  "metrics_json J m chunks = ja_object J
     [(''total_nodes'', ja_unsigned J (sm_total_nodes m)), (''active_nodes'', ja_unsigned J (sm_active_nodes m)),
      (''total_chunks'', ja_unsigned J (of_nat chunks)), (''total_heartbeats'', ja_unsigned J (sm_total_heartbeats m)),
      (''total_chunk_reports'', ja_unsigned J (sm_total_chunk_reports m)),
      (''total_queries'', ja_unsigned J (sm_total_queries m)), (''commands_issued'', ja_unsigned J (sm_commands_issued m)),
      (''replication_decisions'', ja_unsigned J (sm_replication_decisions m))]"

text \<open>The text of a response body; \<open>None\<close> is the exception of \<open>dump\<close> on a string that is not UTF-8.\<close>

fun response_text :: "'j json_api \<Rightarrow> cp_body \<Rightarrow> string option" where
  "response_text J (Error_body e) = ja_dump J (ja_object J [(''error'', ja_string J e)])"
| "response_text J (Health_body ms) = ja_dump J (ja_object J [(''status'', ja_string J ''healthy''),
     (''service'', ja_string J ''control-plane''), (''timestamp'', ja_unsigned J ms)])"
| "response_text J (Registered_body n) = ja_dump J (ja_object J [(''success'', ja_bool J True),
     (''node_id'', ja_string J n), (''message'', ja_string J ''Node registered successfully'')])"
| "response_text J Empty_body = Some ''''"
| "response_text J (Nodes_body vs tot active) = ja_dump J (ja_object J
     [(''nodes'', ja_array J (map (node_json J) vs)), (''total'', ja_unsigned J (of_nat tot)),
      (''active'', ja_unsigned J (of_nat active))])"
| "response_text J (Locations_body ls) =
     ja_dump J (ja_object J [(''locations'', ja_array J (map (location_json J) ls))])"
| "response_text J (Metrics_body m chunks) = ja_dump J (metrics_json J m chunks)"
| "response_text J (Commands_body cs) = ja_dump J (ja_object J [(''commands'', ja_array J (map (command_json J) cs))])"
| "response_text J Ok_body = ja_dump J (ja_object J [(''status'', ja_string J ''ok'')])"
| "response_text J (Not_found_body path) =
     Some (''{'' @ [CHR 0x22] @ ''error'' @ [CHR 0x22] @ '': '' @ [CHR 0x22] @ ''Not Found'' @ [CHR 0x22] @ '', '' @
       [CHR 0x22] @ ''path'' @ [CHR 0x22] @ '': '' @ [CHR 0x22] @ path @ [CHR 0x22] @ ''}'')"

section \<open>The index is a location table\<close>

definition index_wf :: "chunk_index \<Rightarrow> bool" where
  "index_wf idx \<longleftrightarrow> al_wf idx \<and> (\<forall>(c, ps) \<in> set idx. ps \<noteq> [] \<and> distinct ps)"

lemma index_wf_get: "index_wf idx \<Longrightarrow> al_get idx c = Some ps \<Longrightarrow> ps \<noteq> [] \<and> distinct ps"
  by (auto simp: index_wf_def dest: map_of_SomeD)

lemma index_wf_put: "index_wf idx \<Longrightarrow> ps \<noteq> [] \<Longrightarrow> distinct ps \<Longrightarrow> index_wf (al_put c ps idx)"
  by (induction idx) (auto simp: index_wf_def update_keys)

lemma index_wf_del: "index_wf idx \<Longrightarrow> index_wf (al_del c idx)"
  using distinct_delete [of idx c] by (auto simp: index_wf_def AList.delete_eq)

lemma index_wf_add: "index_wf idx \<Longrightarrow> index_wf (index_add n c idx)"
  unfolding index_add_def by (rule index_wf_put) (auto simp: List.insert_def dest: index_wf_get split: option.split)

lemma index_wf_remove: "index_wf idx \<Longrightarrow> index_wf (index_remove n c idx)"
  by (auto simp: index_remove_def Let_def index_wf_del distinct_removeAll
      intro!: index_wf_put dest: index_wf_get split: option.split)

lemma removeAll_Nil: "removeAll x xs = [] \<longleftrightarrow> set xs \<subseteq> {x}"
  by (induction xs) auto

interpretation ix: location_table index_wf "\<lambda>idx c. set (locations_of idx c)" index_add index_remove
proof (unfold_locales, goal_cases)
  case (4 t n c d)
  then show ?case
    by (auto simp: index_remove_def locations_of_def Let_def al_get_put al_get_del removeAll_Nil split: option.splits)
next
  case (3 t n c d)
  then show ?case by (auto simp: index_add_def locations_of_def al_get_put split: option.splits)
qed (simp_all add: index_wf_add index_wf_remove)

lemma update_index_wf: "index_wf idx \<Longrightarrow> index_wf (update_chunk_index_locked n cs add idx)"
  by (simp add: update_chunk_index_locked_def ix.inv_fold)

lemma locations_update [elio_simps]:
  "index_wf idx \<Longrightarrow> set (locations_of (update_chunk_index_locked n cs True idx) d)
     = set (locations_of idx d) \<union> (if d \<in> set cs then {n} else {})"
  "index_wf idx \<Longrightarrow> set (locations_of (update_chunk_index_locked n cs False idx) d)
     = set (locations_of idx d) - (if d \<in> set cs then {n} else {})"
  by (simp_all only: update_chunk_index_locked_def if_True if_False ix.locs_fold_add ix.locs_fold_remove)

section \<open>Runs of the server\<close>

text \<open>\<open>cp_run J P cfg s\<close>: a server configured by \<open>cfg\<close> reaches \<open>s\<close> by serving requests that satisfy
  \<open>P\<close>, at any times, with starts and stops in between.\<close>

inductive cp_run :: "'j json_api \<Rightarrow> (cp_request \<Rightarrow> bool) \<Rightarrow> ControlPlaneServerConfig \<Rightarrow> ControlPlaneServer \<Rightarrow> bool"
  for J P cfg where
  init: "cp_run J P cfg (new_control_server cfg)"
| request: "cp_run J P cfg s \<Longrightarrow> P r \<Longrightarrow> serve J ms r s = (s', resp) \<Longrightarrow> cp_run J P cfg s'"
| started: "cp_run J P cfg s \<Longrightarrow> server_start s = Some (s', bt) \<Longrightarrow> cp_run J P cfg s'"
| stopped: "cp_run J P cfg s \<Longrightarrow> cp_run J P cfg (server_stop s)"

text \<open>
  The effects a request can have, one rule for each way the handlers change the state. Every
  invariant below is checked on these.
\<close>

inductive cp_effect :: "'j json_api \<Rightarrow> cp_request \<Rightarrow> ControlPlaneServer \<Rightarrow> ControlPlaneServer \<Rightarrow> bool"
  for J where
  unchanged: "cp_effect J r s s"
| counted: "cp_effect J r s (s\<lparr>cs_metrics := (cs_metrics s)\<lparr>sm_total_nodes := of_nat (length (cs_nodes s)),
    sm_active_nodes := a\<rparr>\<rparr>)"
| queried: "cp_effect J r s (s\<lparr>cs_metrics := (cs_metrics s)\<lparr>sm_total_queries := q\<rparr>\<rparr>)"
| reregistered: "read_registration J (parse_json_body J body) = Some reg \<Longrightarrow>
    al_get (cs_nodes s) (nr_node_id reg) = Some nd \<Longrightarrow>
    cp_effect J (Register body) s (enter_node reg (reregister now reg nd) s)"
| registered: "read_registration J (parse_json_body J body) = Some reg \<Longrightarrow>
    al_get (cs_nodes s) (nr_node_id reg) = None \<Longrightarrow>
    length (cs_nodes s) < unat (sc_max_nodes (cs_config s)) \<Longrightarrow>
    cp_effect J (Register body) s (enter_node reg (new_node_info now reg) s)"
| heartbeat: "al_get (cs_nodes s) n = Some nd \<Longrightarrow> ns_node_id st = ns_node_id (ni_status nd) \<Longrightarrow>
    cp_effect J r s (s\<lparr>cs_nodes := al_put n (nd\<lparr>ni_status := st, ni_last_heartbeat_time := t, ni_online := b\<rparr>)
      (cs_nodes s), cs_metrics := (cs_metrics s)\<lparr>sm_total_heartbeats := h\<rparr>\<rparr>)"
| reported: "al_get (cs_nodes s) n = Some nd \<Longrightarrow>
    cp_effect J (Report_chunks path body) s (s\<lparr>cs_chunk_index :=
      update_chunk_index_locked n cs True (update_chunk_index_locked n (ni_chunks nd) False (cs_chunk_index s)),
      cs_nodes := al_put n (nd\<lparr>ni_chunks := cs\<rparr>) (cs_nodes s),
      cs_metrics := (cs_metrics s)\<lparr>sm_total_chunk_reports := k\<rparr>\<rparr>)"
| commands: "dom (al_get pend) \<subseteq> dom (al_get (cs_pending_commands s)) \<Longrightarrow>
    cp_effect J r s (s\<lparr>cs_pending_commands := pend\<rparr>)"

lemma heartbeat_assignments_id:
  "assign_all (heartbeat_assignments J body) st = (st', b) \<Longrightarrow> ns_node_id st' = ns_node_id st"
  by (auto simp: heartbeat_assignments_def split: option.splits)

lemma heartbeat_effect:
  assumes "heartbeat_handler J now path body s = (s', resp)"
  shows "cp_effect J r s s'"
proof (cases "path_node_id ''/heartbeat'' path = '''' \<or> al_get (cs_nodes s) (path_node_id ''/heartbeat'' path) = None")
  case True
  with assms show ?thesis by (auto simp: heartbeat_handler_def Let_def intro: cp_effect.unchanged split: if_splits)
next
  case False
  define n where "n = path_node_id ''/heartbeat'' path"
  from False obtain nd where n: "n \<noteq> ''''" and nd: "al_get (cs_nodes s) n = Some nd" by (auto simp: n_def)
  obtain st b where st: "assign_all (heartbeat_assignments J (parse_json_body J body)) (ni_status nd) = (st, b)"
    by fastforce
  note eff = heartbeat [where J = J and r = r, OF nd heartbeat_assignments_id [OF st]]
  show ?thesis
  proof (cases b)
    case True
    with assms n nd st have "s' = s\<lparr>cs_nodes := al_put n
        (nd\<lparr>ni_status := st, ni_last_heartbeat_time := now, ni_online := True\<rparr>) (cs_nodes s),
        cs_metrics := (cs_metrics s)\<lparr>sm_total_heartbeats := sm_total_heartbeats (cs_metrics s) + 1\<rparr>\<rparr>"
      by (simp add: heartbeat_handler_def Let_def flip: n_def)
    then show ?thesis by (simp only: eff)
  next
    case False
    with assms n nd st have "s' = s\<lparr>cs_nodes := al_put n (nd\<lparr>ni_status := st\<rparr>) (cs_nodes s)\<rparr>"
      by (simp add: heartbeat_handler_def Let_def flip: n_def)
    then show ?thesis
      using eff [where t = "ni_last_heartbeat_time nd" and b = "ni_online nd" and h = "sm_total_heartbeats (cs_metrics s)"] by simp
  qed
qed

lemma serve_effect:
  assumes "serve J ms r s = (s', resp)"
  shows "cp_effect J r s s'"
proof (cases r)
  case (Register body)
  with assms show ?thesis
    by (auto simp: register_handler_def Let_def intro: cp_effect.unchanged reregistered registered
        split: if_splits option.splits)
next
  case (Heartbeat path body)
  with assms show ?thesis using heartbeat_effect by simp
next
  case (Report_chunks path body)
  with assms show ?thesis
    by (auto simp: report_chunks_handler_def Let_def intro: cp_effect.unchanged reported split: if_splits option.splits)
next
  case Query_nodes
  with assms show ?thesis
    using counted [of J r s "of_nat (active_nodes (ms div 1000) s)"]
    by (auto simp: query_nodes_handler_def count_nodes_def)
next
  case (Query_locations body)
  with assms show ?thesis
    by (auto simp: query_locations_handler_def Let_def intro: cp_effect.unchanged queried split: if_splits option.splits)
next
  case Get_metrics
  with assms show ?thesis
    using counted [of J r s "of_nat (active_nodes (ms div 1000) s)"]
    by (auto simp: metrics_handler_def count_nodes_def Let_def)
next
  case (Get_commands path)
  with assms show ?thesis
    by (auto simp: commands_handler_def Let_def elio_simps intro!: commands intro: cp_effect.unchanged
        split: if_splits option.splits prod.splits)
next
  case (Ack_command path body)
  with assms show ?thesis
    by (auto simp: ack_handler_def Let_def elio_simps intro!: commands intro: cp_effect.unchanged
        split: if_splits option.splits)
qed (use assms in \<open>auto intro: cp_effect.unchanged\<close>)


section \<open>Invariants of the registry\<close>

definition registry_wf :: "ControlPlaneServer \<Rightarrow> bool" where
  "registry_wf s \<longleftrightarrow>
     al_wf (cs_nodes s) \<and> index_wf (cs_chunk_index s) \<and>
     length (cs_nodes s) \<le> unat (sc_max_nodes (cs_config s)) \<and>
     sm_total_nodes (cs_metrics s) = of_nat (length (cs_nodes s)) \<and>
     (\<forall>n nd. al_get (cs_nodes s) n = Some nd \<longrightarrow>
        nr_node_id (ni_registration nd) = n \<and> ns_node_id (ni_status nd) = n \<and>
        (\<forall>c\<in>set (ni_chunks nd). n \<in> set (locations_of (cs_chunk_index s) c))) \<and>
     (\<forall>c. set (locations_of (cs_chunk_index s) c) \<subseteq> dom (al_get (cs_nodes s)))"

lemma length_al_put_new: "al_get m k = None \<Longrightarrow> length (al_put k v m) = Suc (length m)"
  by (induction m) (auto split: if_splits)

lemma length_al_put_old: "al_get m k = Some w \<Longrightarrow> length (al_put k v m) = length m"
  by (induction m) (auto split: if_splits)

lemma registry_wf_enter:
  assumes "registry_wf s" and "nr_node_id (ni_registration nd) = nr_node_id reg"
    and "ns_node_id (ni_status nd) = nr_node_id reg"
    and "\<And>c. c \<in> set (ni_chunks nd) \<Longrightarrow> nr_node_id reg \<in> set (locations_of (cs_chunk_index s) c)"
    and "length (al_put (nr_node_id reg) nd (cs_nodes s)) \<le> unat (sc_max_nodes (cs_config s))"
  shows "registry_wf (enter_node reg nd s)"
  using assms unfolding registry_wf_def enter_node_def Let_def
  by (auto simp: elio_simps update_index_wf distinct_update simp del: map_of_eq_None_iff)

lemma registry_wf_effect:
  assumes "cp_effect J r s s'" and "registry_wf s"
  shows "registry_wf s'"
  using assms
proof (induction rule: cp_effect.induct)
  case (reregistered body reg s nd now)
  then show ?case
    by (intro registry_wf_enter)
      (auto simp: registry_wf_def reregister_def length_al_put_old)
next
  case (registered body reg s now)
  then show ?case
    by (intro registry_wf_enter)
      (auto simp: new_node_info_def length_al_put_new simp del: map_of_eq_None_iff)
next
  case (heartbeat s n nd st r t b h)
  then show ?case
    by (auto simp: registry_wf_def al_get_put distinct_update length_al_put_old)
next
  case (reported s n nd path body cs k)
  then have "index_wf (cs_chunk_index s)" by (simp add: registry_wf_def)
  with reported show ?case
    by (auto simp: registry_wf_def al_get_put distinct_update length_al_put_old update_index_wf
        locations_update split: if_splits)
qed (auto simp: registry_wf_def)

lemma effect_config: "cp_effect J r s s' \<Longrightarrow> cs_config s' = cs_config s"
  by (induction rule: cp_effect.induct) (auto simp: enter_node_def Let_def)

lemma registry_wf_run:
  assumes "cp_run J P cfg s"
  shows "registry_wf s"
  using assms
proof induction
  case init
  then show ?case by (simp add: registry_wf_def new_control_server_def index_wf_def locations_of_def)
next
  case (request s r ms s' resp)
  then show ?case using serve_effect registry_wf_effect by blast
next
  case (started s s' bt)
  then have "s' = s\<lparr>cs_running := True, cs_thread_joinable := True\<rparr>"
    by (auto simp: server_start_def split: if_splits)
  with started.IH show ?case by (simp add: registry_wf_def)
next
  case (stopped s)
  then show ?case by (simp add: server_stop_def registry_wf_def)
qed

lemma run_config: "cp_run J P cfg s \<Longrightarrow> cs_config s = cfg"
proof (induction rule: cp_run.induct)
  case (request s r ms s' resp)
  then show ?case using serve_effect effect_config by metis
qed (auto simp: new_control_server_def server_start_def server_stop_def split: if_splits)

lemma run_no_commands: "cp_run J P cfg s \<Longrightarrow> cs_pending_commands s = []"
proof (induction rule: cp_run.induct)
  case (request s r ms s' resp)
  from serve_effect [OF request.hyps(3)] request.IH show ?case
    by (induction rule: cp_effect.induct) (auto simp: enter_node_def Let_def)
qed (auto simp: new_control_server_def server_start_def server_stop_def split: if_splits)

section \<open>Properties\<close>

text \<open>C26. In every state the server reaches, whatever it is sent: the registry has at most
  \<open>max_nodes\<close> nodes, each under its own id; the location index has no empty entry and no node
  twice, names registered nodes only, and has every chunk of every node's last report; and the
  metric \<open>total_nodes\<close> is the size of the registry.\<close>

theorem registry_invariant:
  assumes "cp_run J P cfg s"
  shows "registry_wf s \<and> length (cs_nodes s) \<le> unat (sc_max_nodes cfg)"
  using registry_wf_run [OF assms] run_config [OF assms] by (auto simp: registry_wf_def)

definition announces_nothing :: "'j json_api \<Rightarrow> cp_request \<Rightarrow> bool" where
  "announces_nothing J r \<longleftrightarrow>
     (case r of
        Register body \<Rightarrow> (case read_registration J (parse_json_body J body) of
                            Some reg \<Rightarrow> nr_available_chunks reg = [] | None \<Rightarrow> True)
      | _ \<Rightarrow> True)"

definition scan_nodes :: "ControlPlaneServer \<Rightarrow> string \<Rightarrow> string list" where
  "scan_nodes s c = map fst (filter (\<lambda>(n, nd). c \<in> set (ni_chunks nd)) (cs_nodes s))"

definition exact_index :: "ControlPlaneServer \<Rightarrow> bool" where
  "exact_index s \<longleftrightarrow> (\<forall>c n. n \<in> set (locations_of (cs_chunk_index s) c) \<longleftrightarrow>
     (\<exists>nd. al_get (cs_nodes s) n = Some nd \<and> c \<in> set (ni_chunks nd)))"

lemma exact_index_effect:
  assumes "cp_effect J r s s'" and "registry_wf s" and "announces_nothing J r" and "exact_index s"
  shows "exact_index s'"
  using assms
proof (induction rule: cp_effect.induct)
  case (reported s n nd path body cs k)
  then have wf: "index_wf (cs_chunk_index s)" by (simp add: registry_wf_def)
  have old: "m \<in> set (locations_of (cs_chunk_index s) c) \<longleftrightarrow>
      (\<exists>x. al_get (cs_nodes s) m = Some x \<and> c \<in> set (ni_chunks x))" for m c
    using reported.prems(3) by (simp add: exact_index_def)
  show ?case
    unfolding exact_index_def
    using reported.hyps wf by (auto simp: al_get_put locations_update update_index_wf old)
qed (auto simp: exact_index_def enter_node_def Let_def al_get_put update_chunk_index_locked_def
    announces_nothing_def reregister_def new_node_info_def simp del: map_of_eq_None_iff)

lemma exact_index_run:
  assumes "cp_run J (announces_nothing J) cfg s"
  shows "exact_index s"
  using assms
proof induction
  case init
  then show ?case by (simp add: exact_index_def new_control_server_def locations_of_def)
next
  case (request s r ms s' resp)
  then show ?case using serve_effect exact_index_effect registry_wf_run by metis
qed (auto simp: exact_index_def server_start_def server_stop_def split: if_splits)

text \<open>C25. Where registrations announce no chunks, the index the server maintains incrementally answers
  a location query exactly as a scan of all nodes for the chunk would.\<close>

theorem location_index_equiv:
  assumes "cp_run J (announces_nothing J) cfg s"
    and "query_chunk_locations [c] s = Some [\<lparr>cl_chunk_id = c, cl_peer_ids = ps\<rparr>]"
  shows "distinct ps \<and> distinct (scan_nodes s c) \<and> set ps = set (scan_nodes s c)"
proof -
  have ps: "ps = locations_of (cs_chunk_index s) c"
    using assms(2) by (simp add: query_chunk_locations_def locate_def)
  have wf: "al_wf (cs_nodes s)" "index_wf (cs_chunk_index s)"
    using registry_wf_run [OF assms(1)] by (simp_all add: registry_wf_def)
  have "distinct ps" using wf(2) by (auto simp: ps locations_of_def dest: index_wf_get split: option.split)
  moreover have "distinct (scan_nodes s c)"
    unfolding scan_nodes_def by (rule distinct_map_filter [OF wf(1)])
  moreover have "set ps = set (scan_nodes s c)"
    using exact_index_run [OF assms(1)] wf(1) by (force simp: exact_index_def ps scan_nodes_def)
  ultimately show ?thesis by simp
qed

lemma announced_effect:
  assumes "cp_effect J r s s'" and "registry_wf s"
    and "n \<in> set (locations_of (cs_chunk_index s) c)"
    and "\<And>nd. al_get (cs_nodes s) n = Some nd \<Longrightarrow> c \<notin> set (ni_chunks nd)"
  shows "n \<in> set (locations_of (cs_chunk_index s') c)"
  using assms
  by (induction rule: cp_effect.induct)
    (auto simp: enter_node_def Let_def registry_wf_def locations_update update_index_wf)

text \<open>The chunks a node announces when it registers are entered in the index but not in the node's
  chunk list, so no later report withdraws them: a location that is not in the last report stays,
  whatever is served next.\<close>

theorem announced_never_withdrawn:
  assumes "cp_run J P cfg s" and "n \<in> set (locations_of (cs_chunk_index s) c)"
    and "\<And>nd. al_get (cs_nodes s) n = Some nd \<Longrightarrow> c \<notin> set (ni_chunks nd)"
  shows "n \<in> set (locations_of (cs_chunk_index (fst (serve J ms r s))) c)"
  using serve_effect [of J ms r s "fst (serve J ms r s)" "snd (serve J ms r s)"]
    announced_effect [OF _ registry_wf_run [OF assms(1)] assms(2,3)] by simp

text \<open>No code path creates a replication command: in every reachable state a registered node that
  polls for its commands is told there are none.\<close>

theorem no_command_is_ever_issued:
  assumes "cp_run J P cfg s" and "path_node_id ''/commands'' path \<in> dom (al_get (cs_nodes s))"
    and "path_node_id ''/commands'' path \<noteq> ''''"
  shows "serve J ms (Get_commands path) s = (s, reply 200 (Commands_body []))"
  using assms(2,3) run_no_commands [OF assms(1)]
  by (auto simp: commands_handler_def Let_def simp del: map_of_eq_Some_iff split: if_splits option.splits)


subsection \<open>Node ids in request paths\<close>

lemma find_pat_fresh:
  assumes "x \<notin> set ident"
  shows "find_pat (x # p) (ident @ (x # p) @ r) = Some (length ident)"
  using assms
proof (induction ident)
  case Nil
  then show ?case using starts_with_append [of "x # p" r] by simp
next
  case (Cons c cs)
  then have "\<not> starts_with (x # p) (c # cs @ (x # p) @ r)" by (auto simp: starts_with_def)
  with Cons show ?case by simp
qed

lemma find_pat_prefix: "p \<noteq> [] \<Longrightarrow> find_pat p (p @ s) = Some 0"
  using starts_with_append [of p s] by (cases p) simp_all

definition node_path :: "string \<Rightarrow> string \<Rightarrow> string" where
  "node_path node_id suffix = ''/api/v1/nodes/'' @ node_id @ suffix"

lemma path_node_id_node_path:
  assumes "CHR ''/'' \<notin> set node_id" and "node_id \<noteq> ''''" and "suffix = CHR ''/'' # q"
  shows "path_node_id suffix (node_path node_id suffix) = tl node_id"
proof -
  from assms(2) obtain c ident where n: "node_id = c # ident" by (cases node_id) auto
  have pos: "str_find ''/api/v1/nodes/'' (node_path node_id suffix) 0 = Some 0"
    unfolding node_path_def str_find_def using find_pat_prefix [of "''/api/v1/nodes/''" "node_id @ suffix"] by simp
  have rest: "drop 15 (node_path node_id suffix) = ident @ suffix" by (simp add: node_path_def n)
  have "find_pat suffix (ident @ suffix) = Some (length ident)"
    using find_pat_fresh [of "CHR ''/''" ident q "[]"] assms(1,3) n by simp
  then have "str_find suffix (node_path node_id suffix) 15 = Some (15 + length ident)"
    by (simp add: str_find_def rest) (simp add: node_path_def n)
  then show ?thesis using pos rest by (simp add: path_node_id_def substr_def) (simp add: n)
qed

lemma tl_neq: "xs \<noteq> [] \<Longrightarrow> tl xs \<noteq> xs"
  by (metis list.collapse not_Cons_self2)

text \<open>The offset 15 in the handlers is one more than the length of \<open>/api/v1/nodes/\<close>, so the first
  character of the node id in the path is dropped: a heartbeat or a chunk report sent for a node
  under its own id leaves the record of that node as it is, and when no other node is called by
  the rest of the id the request is refused and changes nothing.\<close>

theorem node_paths_misdirected:
  assumes "CHR ''/'' \<notin> set n" and "n \<noteq> ''''"
    and "r = Heartbeat (node_path n ''/heartbeat'') body \<or> r = Report_chunks (node_path n ''/chunks'') body"
  shows "al_get (cs_nodes (fst (serve J ms r s))) n = al_get (cs_nodes s) n \<and>
    (al_get (cs_nodes s) (tl n) = None \<longrightarrow> fst (serve J ms r s) = s \<and>
       (\<forall>resp. snd (serve J ms r s) = Some resp \<longrightarrow> cr_status resp \<in> {400, 404}))"
proof -
  note p = path_node_id_node_path [OF assms(1,2)]
  show ?thesis
    using assms(3) tl_neq [OF assms(2)]
    by (elim disjE; clarsimp simp: heartbeat_handler_def report_chunks_handler_def Let_def p al_get_put
        simp del: map_of_eq_Some_iff map_of_eq_None_iff split: option.split prod.split bool.split)
qed

section \<open>Witnesses\<close>

definition sample_parse :: "string \<Rightarrow> jval option" where
  "sample_parse t =
     (if t = ''announce'' then Some (JObj [(''node_id'', JStr ''n1''), (''address'', JStr ''h''),
                                           (''available_chunks'', JArr [JStr ''c''])])
      else if t = ''join'' then Some (JObj [(''node_id'', JStr ''1''), (''address'', JStr ''h'')])
      else if t = ''report'' then Some (JObj [(''chunk_ids'', JArr [JStr ''d''])])
      else if t = ''ack'' then Some (JObj [(''command_id'', JStr ''k'')])
      else None)"

definition sample_json :: "jval json_api" where
  "sample_json = jval_api sample_parse (\<lambda>_. None)"

definition sample_config :: ControlPlaneServerConfig where
  "sample_config = \<lparr>sc_bind_address = ''0.0.0.0'', sc_listen_port = 8082, sc_heartbeat_timeout_sec = 90,
     sc_cleanup_interval_sec = 30, sc_max_nodes = 10, sc_enable_replica_adjustment = True, sc_min_replicas = 2, sc_max_replicas = 5\<rparr>"

definition sample_run :: "cp_request list \<Rightarrow> ControlPlaneServer" where
  "sample_run rs = fold (\<lambda>r s. fst (serve sample_json 5000 r s)) rs (new_control_server sample_config)"

lemma cp_run_fold:
  "cp_run J P cfg s \<Longrightarrow> \<forall>r\<in>set rs. P r \<Longrightarrow> cp_run J P cfg (fold (\<lambda>r s. fst (serve J ms r s)) rs s)"
proof (induction rs arbitrary: s)
  case (Cons r rs)
  have "cp_run J P cfg (fst (serve J ms r s))"
    by (rule cp_run.request [OF Cons.prems(1) _ prod.collapse [symmetric]]) (use Cons.prems in simp)
  with Cons show ?case by simp
qed simp

lemma sample_run: "\<forall>r\<in>set rs. P r \<Longrightarrow> cp_run sample_json P sample_config (sample_run rs)"
  unfolding sample_run_def by (rule cp_run_fold [OF cp_run.init])

lemmas sample_eval = sample_run_def sample_json_def jval_api_def sample_parse_def parse_json_body_def
  register_handler_def read_registration_def jvalue_def read_strings_def member_items_def Let_def
  new_control_server_def sample_config_def enter_node_def new_node_info_def update_chunk_index_locked_def
  index_add_def index_remove_def locations_of_def List.insert_def report_chunks_handler_def u64_of_int_def u16_of_int_def

lemma path_1: "path_node_id ''/chunks'' ''/api/v1/nodes/n1/chunks'' = ''1''"
  "path_node_id ''/chunks'' ''/api/v1/nodes/nn1/chunks'' = ''n1''"
  "path_node_id ''/commands'' ''/api/v1/nodes/nn1/commands'' = ''n1''"
  "path_node_id ''/commands/ack'' ''/api/v1/nodes/nn1/commands/ack'' = ''n1''"
  by code_simp+

theorem registry_invariant_witness:
  "registry_wf (sample_run [Register ''announce'']) \<and> length (cs_nodes (sample_run [Register ''announce''])) = 1"
  using registry_invariant [OF sample_run [where P = "\<lambda>_. True" and rs = "[Register ''announce'']"]]
  by (simp add: sample_eval)

theorem location_index_equiv_witness:
  "set (scan_nodes (sample_run [Register ''join'', Report_chunks ''/api/v1/nodes/n1/chunks'' ''report'']) ''d'') = {''1''}"
proof -
  let ?rs = "[Register ''join'', Report_chunks ''/api/v1/nodes/n1/chunks'' ''report'']"
  have "\<forall>r\<in>set ?rs. announces_nothing sample_json r"
    by (simp add: announces_nothing_def sample_eval)
  moreover have "query_chunk_locations [''d''] (sample_run ?rs) = Some [\<lparr>cl_chunk_id = ''d'', cl_peer_ids = [''1'']\<rparr>]"
    by (simp add: sample_eval query_chunk_locations_def locate_def path_1)
  ultimately show ?thesis using location_index_equiv [OF sample_run] by fastforce
qed

theorem announced_never_withdrawn_witness:
  "''n1'' \<in> set (locations_of (cs_chunk_index (fst (serve sample_json 6000
     (Report_chunks ''/api/v1/nodes/nn1/chunks'' ''report'') (sample_run [Register ''announce''])))) ''c'') \<and>
   ni_chunks (the (al_get (cs_nodes (fst (serve sample_json 6000
     (Report_chunks ''/api/v1/nodes/nn1/chunks'' ''report'') (sample_run [Register ''announce''])))) ''n1'')) = [''d'']"
proof
  show "''n1'' \<in> set (locations_of (cs_chunk_index (fst (serve sample_json 6000
     (Report_chunks ''/api/v1/nodes/nn1/chunks'' ''report'') (sample_run [Register ''announce''])))) ''c'')"
    by (rule announced_never_withdrawn [OF sample_run [where P = "\<lambda>_. True"]]) (simp_all add: sample_eval)
qed (simp add: sample_eval path_1)

theorem no_command_is_ever_issued_witness:
  "serve sample_json 6000 (Get_commands ''/api/v1/nodes/nn1/commands'') (sample_run [Register ''announce''])
     = (sample_run [Register ''announce''], reply 200 (Commands_body []))"
  by (rule no_command_is_ever_issued [OF sample_run [where P = "\<lambda>_. True"]]) (simp_all add: path_1, simp add: sample_eval)

theorem node_paths_misdirected_witness:
  "fst (serve sample_json 6000 (Heartbeat (node_path ''n1'' ''/heartbeat'') '''') (sample_run [Register ''announce'']))
     = sample_run [Register ''announce''] \<and> al_get (cs_nodes (sample_run [Register ''announce''])) ''n1'' \<noteq> None"
  using node_paths_misdirected [of "''n1''" "Heartbeat (node_path ''n1'' ''/heartbeat'') ''''" "''''"
      sample_json 6000 "sample_run [Register ''announce'']"]
  by (simp add: sample_eval)

end
