(* ===== verification/Http_Client.thy ===== *)
theory Http_Client
  imports Elio_Prelude
begin

text \<open>
  The HTTP client of the control plane (\<open>SimpleHttpClient::http_request\<close> in
  \<open>src/control/client.cpp\<close>): building and sending a request over a socket, reading the header
  block, and framing the body by \<open>Transfer-Encoding: chunked\<close>, by \<open>Content-Length\<close> or by the end of
  the connection.

  A socket is what its calls return: the successive results of \<open>send\<close>, and the pieces that
  successive calls of \<open>recv\<close> append, after which \<open>recv\<close> returns 0 or an error. Calls interrupted by a
  signal are repeated by the code and leave no trace on the receiving side. \<open>None\<close> is a request that
  does not return. Sizes are computed modulo \<open>2\<^sup>6\<^sup>4\<close> where the code adds to a length it was sent.
\<close>

section \<open>Strings\<close>

definition to_lower :: "string \<Rightarrow> string" where
  "to_lower s = map tolower s"

definition blank :: "char \<Rightarrow> bool" where
  "blank c \<longleftrightarrow> c = CHR '' '' \<or> c = CHR 0x09"

definition trim :: "string \<Rightarrow> string" where
  "trim s = rev (dropWhile blank (rev (dropWhile blank s)))"

definition CRLF :: string where
  "CRLF = [CHR 0x0D, CHR 0x0A]"

text \<open>\<open>std::stoi\<close>: no digits, or a value outside \<open>int\<close>, throws.\<close>

definition stoi :: "string \<Rightarrow> int option" where
  "stoi s =
     (case split_sign (dropWhile isspace s) of (neg, u) \<Rightarrow>
        let ds = takeWhile isdigit u; v = int (digits_val ds); i = (if neg then - v else v)
        in if ds = [] \<or> i < - (2 ^ 31) \<or> 2 ^ 31 \<le> i then None else Some i)"

text \<open>\<open>std::stoul(s, nullptr, 16)\<close>, on a host with 64-bit \<open>unsigned long\<close>.\<close>

definition isxdigit :: "char \<Rightarrow> bool" where
  "isxdigit c \<longleftrightarrow> isdigit c \<or> (65 \<le> (of_char c :: nat) \<and> (of_char c :: nat) \<le> 70) \<or>
     (97 \<le> (of_char c :: nat) \<and> (of_char c :: nat) \<le> 102)"

definition xdigit_val :: "char \<Rightarrow> nat" where
  "xdigit_val c =
     (if isdigit c then of_char c - 48 else if (of_char c :: nat) \<le> 70 then of_char c - 55 else of_char c - 87)"

definition xdigits_val :: "string \<Rightarrow> nat" where
  "xdigits_val ds = foldl (\<lambda>a c. a * 16 + xdigit_val c) 0 ds"

definition skip_0x :: "string \<Rightarrow> string" where
  "skip_0x s =
     (case s of
        z # x # d # r \<Rightarrow> if z = CHR ''0'' \<and> (x = CHR ''x'' \<or> x = CHR ''X'') \<and> isxdigit d then d # r else s
      | _ \<Rightarrow> s)"

definition stoul16 :: "string \<Rightarrow> u64 option" where
  "stoul16 s =
     (case split_sign (dropWhile isspace s) of (neg, u) \<Rightarrow>
        let ds = takeWhile isxdigit (skip_0x u); v = xdigits_val ds
        in if ds = [] \<or> 2 ^ 64 \<le> v then None
           else Some (if neg then - of_nat v else of_nat v))"

section \<open>The request\<close>

definition build_request ::
  "string \<Rightarrow> u16 \<Rightarrow> string \<Rightarrow> string \<Rightarrow> string \<Rightarrow> (string \<times> string) list \<Rightarrow> string" where
  "build_request host port meth path body headers =
     meth @ '' '' @ path @ '' HTTP/1.1'' @ CRLF @
     ''Host: '' @ host @ '':'' @ to_string (unat port) @ CRLF @
     concat (map (\<lambda>(k, v). k @ '': '' @ v @ CRLF) headers) @
     (if body = '''' then ''''
      else ''Content-Type: application/json'' @ CRLF @ ''Content-Length: '' @ to_string (length body) @ CRLF) @
     ''Connection: close'' @ CRLF @ CRLF @ body"

datatype send_result = Sent nat | Interrupted | Failed

text \<open>What the peer receives, and whether all of it was sent.\<close>

fun send_all :: "string \<Rightarrow> send_result list \<Rightarrow> string \<times> bool" where
  "send_all [] rs = ([], True)"
| "send_all (c # cs) [] = ([], False)"
| "send_all (c # cs) (Failed # rs) = ([], False)"
| "send_all (c # cs) (Interrupted # rs) = send_all (c # cs) rs"
| "send_all (c # cs) (Sent n # rs) =
     (if n = 0 then ([], False)
      else case send_all (drop n (c # cs)) rs of (t, ok) \<Rightarrow> (take n (c # cs) @ t, ok))"

section \<open>The response\<close>

text \<open>Both read loops: call \<open>recv\<close> until the buffer satisfies a condition.\<close>

fun fill_until :: "(string \<Rightarrow> bool) \<Rightarrow> string \<Rightarrow> string list \<Rightarrow> (string \<times> string list) option" where
  "fill_until P buf [] = (if P buf then Some (buf, []) else None)"
| "fill_until P buf (r # rs) = (if P buf then Some (buf, r # rs) else fill_until P (buf @ r) rs)"

definition has_pat :: "string \<Rightarrow> nat \<Rightarrow> string \<Rightarrow> bool" where
  "has_pat p pos b \<longleftrightarrow> str_find p b pos \<noteq> None"

definition ensure_buffered :: "nat \<Rightarrow> string \<Rightarrow> string list \<Rightarrow> (string \<times> string list) option" where
  "ensure_buffered need = fill_until (\<lambda>b. need \<le> length b)"

definition parse_status :: "string \<Rightarrow> int option" where
  "parse_status response =
     (case str_find CRLF response 0 of
        None \<Rightarrow> Some 500
      | Some line_end \<Rightarrow>
          (case find_char (CHR '' '') response of
             None \<Rightarrow> Some 500
           | Some pos \<Rightarrow> if pos < line_end then stoi (substr response (pos + 1) (line_end - pos - 1)) else Some 500))"

definition header_line :: "string \<Rightarrow> (string \<times> string) list \<Rightarrow> (string \<times> string) list" where
  "header_line line hs =
     (case find_char (CHR '':'') line of
        None \<Rightarrow> hs
      | Some colon \<Rightarrow> al_put (to_lower (trim (take colon line))) (trim (drop (colon + 1) line)) hs)"

lemma str_find_ge: "str_find p s pos = Some e \<Longrightarrow> pos \<le> e"
  by (auto simp: str_find_def split: if_splits)

function parse_headers :: "string \<Rightarrow> nat \<Rightarrow> nat \<Rightarrow> (string \<times> string) list \<Rightarrow> (string \<times> string) list" where
  "parse_headers response header_end hpos hs =
     (if hpos < header_end
      then let hend = (case str_find CRLF response hpos of
                         None \<Rightarrow> header_end
                       | Some e \<Rightarrow> if e > header_end then header_end else e)
           in parse_headers response header_end (hend + 2) (header_line (substr response hpos (hend - hpos)) hs)
      else hs)"
  by pat_completeness auto
termination
proof (relation "measure (\<lambda>(r, e, p, hs). e - p)", goal_cases)
  case (2 response header_end hpos hs hend)
  then have "hpos \<le> hend" by (auto dest: str_find_ge split: option.splits if_splits)
  with 2 show ?case by simp
qed simp

declare parse_headers.simps [simp del]

definition is_chunked :: "(string \<times> string) list \<Rightarrow> bool" where
  "is_chunked hs \<longleftrightarrow>
     (case al_get hs ''transfer-encoding'' of None \<Rightarrow> False | Some v \<Rightarrow> str_contains ''chunked'' (to_lower v))"

definition strip_extension :: "string \<Rightarrow> string" where
  "strip_extension f = (case find_char (CHR '';'') f of None \<Rightarrow> f | Some semi \<Rightarrow> take semi f)"

text \<open>One round of the loop: an error, the terminal chunk, or the state for the next round and the data.\<close>

definition chunk_round ::
  "string \<Rightarrow> string list \<Rightarrow> nat \<Rightarrow> string + (string \<times> string list \<times> nat \<times> string) option" where
  "chunk_round buf rs pos =
     (case fill_until (has_pat CRLF pos) buf rs of
        None \<Rightarrow> Inl ''Invalid response: truncated chunk header''
      | Some (buf1, rs1) \<Rightarrow>
          (let eol = the (str_find CRLF buf1 pos)
           in case stoul16 (trim (strip_extension (substr buf1 pos (eol - pos)))) of
                None \<Rightarrow> Inl ''Invalid response: malformed chunk size''
              | Some chunk_size \<Rightarrow>
                  if chunk_size = 0 then Inr None
                  else let next = (eol + 2 + unat chunk_size + 2) mod 2 ^ 64
                       in case ensure_buffered next buf1 rs1 of
                            None \<Rightarrow> Inl ''Invalid response: truncated chunk data''
                          | Some (buf2, rs2) \<Rightarrow> Inr (Some (buf2, rs2, next, substr buf2 (eol + 2) (unat chunk_size)))))"

partial_function (option) decode_chunked ::
  "string \<Rightarrow> string list \<Rightarrow> nat \<Rightarrow> string \<Rightarrow> (string + string) option" where
  "decode_chunked buf rs pos body =
     (case chunk_round buf rs pos of
        Inl msg \<Rightarrow> Some (Inl msg)
      | Inr None \<Rightarrow> Some (Inr body)
      | Inr (Some (buf', rs', pos', data)) \<Rightarrow> decode_chunked buf' rs' pos' (body @ data))"

definition read_sized :: "string \<Rightarrow> string list \<Rightarrow> nat \<Rightarrow> string \<Rightarrow> string + string" where
  "read_sized buf rs body_start v =
     (case stoull v of
        None \<Rightarrow> Inl ''Invalid response: malformed Content-Length''
      | Some n \<Rightarrow>
          (case ensure_buffered ((body_start + unat n) mod 2 ^ 64) buf rs of
             None \<Rightarrow> Inl ''Invalid response: truncated body''
           | Some (buf', rs') \<Rightarrow> Inr (substr buf' body_start (unat n))))"

definition read_body :: "string \<Rightarrow> string list \<Rightarrow> nat \<Rightarrow> (string \<times> string) list \<Rightarrow> (string + string) option" where
  "read_body buf rs body_start hs =
     (if is_chunked hs then decode_chunked buf rs body_start ''''
      else case al_get hs ''content-length'' of
             Some v \<Rightarrow> Some (read_sized buf rs body_start v)
           | None \<Rightarrow> Some (Inr (drop body_start (buf @ concat rs))))"

definition read_response :: "string list \<Rightarrow> (int \<times> string) option" where
  "read_response rs =
     (case fill_until (has_pat (CRLF @ CRLF) 0) '''' rs of
        None \<Rightarrow> Some (500, ''Invalid response: incomplete headers'')
      | Some (response, rs1) \<Rightarrow>
          (let header_end = the (str_find (CRLF @ CRLF) response 0);
               line_end = str_find CRLF response 0
           in case parse_status response of
                None \<Rightarrow> Some (500, ''Invalid response: malformed status line'')
              | Some status_code \<Rightarrow>
                  map_option (\<lambda>r. case r of Inl msg \<Rightarrow> (500, msg) | Inr body \<Rightarrow> (status_code, body))
                    (read_body response rs1 (header_end + 4)
                       (parse_headers response header_end
                          (case line_end of None \<Rightarrow> header_end | Some e \<Rightarrow> e + 2) []))))"

section \<open>A request\<close>

record socket_env =
  se_created :: bool
  se_resolved :: bool
  se_connected :: bool
  se_send :: "send_result list"
  se_recv :: "string list"

definition http_request ::
  "socket_env \<Rightarrow> string \<Rightarrow> u16 \<Rightarrow> string \<Rightarrow> string \<Rightarrow> string \<Rightarrow> (string \<times> string) list \<Rightarrow> (int \<times> string) option" where
  "http_request E host port meth path body headers =
     (if \<not> se_created E then Some (500, ''Failed to create socket'')
      else if \<not> se_resolved E then Some (500, ''Failed to resolve host'')
      else if \<not> se_connected E then Some (500, ''Failed to connect'')
      else if \<not> snd (send_all (build_request host port meth path body headers) (se_send E))
      then Some (500, ''Failed to send request'')
      else read_response (se_recv E))"

section \<open>Reading in pieces\<close>

lemma fill_until_Some:
  "fill_until P buf rs = Some (b, rs') \<Longrightarrow> P b \<and> b @ concat rs' = buf @ concat rs"
  by (induction P buf rs rule: fill_until.induct) (auto split: if_splits)

lemma fill_until_returns:
  assumes "P (buf @ concat rs)"
  obtains b rs' where "fill_until P buf rs = Some (b, rs')" and "P b" and "b @ concat rs' = buf @ concat rs"
proof -
  have "fill_until P buf rs \<noteq> None" using assms
    by (induction P buf rs rule: fill_until.induct) auto
  then show ?thesis using that fill_until_Some by (metis not_None_eq old.prod.exhaust)
qed

lemma fill_until_None: "fill_until P buf rs = None \<Longrightarrow> \<not> P (buf @ concat rs)"
  by (metis fill_until_returns option.distinct(1))

lemma find_pat_append: "find_pat p s = Some i \<Longrightarrow> find_pat p (s @ t) = Some i"
proof (induction s arbitrary: i)
  case (Cons c cs)
  have "length p \<le> length (c # cs)" using find_pat_bound [OF Cons.prems] by simp
  then have "starts_with p ((c # cs) @ t) = starts_with p (c # cs)"
    unfolding starts_with_def by (simp only: take_append) simp
  with Cons show ?case by (auto split: if_splits)
qed (cases t; auto simp: starts_with_def split: if_splits)

lemma str_find_append: "str_find p b pos = Some e \<Longrightarrow> str_find p (b @ t) pos = Some e"
  by (auto simp: str_find_def find_pat_append split: if_splits)

lemma str_find_bound: "str_find p s pos = Some e \<Longrightarrow> pos \<le> e \<and> e + length p \<le> length s"
  using find_pat_bound [of p "drop pos s"] by (auto simp: str_find_def split: if_splits)

lemma find_pat_skip:
  assumes "x \<notin> set u"
  shows "find_pat (x # p) (u @ s) = map_option ((+) (length u)) (find_pat (x # p) s)"
  using assms
proof (induction u)
  case (Cons c cs)
  then have "\<not> starts_with (x # p) (c # cs @ s)" by (auto simp: starts_with_def)
  with Cons show ?case by (simp add: option.map_comp comp_def)
qed (cases "find_pat (x # p) s"; simp)

lemma find_crlf:
  assumes "CHR 0x0D \<notin> set u" and "pos \<le> length s" and "drop pos s = u @ CRLF @ t"
  shows "str_find CRLF s pos = Some (pos + length u)"
proof -
  have "find_pat CRLF (CRLF @ t) = Some 0" using starts_with_append [of CRLF t] by (simp add: CRLF_def)
  then have "find_pat CRLF (u @ CRLF @ t) = Some (length u)"
    using find_pat_skip [OF assms(1), of "[CHR 0x0A]" "CRLF @ t"] by (simp add: CRLF_def)
  with assms(2,3) show ?thesis by (simp add: str_find_def)
qed

text \<open>The first match in what has arrived is the first match in the whole stream.\<close>

lemma fill_find:
  assumes "str_find p (buf @ concat rs) pos = Some e"
  obtains b rs' where "fill_until (has_pat p pos) buf rs = Some (b, rs')"
    and "str_find p b pos = Some e" and "b @ concat rs' = buf @ concat rs"
proof -
  from assms obtain b rs' where f: "fill_until (has_pat p pos) buf rs = Some (b, rs')"
    "has_pat p pos b" "b @ concat rs' = buf @ concat rs"
    using fill_until_returns [of "has_pat p pos" buf rs] by (auto simp: has_pat_def)
  then obtain e' where "str_find p b pos = Some e'" by (auto simp: has_pat_def)
  moreover have "e' = e" using str_find_append [OF calculation, of "concat rs'"] assms f(3) by simp
  ultimately show ?thesis using that f by blast
qed

lemma ensure_buffered_returns:
  assumes "need \<le> length (buf @ concat rs)"
  obtains b rs' where "ensure_buffered need buf rs = Some (b, rs')" and "need \<le> length b"
    and "b @ concat rs' = buf @ concat rs"
  using fill_until_returns [of "\<lambda>b. need \<le> length b" buf rs] assms by (auto simp: ensure_buffered_def)

section \<open>Hexadecimal sizes\<close>

definition hex_char :: "nat \<Rightarrow> char" where
  "hex_char d = char_of (if d < 10 then 48 + d else 87 + d)"

fun to_hex :: "nat \<Rightarrow> string" where
  "to_hex n = (if n < 16 then [hex_char n] else to_hex (n div 16) @ [hex_char (n mod 16)])"

declare to_hex.simps [simp del]

lemma of_char_hex: "d < 16 \<Longrightarrow> (of_char (hex_char d) :: nat) = (if d < 10 then 48 + d else 87 + d)"
  by (simp add: hex_char_def)

lemma hex_char_props:
  assumes "d < 16"
  shows "isxdigit (hex_char d)" and "xdigit_val (hex_char d) = d"
  using assms by (auto simp: isxdigit_def xdigit_val_def isdigit_def of_char_hex)

lemma to_hex_xdigits: "c \<in> set (to_hex n) \<Longrightarrow> isxdigit c"
proof (induction n rule: to_hex.induct)
  case (1 n)
  then show ?case by (subst (asm) (2) to_hex.simps) (auto simp: hex_char_props split: if_splits)
qed

lemma to_hex_not_Nil [simp]: "to_hex n \<noteq> []"
  by (subst to_hex.simps) simp

lemma xdigits_val_to_hex: "xdigits_val (to_hex n) = n"
proof (induction n rule: to_hex.induct)
  case (1 n)
  then show ?case
    by (subst to_hex.simps) (auto simp: xdigits_val_def hex_char_props)
qed

lemma xdigit_plain: "isxdigit c \<Longrightarrow> \<not> isspace c \<and> \<not> blank c \<and> c \<noteq> CHR ''-'' \<and> c \<noteq> CHR ''+'' \<and> c \<noteq> CHR ''x'' \<and>
    c \<noteq> CHR ''X'' \<and> c \<noteq> CHR '';'' \<and> c \<noteq> CHR 0x0D"
  by (auto simp: isxdigit_def isdigit_def isspace_def blank_def)

lemma trim_plain: "(\<And>c. c \<in> set s \<Longrightarrow> \<not> blank c) \<Longrightarrow> trim s = s"
  unfolding trim_def by (metis dropWhile_eq_self_iff hd_in_set rev_rev_ident set_rev)

lemma skip_0x_plain: "(\<And>c. c \<in> set s \<Longrightarrow> isxdigit c) \<Longrightarrow> skip_0x s = s"
  using xdigit_plain by (auto simp: skip_0x_def split: list.split)

lemma size_field_to_hex:
  assumes "n < 2 ^ 64"
  shows "stoul16 (trim (strip_extension (to_hex n))) = Some (of_nat n)"
proof -
  have plain: "isxdigit c \<and> \<not> isspace c \<and> \<not> blank c \<and> c \<noteq> CHR ''-'' \<and> c \<noteq> CHR ''+'' \<and> c \<noteq> CHR '';''"
    if "c \<in> set (to_hex n)" for c
    using to_hex_xdigits [OF that] xdigit_plain by blast
  obtain c cs where h: "to_hex n = c # cs" by (cases "to_hex n") auto
  have "strip_extension (to_hex n) = to_hex n"
    using plain [of "CHR '';''"] find_char_None [of "CHR '';''" "to_hex n"] by (auto simp: strip_extension_def)
  moreover have "trim (to_hex n) = to_hex n" using plain by (intro trim_plain) blast
  moreover have "split_sign (dropWhile isspace (to_hex n)) = (False, to_hex n)"
    using plain [of c] by (simp add: h split_sign_def)
  moreover have "takeWhile isxdigit (skip_0x (to_hex n)) = to_hex n"
    using plain by (simp add: skip_0x_plain takeWhile_eq_all_conv)
  ultimately show ?thesis using assms by (simp add: stoul16_def xdigits_val_to_hex)
qed


section \<open>Chunked bodies\<close>

text \<open>The encoding a server applies to a body cut into pieces.\<close>

definition encode_chunked :: "string list \<Rightarrow> string" where
  "encode_chunked cs = concat (map (\<lambda>c. to_hex (length c) @ CRLF @ c @ CRLF) cs) @ ''0'' @ CRLF @ CRLF"

lemma encode_chunked_Cons:
  "encode_chunked (c # cs) = to_hex (length c) @ CRLF @ c @ CRLF @ encode_chunked cs"
  by (simp add: encode_chunked_def)

lemma chunk_header:
  assumes "n < 2 ^ 64" and "pos \<le> length s" and "drop pos s = to_hex n @ CRLF @ t"
  shows "str_find CRLF s pos = Some (pos + length (to_hex n))"
    and "stoul16 (trim (strip_extension (substr s pos (length (to_hex n))))) = Some (of_nat n)"
proof -
  have "CHR 0x0D \<notin> set (to_hex n)" using to_hex_xdigits xdigit_plain by blast
  then show "str_find CRLF s pos = Some (pos + length (to_hex n))" using assms(2,3) by (rule find_crlf)
  show "stoul16 (trim (strip_extension (substr s pos (length (to_hex n))))) = Some (of_nat n)"
    using size_field_to_hex [OF assms(1)] assms(3) by (simp add: substr_def)
qed

lemma substr_prefix: "a + n \<le> length b \<Longrightarrow> substr (b @ t) a n = substr b a n"
  by (simp add: substr_def)

lemma decode_step:
  assumes stream: "pos \<le> length (buf @ concat rs)" "length (buf @ concat rs) < 2 ^ 64"
    "drop pos (buf @ concat rs) = to_hex (length c) @ CRLF @ c @ CRLF @ t" and "c \<noteq> []"
  obtains buf' rs' pos' where "decode_chunked buf rs pos body = decode_chunked buf' rs' pos' (body @ c)"
    and "buf' @ concat rs' = buf @ concat rs" and "pos' \<le> length (buf @ concat rs)"
    and "drop pos' (buf @ concat rs) = t"
proof -
  let ?s = "buf @ concat rs" and ?h = "length (to_hex (length c))"
  define eol where "eol = pos + ?h"
  have len: "length ?s = pos + ?h + 4 + length c + length t"
    using arg_cong [OF stream(3), of length] stream(1) by (simp add: CRLF_def)
  have cl: "length c < 2 ^ 64" using len stream(2) by linarith
  note hdr = chunk_header [OF cl stream(1,3)]
  from fill_find [OF hdr(1)] obtain b1 rs1 where
    f: "fill_until (has_pat CRLF pos) buf rs = Some (b1, rs1)" and
    e: "str_find CRLF b1 pos = Some eol" and b1: "b1 @ concat rs1 = ?s" unfolding eol_def .
  have "pos + ?h \<le> length b1" using str_find_bound [OF e] by (simp add: eol_def)
  then have sz: "stoul16 (trim (strip_extension (substr b1 pos (eol - pos)))) = Some (of_nat (length c))"
    using hdr(2) substr_prefix [of pos ?h b1 "concat rs1"] b1 by (simp add: eol_def)
  have un: "unat (of_nat (length c) :: u64) = length c" using cl by (simp add: unat_of_nat)
  have nz: "(of_nat (length c) :: u64) \<noteq> 0" using un assms(4) by (metis length_0_conv unat_0)
  define pos' where "pos' = eol + 2 + length c + 2"
  have p': "(eol + 2 + length c + 2) mod 2 ^ 64 = pos'" and le: "pos' \<le> length ?s"
    using len stream(2) by (simp_all add: pos'_def eol_def)
  from ensure_buffered_returns [of pos' b1 rs1] le b1 obtain b2 rs2 where
    g: "ensure_buffered pos' b1 rs1 = Some (b2, rs2)" "pos' \<le> length b2" "b2 @ concat rs2 = ?s" by metis
  have "substr b2 (eol + 2) (length c) = substr ?s (eol + 2) (length c)"
    using substr_prefix [of "eol + 2" "length c" b2 "concat rs2"] g(2,3) by (simp add: pos'_def)
  also have "\<dots> = take (length c) (drop (?h + 2) (drop pos ?s))" unfolding substr_def drop_drop by (simp only: eol_def add_ac)
  also have "\<dots> = c" unfolding stream(3) by (simp add: CRLF_def)
  finally have data: "substr b2 (eol + 2) (length c) = c" .
  have "decode_chunked buf rs pos body = decode_chunked b2 rs2 pos' (body @ c)"
    unfolding decode_chunked.simps [of buf] chunk_round_def f option.case prod.case e option.sel Let_def sz un p' g(1) data
    using nz by simp
  moreover have "drop pos' ?s = t"
  proof -
    have "drop pos' ?s = drop (?h + 2 + length c + 2) (drop pos ?s)" unfolding drop_drop by (simp only: pos'_def eol_def add_ac)
    also have "?h + 2 + length c + 2 = length (to_hex (length c) @ CRLF @ c @ CRLF)" by (simp add: CRLF_def)
    also have "drop \<dots> (drop pos ?s) = drop \<dots> ((to_hex (length c) @ CRLF @ c @ CRLF) @ t)"
      unfolding stream(3) by (simp only: append_assoc)
    finally show ?thesis by simp
  qed
  ultimately show ?thesis using that g(3) le by metis
qed

lemma decode_last:
  assumes "pos \<le> length (buf @ concat rs)" and "drop pos (buf @ concat rs) = ''0'' @ CRLF @ t"
  shows "decode_chunked buf rs pos body = Some (Inr body)"
proof -
  have z: "to_hex 0 = ''0''" by code_simp
  have d: "drop pos (buf @ concat rs) = to_hex 0 @ CRLF @ t" using assms(2) by (simp add: z)
  note hdr = chunk_header [of 0, OF _ assms(1) d]
  have "str_find CRLF (buf @ concat rs) pos = Some (pos + 1)" using hdr(1) by (simp add: z)
  then obtain b1 rs1 where f: "fill_until (has_pat CRLF pos) buf rs = Some (b1, rs1)"
    "str_find CRLF b1 pos = Some (pos + 1)" "b1 @ concat rs1 = buf @ concat rs" using fill_find by metis
  have "substr b1 pos 1 = substr (buf @ concat rs) pos 1"
    using substr_prefix [of pos 1 b1 "concat rs1"] str_find_bound [OF f(2)] f(3) by simp
  then have "stoul16 (trim (strip_extension (substr b1 pos 1))) = Some 0" using hdr(2) by (simp add: z)
  then show ?thesis by (subst decode_chunked.simps) (simp add: chunk_round_def Let_def f(1,2))
qed

lemma decode_encode_chunked:
  assumes "pos \<le> length (buf @ concat rs)" and "length (buf @ concat rs) < 2 ^ 64"
    and "drop pos (buf @ concat rs) = encode_chunked cs @ t" and "[] \<notin> set cs"
  shows "decode_chunked buf rs pos body = Some (Inr (body @ concat cs))"
  using assms
proof (induction cs arbitrary: buf rs pos body)
  case Nil
  then have "drop pos (buf @ concat rs) = ''0'' @ CRLF @ CRLF @ t" by (simp add: encode_chunked_def)
  then show ?case using decode_last [OF Nil.prems(1)] by simp
next
  case (Cons c cs)
  have d: "drop pos (buf @ concat rs) = to_hex (length c) @ CRLF @ c @ CRLF @ (encode_chunked cs @ t)"
    using Cons.prems(3) by (simp add: encode_chunked_Cons)
  have "c \<noteq> []" using Cons.prems(4) by auto
  from decode_step [OF Cons.prems(1,2) d this, of body] obtain buf' rs' pos' where
    s: "decode_chunked buf rs pos body = decode_chunked buf' rs' pos' (body @ c)"
    "buf' @ concat rs' = buf @ concat rs" "pos' \<le> length (buf @ concat rs)"
    "drop pos' (buf @ concat rs) = encode_chunked cs @ t" .
  have "decode_chunked buf' rs' pos' (body @ c) = Some (Inr ((body @ c) @ concat cs))"
    by (rule Cons.IH) (use s Cons.prems in simp_all)
  with s(1) show ?case by simp
qed

text \<open>A chunk size of \<open>2\<^sup>6\<^sup>4 - 20\<close> moves the position back to the chunk header it stands in.\<close>

lemma chunk_round_back:
  assumes "pos < 2 ^ 64" and "pos \<le> length buf" and "drop pos buf = ''ffffffffffffffec'' @ CRLF @ t"
  shows "\<exists>data. chunk_round buf rs pos = Inr (Some (buf, rs, pos, data))"
proof -
  have find: "str_find CRLF buf pos = Some (pos + 16)"
    using find_crlf [of "''ffffffffffffffec''" pos buf t] assms by simp
  have fill: "fill_until (has_pat CRLF pos) buf rs = Some (buf, rs)"
    using find by (cases rs) (simp_all add: has_pat_def)
  have sub: "substr buf pos 16 = ''ffffffffffffffec''" using assms(3) by (simp add: substr_def)
  have sz: "stoul16 (trim (strip_extension ''ffffffffffffffec'')) = Some 0xFFFFFFFFFFFFFFEC"
    by (simp add: stoul16_def trim_def strip_extension_def blank_def isspace_def split_sign_def skip_0x_def
        isxdigit_def isdigit_def xdigits_val_def xdigit_val_def)
  have un: "unat (0xFFFFFFFFFFFFFFEC :: u64) = 2 ^ 64 - 20" by simp
  have wraps: "(pos + 16 + 2 + (2 ^ 64 - 20) + 2) mod 2 ^ 64 = pos"
    using assms(1) by simp
  have ens: "ensure_buffered pos buf rs = Some (buf, rs)"
    using assms(2) by (cases rs) (simp_all add: ensure_buffered_def)
  show ?thesis
    unfolding chunk_round_def fill option.case prod.case find option.sel Let_def diff_add_inverse sub sz un wraps ens
    by simp
qed

lemma decode_stuck:
  assumes "decode_chunked buf rs pos body = Some r"
  shows "\<not> (pos < 2 ^ 64 \<and> pos \<le> length buf \<and> drop pos buf = ''ffffffffffffffec'' @ CRLF @ t)"
proof (rule decode_chunked.raw_induct [where P = "\<lambda>buf rs pos body r.
      \<not> (pos < 2 ^ 64 \<and> pos \<le> length buf \<and> drop pos buf = ''ffffffffffffffec'' @ CRLF @ t)", OF _ assms], rule notI)
  fix f buf rs pos body r
  assume IH: "\<And>buf rs pos body r. f buf rs pos body = Some r \<Longrightarrow>
      \<not> (pos < 2 ^ 64 \<and> pos \<le> length buf \<and> drop pos buf = ''ffffffffffffffec'' @ CRLF @ t)"
    and eq: "(case chunk_round buf rs pos of
        Inl msg \<Rightarrow> Some (Inl msg)
      | Inr None \<Rightarrow> Some (Inr body)
      | Inr (Some (buf', rs', pos', data)) \<Rightarrow> f buf' rs' pos' (body @ data)) = Some r"
    and st: "pos < 2 ^ 64 \<and> pos \<le> length buf \<and> drop pos buf = ''ffffffffffffffec'' @ CRLF @ t"
  from st chunk_round_back obtain data where "chunk_round buf rs pos = Inr (Some (buf, rs, pos, data))" by blast
  with eq have "f buf rs pos (body @ data) = Some r" by simp
  with IH st show False by blast
qed


section \<open>Whole responses\<close>

lemma find_char_app:
  "find_char c (b @ t) = (case find_char c b of Some i \<Rightarrow> Some i | None \<Rightarrow> map_option ((+) (length b)) (find_char c t))"
proof (induction b)
  case Nil
  then show ?case by (cases "find_char c t") simp_all
next
  case (Cons x b)
  then show ?case by (cases "find_char c t") (auto split: option.split)
qed

lemma parse_status_prefix:
  assumes "str_find CRLF b 0 = Some e"
  shows "parse_status (b @ t) = parse_status b"
proof -
  have e: "str_find CRLF (b @ t) 0 = Some e" using str_find_append [OF assms] .
  have le: "e \<le> length b" using str_find_bound [OF assms] by simp
  have sub: "substr (b @ t) (p + 1) (e - p - 1) = substr b (p + 1) (e - p - 1)" if "p < e" for p
    using that le by (intro substr_prefix) simp
  show ?thesis
    using le by (cases "find_char (CHR '' '') b") (auto simp: parse_status_def e assms find_char_app sub [simplified] split: option.split)
qed

lemma find_pat_occurs:
  "starts_with p (drop k s) \<Longrightarrow> k \<le> length s \<Longrightarrow> \<exists>i\<le>k. find_pat p s = Some i"
proof (induction s arbitrary: k)
  case (Cons c cs)
  show ?case
  proof (cases "starts_with p (c # cs)")
    case False
    with Cons.prems obtain j where "k = Suc j" by (cases k) auto
    with False Cons.IH [of j] Cons.prems show ?thesis by auto
  qed simp
qed (auto simp: starts_with_def)

lemma str_find_occurs:
  assumes "starts_with p (drop k s)" and "pos \<le> k" and "k \<le> length s"
  shows "\<exists>i\<le>k. str_find p s pos = Some i"
proof -
  have "\<exists>i\<le>k - pos. find_pat p (drop pos s) = Some i"
    using assms by (intro find_pat_occurs) (simp_all add: add.commute)
  then obtain i where "i \<le> k - pos" "find_pat p (drop pos s) = Some i" by blast
  with assms show ?thesis by (intro exI [of _ "pos + i"]) (simp add: str_find_def)
qed

lemma parse_headers_prefix:
  assumes "starts_with CRLF (drop h b)" and "h \<le> length b"
  shows "parse_headers (b @ t) h hpos hs = parse_headers b h hpos hs"
proof (induction "h - hpos" arbitrary: hpos hs rule: less_induct)
  case less
  show ?case
  proof (cases "hpos < h")
    case True
    then obtain i where i: "i \<le> h" "str_find CRLF b hpos = Some i"
      using str_find_occurs [OF assms(1), of hpos] assms(2) by auto
    have ge: "hpos \<le> i" using str_find_ge [OF i(2)] .
    have "substr (b @ t) hpos (i - hpos) = substr b hpos (i - hpos)"
      using i(1) assms(2) ge by (intro substr_prefix) simp
    with True i less [of "i + 2"] ge show ?thesis
      by (subst (1 2) parse_headers.simps) (simp add: str_find_append [OF i(2)])
  qed (subst (1 2) parse_headers.simps, simp)
qed

lemma starts_with_left: "starts_with (p @ q) s \<Longrightarrow> starts_with p s"
  by (metis append_eq_conv_conj min_absorb1 le_add1 length_append starts_with_def take_take)

lemma str_find_split:
  assumes "str_find p s pos = Some e"
  shows "starts_with p (drop e s)"
proof -
  from assms obtain i where i: "find_pat p (drop pos s) = Some i" "e = pos + i"
    by (auto simp: str_find_def split: if_splits)
  from find_pat_split [OF i(1)] have "drop i (drop pos s) = p @ drop (i + length p) (drop pos s)"
    by (metis append_eq_append_conv_if append_take_drop_id find_pat_bound i(1) add_leD1)
  with i(2) show ?thesis by (metis add.commute drop_drop starts_with_append)
qed

lemma crlf2_crlf:
  assumes "str_find (CRLF @ CRLF) s 0 = Some h"
  shows "starts_with CRLF (drop h s)" and "\<exists>e\<le>h. str_find CRLF s 0 = Some e"
proof -
  show c: "starts_with CRLF (drop h s)"
    using str_find_split [OF assms] starts_with_left by blast
  show "\<exists>e\<le>h. str_find CRLF s 0 = Some e"
    using str_find_occurs [OF c] str_find_bound [OF assms] by simp
qed


section \<open>Properties\<close>

text \<open>The head of a whole response text: where it ends, the status and the headers.\<close>

definition head_of :: "string \<Rightarrow> (nat \<times> int \<times> (string \<times> string) list) option" where
  "head_of txt =
     (case (str_find (CRLF @ CRLF) txt 0, str_find CRLF txt 0, parse_status txt) of
        (Some h, Some e, Some code) \<Rightarrow> Some (h, code, parse_headers txt h (e + 2) [])
      | _ \<Rightarrow> None)"

lemma read_response_body:
  assumes "head_of (concat rs) = Some (h, code, hs)"
  obtains buf rs' where "buf @ concat rs' = concat rs" and "h + 4 \<le> length buf"
    and "read_response rs =
      map_option (\<lambda>r. case r of Inl msg \<Rightarrow> (500, msg) | Inr body \<Rightarrow> (code, body)) (read_body buf rs' (h + 4) hs)"
proof -
  from assms obtain e where h: "str_find (CRLF @ CRLF) (concat rs) 0 = Some h"
    and e: "str_find CRLF (concat rs) 0 = Some e" and code: "parse_status (concat rs) = Some code"
    and hs: "hs = parse_headers (concat rs) h (e + 2) []"
    by (auto simp: head_of_def split: option.splits)
  from h have "str_find (CRLF @ CRLF) ('''' @ concat rs) 0 = Some h" by simp
  from fill_find [OF this] obtain b rs' where f: "fill_until (has_pat (CRLF @ CRLF) 0) '''' rs = Some (b, rs')"
    "str_find (CRLF @ CRLF) b 0 = Some h" "b @ concat rs' = concat rs" by (metis append_Nil)
  note c = crlf2_crlf [OF f(2)]
  have len: "h + 4 \<le> length b" using str_find_bound [OF f(2)] by (simp add: CRLF_def)
  from c(2) obtain e' where e': "str_find CRLF b 0 = Some e'" by blast
  have "e' = e" using str_find_append [OF e', of "concat rs'"] f(3) e by simp
  moreover have "parse_status b = Some code" using parse_status_prefix [OF e', of "concat rs'"] f(3) code by simp
  moreover have "parse_headers b h (e + 2) [] = hs"
    using parse_headers_prefix [OF c(1), of "concat rs'"] len f(3) hs by simp
  ultimately have "read_response rs =
      map_option (\<lambda>r. case r of Inl msg \<Rightarrow> (500, msg) | Inr body \<Rightarrow> (code, body)) (read_body b rs' (h + 4) hs)"
    by (simp add: read_response_def Let_def f(1,2) e')
  with that f(3) len show ?thesis by blast
qed

lemma read_sized_exact:
  assumes "buf @ concat rs' = txt" and "h \<le> length buf" and "length txt < 2 ^ 63" and "n < 2 ^ 63"
  shows "read_sized buf rs' h (to_string n) =
    (if n \<le> length txt - h then Inr (take n (drop h txt)) else Inl ''Invalid response: truncated body'')"
proof -
  have n: "stoull (to_string n) = Some (of_nat n)" using assms(4) by (intro stoull_to_string) simp
  have un: "unat (of_nat n :: u64) = n" using assms(4) by (simp add: unat_of_nat)
  have h: "h \<le> length txt" using assms(1,2) by auto
  have m: "(h + n) mod 2 ^ 64 = h + n" using assms(3,4) h by (intro mod_less) simp
  show ?thesis
  proof (cases "n \<le> length txt - h")
    case True
    then have "h + n \<le> length (buf @ concat rs')" using h assms(1) by simp
    then obtain b rs2 where b: "ensure_buffered (h + n) buf rs' = Some (b, rs2)" "h + n \<le> length b"
      "b @ concat rs2 = buf @ concat rs'" by (rule ensure_buffered_returns)
    have "substr b h n = take n (drop h txt)"
      using substr_prefix [OF b(2), of "concat rs2"] b(3) assms(1) by (simp add: substr_def)
    with True b(1) show ?thesis by (simp only: read_sized_def n option.case un m prod.case if_True)
  next
    case False
    then have long: "\<not> h + n \<le> length (buf @ concat rs')" using h assms(1) by simp
    have "ensure_buffered (h + n) buf rs' = None"
    proof (rule ccontr)
      assume "ensure_buffered (h + n) buf rs' \<noteq> None"
      then obtain b rs2 where "fill_until (\<lambda>b. h + n \<le> length b) buf rs' = Some (b, rs2)"
        by (auto simp: ensure_buffered_def)
      from fill_until_Some [OF this] long show False by (metis le_add1 length_append order_trans)
    qed
    with False show ?thesis by (simp only: read_sized_def n option.case un m if_False)
  qed
qed

text \<open>C30. However the bytes of a response are cut up by the network, the client returns the status of its
  status line and the body its framing announces: the pieces of a chunked body joined, exactly
  \<open>Content-Length\<close> bytes (or an error when fewer arrive), or everything up to the end of the
  connection.\<close>

theorem response_reassembled:
  assumes "head_of (concat rs) = Some (h, code, hs)" and "length (concat rs) < 2 ^ 63"
    and "payload = drop (h + 4) (concat rs)"
  shows "(is_chunked hs \<and> payload = encode_chunked cs @ t \<and> [] \<notin> set cs \<longrightarrow> read_response rs = Some (code, concat cs)) \<and>
    (\<not> is_chunked hs \<and> al_get hs ''content-length'' = Some (to_string n) \<and> n < 2 ^ 63 \<longrightarrow>
       read_response rs = Some (if n \<le> length payload then (code, take n payload)
                                else (500, ''Invalid response: truncated body''))) \<and>
    (\<not> is_chunked hs \<and> al_get hs ''content-length'' = None \<longrightarrow> read_response rs = Some (code, payload))"
proof -
  from read_response_body [OF assms(1)] obtain buf rs' where
    s: "buf @ concat rs' = concat rs" "h + 4 \<le> length buf" and
    r: "read_response rs = map_option (\<lambda>r. case r of Inl msg \<Rightarrow> (500, msg) | Inr body \<Rightarrow> (code, body))
      (read_body buf rs' (h + 4) hs)" .
  have len: "h + 4 \<le> length (buf @ concat rs')" "length (buf @ concat rs') < 2 ^ 64"
    using s(2) assms(2) unfolding s(1) [symmetric] by simp_all
  have "read_response rs = Some (code, concat cs)"
    if c: "is_chunked hs" "payload = encode_chunked cs @ t" "[] \<notin> set cs"
    using decode_encode_chunked [OF len, of cs t "''''"] c s(1) assms(3) by (simp add: r read_body_def)
  moreover have "read_response rs = Some (if n \<le> length payload then (code, take n payload)
      else (500, ''Invalid response: truncated body''))"
    if c: "\<not> is_chunked hs" "al_get hs ''content-length'' = Some (to_string n)" "n < 2 ^ 63"
    using c read_sized_exact [OF s assms(2) c(3)] assms(3) by (simp add: r read_body_def del: map_of_eq_Some_iff)
  moreover have "read_response rs = Some (code, payload)"
    if c: "\<not> is_chunked hs" "al_get hs ''content-length'' = None"
    using c s(1) assms(3) by (simp add: r read_body_def del: map_of_eq_None_iff)
  ultimately show ?thesis by blast
qed

definition hanging_response :: "string \<Rightarrow> string" where
  "hanging_response t = ''HTTP/1.1 200 OK'' @ CRLF @ ''Transfer-Encoding: chunked'' @ CRLF @ CRLF @
     ''ffffffffffffffec'' @ CRLF @ t"

text \<open>The size of a chunk is added to the position without an overflow check: a server that announces
  a chunk of \<open>2\<^sup>6\<^sup>4 - 20\<close> bytes sends the position back to the header of that chunk, and the request
  never returns.\<close>

theorem chunk_size_overflow_hangs:
  assumes "se_created E" "se_resolved E" "se_connected E"
    and "snd (send_all (build_request host port meth path body headers) (se_send E))"
    and "se_recv E = [hanging_response t]"
  shows "http_request E host port meth path body headers = None"
proof -
  let ?b = "hanging_response t"
  have split: "str_find (CRLF @ CRLF) ?b 0 = Some 43" "str_find CRLF ?b 0 = Some 15" "str_find CRLF ?b 17 = Some 43"
    by (simp_all add: hanging_response_def CRLF_def str_find_def starts_with_def)
  have status: "parse_status ?b = Some 200"
    by (simp add: parse_status_def split(2)) (simp add: hanging_response_def CRLF_def substr_def stoi_def isspace_def
        split_sign_def isdigit_def digits_val_def)
  have line: "substr ?b 17 26 = ''Transfer-Encoding: chunked''"
    by (simp add: hanging_response_def CRLF_def substr_def)
  have head: "parse_headers ?b 43 17 [] = header_line ''Transfer-Encoding: chunked'' []"
    by (subst parse_headers.simps) (simp add: split(3) line, subst parse_headers.simps, simp)
  have hdr: "header_line ''Transfer-Encoding: chunked'' [] = [(''transfer-encoding'', ''chunked'')]" by code_simp
  have "drop 47 ?b = ''ffffffffffffffec'' @ CRLF @ t" "47 \<le> length ?b"
    by (simp_all add: hanging_response_def CRLF_def)
  then have "decode_chunked ?b [] 47 '''' = None"
    using decode_stuck [of ?b "[]" 47 "''''" _ t] by (cases "decode_chunked ?b [] 47 ''''") auto
  moreover have "is_chunked [(''transfer-encoding'', ''chunked'')]" by code_simp
  ultimately have rb: "read_body ?b [] 47 (parse_headers ?b 43 17 []) = None" by (simp add: read_body_def head hdr)
  have "fill_until (has_pat (CRLF @ CRLF) 0) '''' [?b] = Some (?b, [])"
    using split(1) by (simp add: has_pat_def) (simp add: CRLF_def str_find_def)
  then show ?thesis
    using assms status rb by (simp add: http_request_def read_response_def Let_def split)
qed


section \<open>Witnesses\<close>

definition sample_pieces :: "string list" where
  "sample_pieces = [''HTTP/1.1 200 OK'' @ CRLF @ ''Transfer-Encoding: chunked'' @ CRLF @ [CHR 0x0D],
     [CHR 0x0A] @ ''2'' @ CRLF @ ''a'', ''b'' @ CRLF @ ''0'' @ CRLF @ CRLF]"

theorem response_reassembled_witness:
  "head_of (concat sample_pieces) = Some (43, 200, [(''transfer-encoding'', ''chunked'')]) \<and>
   read_response sample_pieces = Some (200, ''ab'')"
proof
  show h: "head_of (concat sample_pieces) = Some (43, 200, [(''transfer-encoding'', ''chunked'')])"
    by code_simp
  have "drop (43 + 4) (concat sample_pieces) = encode_chunked [''ab''] @ ''''" by code_simp
  moreover have "is_chunked [(''transfer-encoding'', ''chunked'')]" by code_simp
  moreover have "length (concat sample_pieces) < 2 ^ 63" by (simp add: sample_pieces_def CRLF_def)
  ultimately show "read_response sample_pieces = Some (200, ''ab'')"
    using response_reassembled [OF h, of "encode_chunked [''ab''] @ ''''" "[''ab'']" "''''" 0] by simp
qed

theorem chunk_size_overflow_hangs_witness:
  "http_request \<lparr>se_created = True, se_resolved = True, se_connected = True, se_send = [Sent 100],
     se_recv = [hanging_response ''x'']\<rparr> ''h'' 80 ''GET'' ''/health'' '''' [] = None"
  by (rule chunk_size_overflow_hangs) (simp_all add: build_request_def CRLF_def to_string.simps)


end
