(* ===== verification/Control_Client.thy ===== *)
theory Control_Client
  imports Control_Server Http_Client
begin

text \<open>
  The control plane client of \<open>src/control/client.cpp\<close>: connecting, registering, heartbeats, chunk
  reports, queries, and fetching and acknowledging replication commands.

  A request goes through a network \<open>'w http_net\<close>, which stands for \<open>SimpleHttpClient::http_request\<close>
  (theory \<open>Http_Client\<close>) with whatever is at the other end; it returns a status and a body and may
  change the outside \<open>'w\<close>. \<open>server_net\<close> is the network with the server of theory \<open>Control_Server\<close> at
  the other end: the router of the HTTP library and its answer to an exception in a handler are
  parameters.
\<close>

section \<open>State\<close>

record ControlPlaneConfig =
  pc_endpoint :: string
  pc_port :: u16
  pc_heartbeat_interval_sec :: u32
  pc_reconnect_interval_sec :: u32
  pc_enable :: bool

record ControlPlaneMetrics =
  pm_total_nodes :: u64
  pm_active_nodes :: u64
  pm_total_chunks :: u64
  pm_cache_hit_rate :: u64

text \<open>A callback returns \<open>True\<close>, or throws (\<open>False\<close>).\<close>

record 'w ControlPlaneClient =
  cc_config :: ControlPlaneConfig
  cc_connected :: bool
  cc_heartbeat_running :: bool
  cc_stop_heartbeat :: bool
  cc_has_update_callback :: bool
  cc_replication_callback :: "(ReplicationCommand list \<Rightarrow> 'w \<Rightarrow> bool \<times> 'w) option"
  cc_registered_node_id :: string

definition new_control_client :: "ControlPlaneConfig \<Rightarrow> 'w ControlPlaneClient" where
  "new_control_client cfg = \<lparr>cc_config = cfg, cc_connected = False, cc_heartbeat_running = False,
     cc_stop_heartbeat = False, cc_has_update_callback = False, cc_replication_callback = None,
     cc_registered_node_id = ''''\<rparr>"

type_synonym 'w http_net =
  "string \<Rightarrow> u16 \<Rightarrow> string \<Rightarrow> string \<Rightarrow> string \<Rightarrow> (string \<times> string) list \<Rightarrow> 'w \<Rightarrow> (int \<times> string) \<times> 'w"

definition get_base_url :: "'w ControlPlaneClient \<Rightarrow> string" where
  "get_base_url c = ''http://'' @ pc_endpoint (cc_config c) @ '':'' @ to_string (unat (pc_port (cc_config c)))"

definition call :: "'w http_net \<Rightarrow> 'w ControlPlaneClient \<Rightarrow> string \<Rightarrow> string \<Rightarrow> 'w \<Rightarrow> (int \<times> string) \<times> 'w" where
  "call net c meth path w = net (pc_endpoint (cc_config c)) (pc_port (cc_config c)) meth path '''' [] w"

definition call_json :: "'w http_net \<Rightarrow> 'w ControlPlaneClient \<Rightarrow> string \<Rightarrow> string \<Rightarrow> string \<Rightarrow> 'w \<Rightarrow> (int \<times> string) \<times> 'w" where
  "call_json net c meth path body w =
     net (pc_endpoint (cc_config c)) (pc_port (cc_config c)) meth path body [(''Content-Type'', ''application/json'')] w"

section \<open>Connection and heartbeat loop\<close>

definition check_connection :: "'w http_net \<Rightarrow> 'w ControlPlaneClient \<Rightarrow> 'w \<Rightarrow> bool \<times> 'w" where
  "check_connection net c w =
     (if \<not> pc_enable (cc_config c) then (False, w)
      else case call net c ''GET'' ''/health'' w of ((code, _), w') \<Rightarrow> (code = 200, w'))"

definition connect :: "'w http_net \<Rightarrow> 'w ControlPlaneClient \<Rightarrow> 'w \<Rightarrow> (bool \<times> 'w ControlPlaneClient) \<times> 'w" where
  "connect net c w =
     (case check_connection net c w of
        (False, w') \<Rightarrow> ((True, c\<lparr>cc_connected := True\<rparr>), w')
      | (True, w') \<Rightarrow> ((True, c\<lparr>cc_connected := True\<rparr>), w'))"

definition stop_heartbeat_loop :: "'w ControlPlaneClient \<Rightarrow> 'w ControlPlaneClient" where
  "stop_heartbeat_loop c =
     (if \<not> cc_heartbeat_running c then c else c\<lparr>cc_stop_heartbeat := True, cc_heartbeat_running := False\<rparr>)"

definition disconnect :: "'w ControlPlaneClient \<Rightarrow> 'w ControlPlaneClient" where
  "disconnect c = stop_heartbeat_loop (if cc_connected c then c\<lparr>cc_connected := False\<rparr> else c)"

definition start_heartbeat_loop :: "'w ControlPlaneClient \<Rightarrow> 'w ControlPlaneClient" where
  "start_heartbeat_loop c =
     (if cc_heartbeat_running c then c else c\<lparr>cc_heartbeat_running := True, cc_stop_heartbeat := False\<rparr>)"

definition heartbeat_interval :: "'w ControlPlaneClient \<Rightarrow> u32" where
  "heartbeat_interval c = max (pc_heartbeat_interval_sec (cc_config c)) 1"

definition subscribe_to_updates :: "'w ControlPlaneClient \<Rightarrow> 'w ControlPlaneClient" where
  "subscribe_to_updates c = c\<lparr>cc_has_update_callback := True\<rparr>"

definition subscribe_to_replication_commands ::
  "(ReplicationCommand list \<Rightarrow> 'w \<Rightarrow> bool \<times> 'w) \<Rightarrow> 'w ControlPlaneClient \<Rightarrow> 'w ControlPlaneClient" where
  "subscribe_to_replication_commands cb c = c\<lparr>cc_replication_callback := Some cb\<rparr>"

section \<open>Reports to the server\<close>

definition registration_json :: "'j json_api \<Rightarrow> NodeRegistration \<Rightarrow> 'j" where
  "registration_json J r = ja_object J
     [(''node_id'', ja_string J (nr_node_id r)), (''address'', ja_string J (nr_address r)),
      (''p2p_port'', ja_unsigned J (ucast (nr_p2p_port r))), (''http_port'', ja_unsigned J (ucast (nr_http_port r))),
      (''memory_capacity_mb'', ja_unsigned J (nr_memory_capacity_mb r)),
      (''disk_capacity_mb'', ja_unsigned J (nr_disk_capacity_mb r)),
      (''available_chunks'', ja_array J (map (ja_string J) (nr_available_chunks r)))]"

definition client_register_node ::
  "'j json_api \<Rightarrow> 'w http_net \<Rightarrow> NodeRegistration \<Rightarrow> 'w ControlPlaneClient \<Rightarrow> 'w \<Rightarrow> (bool \<times> 'w ControlPlaneClient) \<times> 'w" where
  "client_register_node J net r c w =
     (if \<not> cc_connected c then ((False, c), w)
      else case ja_dump J (registration_json J r) of
             None \<Rightarrow> ((False, c), w)
           | Some body \<Rightarrow>
               (case call_json net c ''POST'' ''/api/v1/nodes'' body w of
                  ((code, _), w') \<Rightarrow>
                    if code = 200 \<or> code = 201 then ((True, c\<lparr>cc_registered_node_id := nr_node_id r\<rparr>), w')
                    else ((False, c), w')))"

definition status_json :: "'j json_api \<Rightarrow> u64 \<Rightarrow> NodeStatus \<Rightarrow> 'j" where
  "status_json J ms st = ja_object J
     [(''node_id'', ja_string J (ns_node_id st)), (''online'', ja_bool J (ns_online st)),
      (''memory_used_mb'', ja_unsigned J (ns_memory_used_mb st)), (''disk_used_mb'', ja_unsigned J (ns_disk_used_mb st)),
      (''cache_hit_rate'', ja_double J (ns_cache_hit_rate st)), (''total_chunks'', ja_unsigned J (ns_total_chunks st)),
      (''active_connections'', ja_unsigned J (ns_active_connections st)),
      (''upload_speed_mbps'', ja_double J (ns_upload_speed_mbps st)),
      (''download_speed_mbps'', ja_double J (ns_download_speed_mbps st)),
      (''timestamp'', ja_unsigned J ms)]"

definition send_heartbeat ::
  "'j json_api \<Rightarrow> 'w http_net \<Rightarrow> u64 \<Rightarrow> NodeStatus \<Rightarrow> 'w ControlPlaneClient \<Rightarrow> 'w \<Rightarrow> bool \<times> 'w" where
  "send_heartbeat J net ms st c w =
     (if \<not> cc_connected c then (False, w)
      else case ja_dump J (status_json J ms st) of
             None \<Rightarrow> (False, w)
           | Some body \<Rightarrow>
               (case call_json net c ''PUT'' (''/api/v1/nodes/'' @ ns_node_id st @ ''/heartbeat'') body w of
                  ((code, _), w') \<Rightarrow> (code = 200 \<or> code = 204, w')))"

text \<open>Rounds of the heartbeat thread, each with the clock and what the status provider returns
  (\<open>None\<close>: it throws, which the loop logs).\<close>

fun heartbeat_rounds ::
  "'j json_api \<Rightarrow> (u64 \<Rightarrow> 'w http_net) \<Rightarrow> (u64 \<times> NodeStatus option) list \<Rightarrow> 'w ControlPlaneClient \<Rightarrow> 'w \<Rightarrow> bool list \<times> 'w" where
  "heartbeat_rounds J net [] c w = ([], w)"
| "heartbeat_rounds J net ((ms, prov) # rounds) c w =
     (if cc_stop_heartbeat c then ([], w)
      else case (if \<not> cc_connected c then (False, w)
                 else case prov of None \<Rightarrow> (False, w) | Some st \<Rightarrow> send_heartbeat J (net ms) ms st c w) of
             (ok, w') \<Rightarrow> (case heartbeat_rounds J net rounds c w' of (oks, w'') \<Rightarrow> (ok # oks, w'')))"

definition chunk_ids_json :: "'j json_api \<Rightarrow> string list \<Rightarrow> 'j" where
  "chunk_ids_json J ids = ja_object J [(''chunk_ids'', ja_array J (map (ja_string J) ids))]"

definition report_chunks ::
  "'j json_api \<Rightarrow> 'w http_net \<Rightarrow> string \<Rightarrow> string list \<Rightarrow> 'w ControlPlaneClient \<Rightarrow> 'w \<Rightarrow> bool \<times> 'w" where
  "report_chunks J net node_id chunk_ids c w =
     (if \<not> cc_connected c then (False, w)
      else case ja_dump J (chunk_ids_json J chunk_ids) of
             None \<Rightarrow> (False, w)
           | Some body \<Rightarrow>
               (case call_json net c ''PUT'' (''/api/v1/nodes/'' @ node_id @ ''/chunks'') body w of
                  ((code, _), w') \<Rightarrow> (code = 200 \<or> code = 204, w')))"

section \<open>Queries\<close>

text \<open>The elements of an optional array member, each read by \<open>f\<close>; the first that throws ends the query.\<close>

definition read_members :: "'j json_api \<Rightarrow> ('j \<Rightarrow> 'a option) \<Rightarrow> 'j \<Rightarrow> string \<Rightarrow> 'a list option" where
  "read_members J f j k = (if ja_contains J j k then those (map f (member_items J j k)) else Some [])"

definition read_location :: "'j json_api \<Rightarrow> 'j \<Rightarrow> ChunkLocation option" where
  "read_location J loc = do {
     chunk_id \<leftarrow> ja_value_string J loc ''chunk_id'' '''';
     peers \<leftarrow> read_members J (ja_get_string J) loc ''peer_ids'';
     Some \<lparr>cl_chunk_id = chunk_id, cl_peer_ids = peers\<rparr> }"

definition read_node :: "'j json_api \<Rightarrow> 'j \<Rightarrow> NodeRegistration option" where
  "read_node J n = do {
     node_id \<leftarrow> ja_value_string J n ''node_id'' '''';
     address \<leftarrow> ja_value_string J n ''address'' '''';
     p2p_port \<leftarrow> ja_value_int J n ''p2p_port'' 0;
     http_port \<leftarrow> ja_value_int J n ''http_port'' 0;
     mem \<leftarrow> ja_value_int J n ''memory_capacity_mb'' 0;
     disk \<leftarrow> ja_value_int J n ''disk_capacity_mb'' 0;
     chunks \<leftarrow> read_members J (ja_get_string J) n ''available_chunks'';
     Some \<lparr>nr_node_id = node_id, nr_address = address, nr_p2p_port = u16_of_int p2p_port,
       nr_http_port = u16_of_int http_port, nr_memory_capacity_mb = u64_of_int mem,
       nr_disk_capacity_mb = u64_of_int disk, nr_available_chunks = chunks\<rparr> }"

definition read_metrics :: "'j json_api \<Rightarrow> 'j \<Rightarrow> ControlPlaneMetrics option" where
  "read_metrics J j = do {
     nodes \<leftarrow> ja_value_int J j ''total_nodes'' 0;
     active \<leftarrow> ja_value_int J j ''active_nodes'' 0;
     chunks \<leftarrow> ja_value_int J j ''total_chunks'' 0;
     rate \<leftarrow> ja_value_int J j ''cache_hit_rate'' 0;
     Some \<lparr>pm_total_nodes = u64_of_int nodes, pm_active_nodes = u64_of_int active,
       pm_total_chunks = u64_of_int chunks, pm_cache_hit_rate = u64_of_int rate\<rparr> }"

text \<open>What a query makes of an answer: only status 200 is read; a parse error or another exception
  gives \<open>nullopt\<close>.\<close>

definition read_answer :: "'j json_api \<Rightarrow> ('j \<Rightarrow> 'a option) \<Rightarrow> int \<times> string \<Rightarrow> 'a option" where
  "read_answer J f r = (case r of (code, body) \<Rightarrow> if code = 200 then Option.bind (ja_parse J body) f else None)"

definition client_query_chunk_locations ::
  "'j json_api \<Rightarrow> 'w http_net \<Rightarrow> string list \<Rightarrow> 'w ControlPlaneClient \<Rightarrow> 'w \<Rightarrow> ChunkLocation list option \<times> 'w" where
  "client_query_chunk_locations J net ids c w =
     (if \<not> cc_connected c then (None, w)
      else case ja_dump J (chunk_ids_json J ids) of
             None \<Rightarrow> (None, w)
           | Some body \<Rightarrow>
               (case call_json net c ''POST'' ''/api/v1/chunks/locations'' body w of
                  (r, w') \<Rightarrow> (read_answer J (\<lambda>j. read_members J (read_location J) j ''locations'') r, w')))"

definition query_nodes ::
  "'j json_api \<Rightarrow> 'w http_net \<Rightarrow> 'w ControlPlaneClient \<Rightarrow> 'w \<Rightarrow> NodeRegistration list option \<times> 'w" where
  "query_nodes J net c w =
     (if \<not> cc_connected c then (None, w)
      else case call net c ''GET'' ''/api/v1/nodes'' w of
             (r, w') \<Rightarrow> (read_answer J (\<lambda>j. read_members J (read_node J) j ''nodes'') r, w'))"

definition client_get_metrics ::
  "'j json_api \<Rightarrow> 'w http_net \<Rightarrow> 'w ControlPlaneClient \<Rightarrow> 'w \<Rightarrow> ControlPlaneMetrics option \<times> 'w" where
  "client_get_metrics J net c w =
     (if \<not> cc_connected c then (None, w)
      else case call net c ''GET'' ''/api/v1/metrics'' w of
             (r, w') \<Rightarrow> (read_answer J (read_metrics J) r, w'))"

section \<open>Replication commands\<close>

definition read_command :: "'j json_api \<Rightarrow> 'j \<Rightarrow> ReplicationCommand option" where
  "read_command J cmd = do {
     command_id \<leftarrow> ja_value_string J cmd ''command_id'' '''';
     chunk_id \<leftarrow> ja_value_string J cmd ''chunk_id'' '''';
     action \<leftarrow> ja_value_string J cmd ''action'' '''';
     src \<leftarrow> ja_value_string J cmd ''source_node_id'' '''';
     tgt \<leftarrow> ja_value_string J cmd ''target_node_id'' '''';
     priority \<leftarrow> ja_value_int J cmd ''priority'' 0;
     created \<leftarrow> ja_value_int J cmd ''created_at'' 0;
     Some \<lparr>rc_command_id = command_id, rc_chunk_id = chunk_id, rc_action = action, rc_source_node_id = src,
       rc_target_node_id = tgt, rc_priority = priority, rc_created_at = u64_of_int created\<rparr> }"

text \<open>\<open>None\<close>: the exception of \<open>dump\<close> leaves \<open>ack_command\<close>.\<close>

definition ack_command ::
  "'j json_api \<Rightarrow> 'w http_net \<Rightarrow> string \<Rightarrow> 'w ControlPlaneClient \<Rightarrow> 'w \<Rightarrow> bool option \<times> 'w" where
  "ack_command J net command_id c w =
     (if \<not> cc_connected c \<or> command_id = '''' then (Some False, w)
      else if cc_registered_node_id c = '''' then (Some False, w)
      else case ja_dump J (ja_object J [(''command_id'', ja_string J command_id)]) of
             None \<Rightarrow> (None, w)
           | Some body \<Rightarrow>
               (case call_json net c ''POST'' (''/api/v1/nodes/'' @ cc_registered_node_id c @ ''/commands/ack'') body w of
                  ((code, _), w') \<Rightarrow> (Some (code = 200 \<or> code = 204), w')))"

fun ack_all ::
  "'j json_api \<Rightarrow> 'w http_net \<Rightarrow> ReplicationCommand list \<Rightarrow> 'w ControlPlaneClient \<Rightarrow> 'w \<Rightarrow> bool \<times> 'w" where
  "ack_all J net [] c w = (True, w)"
| "ack_all J net (cmd # cmds) c w =
     (if rc_command_id cmd = '''' then ack_all J net cmds c w
      else case ack_command J net (rc_command_id cmd) c w of
             (None, w') \<Rightarrow> (False, w')
           | (Some _, w') \<Rightarrow> ack_all J net cmds c w')"

definition handle_commands ::
  "'j json_api \<Rightarrow> 'w http_net \<Rightarrow> ReplicationCommand list \<Rightarrow> 'w ControlPlaneClient \<Rightarrow> 'w \<Rightarrow> ReplicationCommand list option \<times> 'w" where
  "handle_commands J net commands c w =
     (if commands = [] then (Some commands, w)
      else case (case cc_replication_callback c of None \<Rightarrow> (True, w) | Some cb \<Rightarrow> cb commands w) of
             (False, w') \<Rightarrow> (Some commands, w')
           | (True, w') \<Rightarrow>
               (case ack_all J net commands c w' of
                  (ok, w'') \<Rightarrow> (if ok then Some commands else None, w'')))"

definition fetch_replication_commands ::
  "'j json_api \<Rightarrow> 'w http_net \<Rightarrow> 'w ControlPlaneClient \<Rightarrow> 'w \<Rightarrow> ReplicationCommand list option \<times> 'w" where
  "fetch_replication_commands J net c w =
     (if \<not> cc_connected c \<or> cc_registered_node_id c = '''' then (None, w)
      else case call net c ''GET'' (''/api/v1/nodes/'' @ cc_registered_node_id c @ ''/commands'') w of
             (r, w') \<Rightarrow>
               (case read_answer J (\<lambda>j. read_members J (read_command J) j ''commands'') r of
                  None \<Rightarrow> (None, w')
                | Some commands \<Rightarrow> handle_commands J net commands c w'))"

section \<open>The client against the server\<close>

definition server_net ::
  "'j json_api \<Rightarrow> (string \<Rightarrow> string \<Rightarrow> string \<Rightarrow> cp_request) \<Rightarrow> int \<times> string \<Rightarrow> u64 \<Rightarrow> ControlPlaneServer http_net" where
  "server_net J route exn ms host port meth path body headers s =
     (case serve J ms (route meth path body) s of
        (s', None) \<Rightarrow> (exn, s')
      | (s', Some r) \<Rightarrow>
          (case response_text J (cr_body r) of None \<Rightarrow> (exn, s') | Some t \<Rightarrow> ((int (cr_status r), t), s')))"

text \<open>A document survives being written, sent and parsed.\<close>

definition travels :: "'j json_api \<Rightarrow> 'j \<Rightarrow> string \<Rightarrow> bool" where
  "travels J j t \<longleftrightarrow> ja_dump J j = Some t \<and> t \<noteq> '''' \<and> ja_parse J t = Some j"

lemma parse_travelled: "travels J j t \<Longrightarrow> parse_json_body J t = j"
  by (simp add: travels_def parse_json_body_def)

context json_lib
begin

lemma those_map: "(\<And>x. x \<in> set xs \<Longrightarrow> f (g x) = Some (h x)) \<Longrightarrow> those (map f (map g xs)) = Some (map h xs)"
  by (induction xs) simp_all

lemma read_members_object:
  assumes "distinct (map fst kvs)" and "map_of kvs k = Some (ja_array J (map g xs))"
    and "\<And>x. x \<in> set xs \<Longrightarrow> f (g x) = Some (h x)"
  shows "read_members J f (ja_object J kvs) k = Some (map h xs)"
proof -
  have "k \<in> fst ` set kvs" using assms(2) by (metis map_of_SomeD fst_conv image_eqI)
  then show ?thesis
    using those_map [of xs f g h] assms(3) by (simp add: read_members_def contains_object [OF assms(1)] member_items_def
        at_object [OF assms(1,2)] items_array)
qed

lemma read_strings_chunk_ids:
  "ja_contains J (chunk_ids_json J ids) ''chunk_ids''"
  "read_strings J (chunk_ids_json J ids) ''chunk_ids'' = Some ids"
  by (simp_all add: chunk_ids_json_def object_reads)

lemma read_location_json: "read_location J (location_json J l) = Some l"
  using read_members_object [where f = "ja_get_string J" and h = "\<lambda>x. x" and xs = "cl_peer_ids l"
      and g = "ja_string J" and k = "''peer_ids''"
      and kvs = "[(''chunk_id'', ja_string J (cl_chunk_id l)), (''peer_ids'', ja_array J (map (ja_string J) (cl_peer_ids l)))]"]
  by (simp add: read_location_def location_json_def object_reads get_string)

lemma read_locations_json:
  "read_members J (read_location J) (ja_object J [(''locations'', ja_array J (map (location_json J) ls))]) ''locations'' = Some ls"
  using read_members_object [where f = "read_location J" and h = "\<lambda>x. x" and g = "location_json J" and xs = ls
      and k = "''locations''" and kvs = "[(''locations'', ja_array J (map (location_json J) ls))]"]
  by (simp add: read_location_json)

text \<open>A registration that went through JSON: the capacities have passed through a C++ \<open>int\<close>.\<close>

lemma read_registration_json:
  "ja_contains J (registration_json J r) ''node_id'' \<and> ja_contains J (registration_json J r) ''address'' \<and>
   read_registration J (registration_json J r) =
     Some (r\<lparr>nr_memory_capacity_mb := u64_of_int (ucast (nr_memory_capacity_mb r)),
             nr_disk_capacity_mb := u64_of_int (ucast (nr_disk_capacity_mb r))\<rparr>)"
proof -
  have p: "u16_of_int (ucast (ucast p :: u64)) = p" for p :: u16
    by (rule bit_word_eqI) (auto simp: u16_of_int_def bit_simps)
  show ?thesis by (simp add: registration_json_def read_registration_def object_reads p)
qed

end


lemma server_net_reply:
  assumes "route meth path body = r" and "serve J ms r s = (s', Some resp)" and "response_text J (cr_body resp) = Some t"
  shows "server_net J route exn ms host port meth path body headers s = ((int (cr_status resp), t), s')"
  using assms by (simp add: server_net_def)

lemma server_net_status:
  assumes "route meth path body = r" and "serve J ms r s = (s', Some resp)"
  shows "\<exists>code t. server_net J route exn ms host port meth path body headers s = ((code, t), s') \<and>
    code \<in> {fst exn, int (cr_status resp)}"
  using assms by (cases exn) (auto simp: server_net_def split: option.split)

section \<open>Properties\<close>

text \<open>C24. A location query through the client returns, for every chunk asked for and in that order,
  exactly the nodes the server has in its index, and leaves the index as it is.\<close>

theorem locations_end_to_end:
  assumes "json_lib J" and "cc_connected c" and "travels J (chunk_ids_json J ids) q"
    and "route ''POST'' ''/api/v1/chunks/locations'' q = Query_locations q"
    and "travels J (ja_object J [(''locations'', ja_array J (map (location_json J) (map (locate (cs_chunk_index s)) ids)))]) a"
  shows "\<exists>s'. client_query_chunk_locations J (server_net J route exn ms) ids c s
      = (Some (map (locate (cs_chunk_index s)) ids), s') \<and> cs_chunk_index s' = cs_chunk_index s \<and> cs_nodes s' = cs_nodes s"
proof -
  have q: "ja_dump J (chunk_ids_json J ids) = Some q" using assms(3) by (simp add: travels_def)
  have a: "ja_dump J (ja_object J [(''locations'', ja_array J (map (location_json J) (map (locate (cs_chunk_index s)) ids)))]) = Some a"
    "ja_parse J a = Some (ja_object J [(''locations'', ja_array J (map (location_json J) (map (locate (cs_chunk_index s)) ids)))])"
    using assms(5) by (simp_all only: travels_def)
  note r = json_lib.read_strings_chunk_ids [OF assms(1), of ids] parse_travelled [OF assms(3)]
  define s' where "s' = s\<lparr>cs_metrics := (cs_metrics s)\<lparr>sm_total_queries := sm_total_queries (cs_metrics s) + 1\<rparr>\<rparr>"
  have "serve J ms (Query_locations q) s = (s', reply 200 (Locations_body (map (locate (cs_chunk_index s)) ids)))"
    using r by (simp add: query_locations_handler_def Let_def s'_def)
  note n = server_net_reply [where route = route, OF assms(4) this, unfolded cp_response.simps response_text.simps, OF a(1)]
  have "client_query_chunk_locations J (server_net J route exn ms) ids c s = (Some (map (locate (cs_chunk_index s)) ids), s')"
    using assms(2) a(2) json_lib.read_locations_json [OF assms(1), of "map (locate (cs_chunk_index s)) ids"]
    by (simp add: client_query_chunk_locations_def call_json_def q n read_answer_def)
  then show ?thesis by (auto simp: s'_def)
qed

text \<open>C33. Registering through the client, when the server has room or knows the node: the call succeeds,
  the server's record of the node is the registration sent, with both capacities truncated to 32
  bits and sign-extended, and every announced chunk is located at the node.\<close>

theorem registration_end_to_end:
  assumes "json_lib J" and "cc_connected c" and "travels J (registration_json J r) q"
    and "route ''POST'' ''/api/v1/nodes'' q = Register q"
    and "al_get (cs_nodes s) (nr_node_id r) \<noteq> None \<or> length (cs_nodes s) < unat (sc_max_nodes (cs_config s))"
    and "response_text J (Registered_body (nr_node_id r)) = Some a" and "index_wf (cs_chunk_index s)"
  shows "\<exists>c' s' nd. client_register_node J (server_net J route exn ms) r c s = ((True, c'), s') \<and>
    cc_registered_node_id c' = nr_node_id r \<and> al_get (cs_nodes s') (nr_node_id r) = Some nd \<and>
    ni_registration nd = r\<lparr>nr_memory_capacity_mb := scast (ucast (nr_memory_capacity_mb r) :: u32),
      nr_disk_capacity_mb := scast (ucast (nr_disk_capacity_mb r) :: u32)\<rparr> \<and>
    ni_last_heartbeat_time nd = ms div 1000 \<and>
    (\<forall>ch\<in>set (nr_available_chunks r). nr_node_id r \<in> set (locations_of (cs_chunk_index s') ch))"
proof -
  define r' where "r' = r\<lparr>nr_memory_capacity_mb := scast (ucast (nr_memory_capacity_mb r) :: u32),
      nr_disk_capacity_mb := scast (ucast (nr_disk_capacity_mb r) :: u32)\<rparr>"
  have r': "nr_node_id r' = nr_node_id r" "nr_available_chunks r' = nr_available_chunks r" by (simp_all add: r'_def)
  note reg = json_lib.read_registration_json [OF assms(1), of r]
  have reg': "read_registration J (registration_json J r) = Some r'" using reg by (simp add: r'_def u64_of_int_def)
  have dump: "ja_dump J (registration_json J r) = Some q" using assms(3) by (simp add: travels_def)
  obtain nd where h: "register_handler J (ms div 1000) q s =
      (enter_node r' nd s, reply 201 (Registered_body (nr_node_id r)))"
    and nd: "ni_registration nd = r'" "ni_last_heartbeat_time nd = ms div 1000"
  proof (cases "al_get (cs_nodes s) (nr_node_id r)")
    case None
    with assms(5) reg reg' that [of "new_node_info (ms div 1000) r'"] show ?thesis
      by (simp add: register_handler_def parse_travelled [OF assms(3)] Let_def r' new_node_info_def
          del: map_of_eq_None_iff map_of_eq_Some_iff)
  next
    case (Some nd0)
    with reg reg' that [of "reregister (ms div 1000) r' nd0"] show ?thesis
      by (simp add: register_handler_def parse_travelled [OF assms(3)] Let_def r' reregister_def
          del: map_of_eq_None_iff map_of_eq_Some_iff)
  qed
  have "client_register_node J (server_net J route exn ms) r c s =
      ((True, c\<lparr>cc_registered_node_id := nr_node_id r\<rparr>), enter_node r' nd s)"
    using assms(2) server_net_reply [where route = route, OF assms(4), of J ms s "enter_node r' nd s" _ a] h assms(6)
    by (simp add: client_register_node_def call_json_def dump)
  moreover have "al_get (cs_nodes (enter_node r' nd s)) (nr_node_id r) = Some nd"
    by (simp add: enter_node_def Let_def r' al_get_put)
  moreover have "\<forall>ch\<in>set (nr_available_chunks r). nr_node_id r \<in> set (locations_of (cs_chunk_index (enter_node r' nd s)) ch)"
    using assms(7) by (simp add: enter_node_def Let_def r' locations_update)
  ultimately show ?thesis using nd r'_def by auto
qed

text \<open>C38. The heartbeats a node sends under its own id do not keep it alive: unless another node happens
  to be called by its id without the first character, every heartbeat of the loop fails, the server
  is left as it was, and the node counts as inactive once the heartbeat timeout has passed since
  its registration.\<close>

theorem heartbeats_lost:
  assumes "CHR ''/'' \<notin> set n" and "n \<noteq> ''''" and "al_get (cs_nodes s) (tl n) = None"
    and route: "\<And>body. route ''PUT'' (node_path n ''/heartbeat'') body = Heartbeat (node_path n ''/heartbeat'') body"
    and "fst exn \<notin> {200, 204}"
    and "\<And>ms st. (ms, Some st) \<in> set rounds \<Longrightarrow> ns_node_id st = n"
    and "al_get (cs_nodes s) n = Some nd"
    and "ms' div 1000 - ni_last_heartbeat_time nd > ucast (sc_heartbeat_timeout_sec (cs_config s))"
  shows "\<exists>oks. heartbeat_rounds J (server_net J route exn) rounds c s = (oks, s) \<and> True \<notin> set oks \<and>
    \<not> is_node_active (ms' div 1000) s nd \<and> \<not> nv_online (view_node (ms' div 1000) s nd)"
proof -
  have inactive: "\<not> is_node_active (ms' div 1000) s nd" using assms(8) by (simp add: is_node_active_def)
  have hb: "heartbeat_handler J t (node_path n ''/heartbeat'') body s =
      (s, reply (if tl n = '''' then 400 else 404) (Error_body (if tl n = '''' then ''Invalid path'' else ''Node not found: '' @ tl n)))"
    for t body
    using assms(3) by (simp add: heartbeat_handler_def Let_def path_node_id_node_path [OF assms(1,2)]
        del: map_of_eq_None_iff map_of_eq_Some_iff)
  have one: "\<exists>ok. send_heartbeat J (server_net J route exn ms) ms st c s = (ok, s) \<and> \<not> ok" if "ns_node_id st = n" for ms st
  proof (cases "cc_connected c \<and> ja_dump J (status_json J ms st) \<noteq> None")
    case True
    then obtain body where body: "ja_dump J (status_json J ms st) = Some body" by auto
    define resp where "resp = \<lparr>cr_status = (if tl n = [] then 400 else 404),
      cr_body = Error_body (if tl n = [] then ''Invalid path'' else ''Node not found: '' @ tl n)\<rparr>"
    have "serve J ms (Heartbeat (node_path n ''/heartbeat'') body) s = (s, Some resp)" by (simp add: hb resp_def)
    from server_net_status [where route = route, OF route this] obtain code t where
      "server_net J route exn ms (pc_endpoint (cc_config c)) (pc_port (cc_config c)) ''PUT'' (node_path n ''/heartbeat'') body
         [(''Content-Type'', ''application/json'')] s = ((code, t), s)" "code \<in> {fst exn, int (cr_status resp)}" by blast
    with True body assms(5) show ?thesis
      by (auto simp: send_heartbeat_def call_json_def that node_path_def resp_def split: if_splits)
  qed (auto simp: send_heartbeat_def)
  have "\<exists>oks. heartbeat_rounds J (server_net J route exn) rounds c s = (oks, s) \<and> True \<notin> set oks"
    using assms(6)
  proof (induction rounds)
    case (Cons rd rounds)
    obtain ms p where rd: "rd = (ms, p)" by (cases rd)
    from Cons.IH Cons.prems obtain oks where oks: "heartbeat_rounds J (server_net J route exn) rounds c s = (oks, s)"
      "True \<notin> set oks" by (metis list.set_intros(2))
    show ?case
    proof (cases p)
      case None
      then show ?thesis using oks by (auto simp: rd)
    next
      case (Some st)
      then have "ns_node_id st = n" using Cons.prems [of ms st] by (simp add: rd)
      from one [OF this, of ms] obtain ok where "send_heartbeat J (server_net J route exn ms) ms st c s = (ok, s)" "\<not> ok" by blast
      then show ?thesis using oks by (auto simp: rd Some)
    qed
  qed simp
  then show ?thesis using inactive by (auto simp: view_node_def)
qed

section \<open>Witnesses\<close>

text \<open>A JSON library with two documents, which it writes as \<open>q\<close> and \<open>a\<close>.\<close>

definition two_docs :: "jval \<Rightarrow> jval \<Rightarrow> jval json_api" where
  "two_docs q a = jval_api (\<lambda>t. if t = ''q'' then Some q else if t = ''a'' then Some a else None)
     (\<lambda>j. if j = q then Some ''q'' else Some ''a'')"

lemma two_docs_lib: "json_lib (two_docs q a)"
  unfolding two_docs_def by (rule jv.json_lib_axioms)

lemma two_docs_travel: "travels (two_docs q a) q ''q''" "q \<noteq> a \<Longrightarrow> travels (two_docs q a) a ''a''"
  by (simp_all add: travels_def two_docs_def jval_api_def)

definition sample_route :: "string \<Rightarrow> string \<Rightarrow> string \<Rightarrow> cp_request" where
  "sample_route meth path body =
     (if path = ''/api/v1/nodes'' then Register body
      else if path = ''/api/v1/chunks/locations'' then Query_locations body
      else Heartbeat path body)"

definition sample_client :: "ControlPlaneServer ControlPlaneClient" where
  "sample_client = (new_control_client \<lparr>pc_endpoint = ''h'', pc_port = 8081, pc_heartbeat_interval_sec = 30,
     pc_reconnect_interval_sec = 5, pc_enable = True\<rparr>)\<lparr>cc_connected := True\<rparr>"

definition sample_indexed :: ControlPlaneServer where
  "sample_indexed = (new_control_server sample_config)\<lparr>cs_chunk_index := [(''c'', [''n1''])]\<rparr>"

definition ask_doc :: jval where
  "ask_doc = JObj [(''chunk_ids'', JArr [JStr ''c''])]"

definition answer_doc :: jval where
  "answer_doc = JObj [(''locations'', JArr [JObj [(''chunk_id'', JStr ''c''), (''peer_ids'', JArr [JStr ''n1''])]])]"

theorem locations_end_to_end_witness:
  "fst (client_query_chunk_locations (two_docs ask_doc answer_doc)
     (server_net (two_docs ask_doc answer_doc) sample_route (500, '''') 5000) [''c''] sample_client sample_indexed)
   = Some [\<lparr>cl_chunk_id = ''c'', cl_peer_ids = [''n1'']\<rparr>]"
proof -
  let ?J = "two_docs ask_doc answer_doc"
  have loc: "map (locate (cs_chunk_index sample_indexed)) [''c''] = [\<lparr>cl_chunk_id = ''c'', cl_peer_ids = [''n1'']\<rparr>]"
    by (simp add: sample_indexed_def locate_def locations_of_def)
  have ne: "ask_doc \<noteq> answer_doc" by (simp add: ask_doc_def answer_doc_def)
  have q: "chunk_ids_json ?J [''c''] = ask_doc" by (simp add: chunk_ids_json_def two_docs_def jval_api_def ask_doc_def)
  have a: "ja_object ?J [(''locations'', ja_array ?J (map (location_json ?J) [\<lparr>cl_chunk_id = ''c'', cl_peer_ids = [''n1'']\<rparr>]))]
      = answer_doc"
    by (simp add: location_json_def two_docs_def jval_api_def answer_doc_def)
  have p1: "cc_connected sample_client" by (simp add: sample_client_def)
  have p2: "travels ?J (chunk_ids_json ?J [''c'']) ''q''" unfolding q by (rule two_docs_travel)
  have p3: "sample_route ''POST'' ''/api/v1/chunks/locations'' ''q'' = Query_locations ''q''" by (simp add: sample_route_def)
  have p4: "travels ?J (ja_object ?J [(''locations'', ja_array ?J
      (map (location_json ?J) (map (locate (cs_chunk_index sample_indexed)) [''c''])))]) ''a''"
    unfolding loc a using ne by (rule two_docs_travel)
  from locations_end_to_end [where route = sample_route, OF two_docs_lib p1 p2 p3 p4, of "(500, '''')" 5000] show ?thesis unfolding loc by force
qed

definition sample_registration :: NodeRegistration where
  "sample_registration = \<lparr>nr_node_id = ''n1'', nr_address = ''h'', nr_p2p_port = 9000, nr_http_port = 8080,
     nr_memory_capacity_mb = 4096, nr_disk_capacity_mb = 0x100000001, nr_available_chunks = [''c'']\<rparr>"

definition register_doc :: jval where
  "register_doc = JObj [(''node_id'', JStr ''n1''), (''address'', JStr ''h''), (''p2p_port'', JNum 9000),
     (''http_port'', JNum 8080), (''memory_capacity_mb'', JNum 4096), (''disk_capacity_mb'', JNum 0x100000001),
     (''available_chunks'', JArr [JStr ''c''])]"

theorem registration_end_to_end_witness:
  "\<exists>c' s' nd. client_register_node (two_docs register_doc JNull)
      (server_net (two_docs register_doc JNull) sample_route (500, '''') 5000) sample_registration sample_client
      (new_control_server sample_config) = ((True, c'), s') \<and> al_get (cs_nodes s') ''n1'' = Some nd \<and>
    nr_disk_capacity_mb (ni_registration nd) = 1"
proof -
  let ?J = "two_docs register_doc JNull"
  have q: "registration_json ?J sample_registration = register_doc"
    by (simp add: registration_json_def two_docs_def jval_api_def register_doc_def sample_registration_def)
  have p1: "cc_connected sample_client" by (simp add: sample_client_def)
  have p2: "travels ?J (registration_json ?J sample_registration) ''q''" unfolding q by (rule two_docs_travel)
  have p3: "sample_route ''POST'' ''/api/v1/nodes'' ''q'' = Register ''q''" by (simp add: sample_route_def)
  have p4: "response_text ?J (Registered_body (nr_node_id sample_registration)) = Some ''a''"
    by (simp add: two_docs_def jval_api_def register_doc_def)
  have p5: "length (cs_nodes (new_control_server sample_config)) < unat (sc_max_nodes (cs_config (new_control_server sample_config)))"
    "index_wf (cs_chunk_index (new_control_server sample_config))"
    by (simp_all add: new_control_server_def sample_config_def index_wf_def)
  from registration_end_to_end [where route = sample_route, OF two_docs_lib p1 p2 p3 disjI2 [OF p5(1)] p4 p5(2), of "(500, '''')" 5000]
  obtain c' s' nd where "client_register_node ?J (server_net ?J sample_route (500, '''') 5000) sample_registration sample_client
      (new_control_server sample_config) = ((True, c'), s')" "al_get (cs_nodes s') (nr_node_id sample_registration) = Some nd"
    "ni_registration nd = sample_registration\<lparr>nr_memory_capacity_mb := scast (ucast (nr_memory_capacity_mb sample_registration) :: u32),
      nr_disk_capacity_mb := scast (ucast (nr_disk_capacity_mb sample_registration) :: u32)\<rparr>" by blast
  then show ?thesis by (intro exI [of _ c'] exI [of _ s'] exI [of _ nd]) (simp add: sample_registration_def)
qed

definition sample_status :: NodeStatus where
  "sample_status = new_node_status\<lparr>ns_node_id := ''n1''\<rparr>"

theorem heartbeats_lost_witness:
  "\<exists>oks. heartbeat_rounds sample_json (server_net sample_json sample_route (500, '''')) [(6000, Some sample_status)]
      sample_client (sample_run [Register ''announce'']) = (oks, sample_run [Register ''announce'']) \<and> True \<notin> set oks"
proof -
  let ?s = "sample_run [Register ''announce'']"
  obtain nd where nd: "al_get (cs_nodes ?s) ''n1'' = Some nd" "ni_last_heartbeat_time nd = 5"
    by (simp add: sample_eval)
  have gone: "al_get (cs_nodes ?s) (tl ''n1'') = None" by (simp add: sample_eval)
  have t: "(200000 :: u64) div 1000 - ni_last_heartbeat_time nd > ucast (sc_heartbeat_timeout_sec (cs_config ?s))"
    by (simp add: nd(2)) (simp add: sample_eval)
  have "\<exists>oks. heartbeat_rounds sample_json (server_net sample_json sample_route (500, '''')) [(6000, Some sample_status)]
      sample_client ?s = (oks, ?s) \<and> True \<notin> set oks \<and> \<not> is_node_active (200000 div 1000) ?s nd \<and>
      \<not> nv_online (view_node (200000 div 1000) ?s nd)"
    by (rule heartbeats_lost [where n = "''n1''", OF _ _ gone _ _ _ nd(1) t])
      (auto simp: sample_route_def node_path_def sample_status_def)
  then show ?thesis by blast
qed


end
