(* ===== verification/Metadata_Manager.thy ===== *)
theory Metadata_Manager
  imports Json_Api Location_Table "HOL-Library.Monad_Syntax" "HOL-Library.Sublist"
begin

text \<open>
  The metadata manager of \<open>src/control/metadata.cpp\<close>: chunk entries with the peers that hold the
  chunk, and their persistence in a JSON file that is written to a temporary name and renamed.

  The file system is an association list from paths to contents. What can go wrong with it is in
  \<open>disk_env\<close>: whether a file opens for reading or for writing, how much of a text reaches the file
  (\<open>operator<<\<close> on a stream reports no error here), and whether the rename succeeds.
\<close>

section \<open>State and operations\<close>

record ChunkIndexEntry =
  ce_chunk_id :: string
  ce_object_key :: string
  ce_offset :: u64
  ce_size :: u64
  ce_hash :: string
  ce_version :: u64
  ce_peer_ids :: "string list"
  ce_last_update_time :: u64

record MetadataManager =
  mm_chunks :: "(string \<times> ChunkIndexEntry) list"
  mm_peers :: "string list"

definition new_metadata_manager :: MetadataManager where
  "new_metadata_manager = \<lparr>mm_chunks = [], mm_peers = []\<rparr>"

text \<open>The entry \<open>operator[]\<close> creates: value-initialized, so all zero and empty.\<close>

definition blank_entry :: ChunkIndexEntry where
  "blank_entry = \<lparr>ce_chunk_id = '''', ce_object_key = '''', ce_offset = 0, ce_size = 0, ce_hash = '''',
     ce_version = 0, ce_peer_ids = [], ce_last_update_time = 0\<rparr>"

definition set_insert :: "'a \<Rightarrow> 'a list \<Rightarrow> 'a list" where
  "set_insert x xs = (if x \<in> set xs then xs else xs @ [x])"

definition entry_at :: "MetadataManager \<Rightarrow> string \<Rightarrow> ChunkIndexEntry" where
  "entry_at m c = (case al_get (mm_chunks m) c of Some e \<Rightarrow> e | None \<Rightarrow> blank_entry)"

definition update_chunk_location :: "u64 \<Rightarrow> string \<Rightarrow> string \<Rightarrow> MetadataManager \<Rightarrow> MetadataManager" where
  "update_chunk_location now chunk_id peer_id m =
     (let e = entry_at m chunk_id
      in m\<lparr>mm_chunks := al_put chunk_id (e\<lparr>ce_peer_ids := set_insert peer_id (ce_peer_ids e),
                                            ce_last_update_time := now\<rparr>) (mm_chunks m),
           mm_peers := set_insert peer_id (mm_peers m)\<rparr>)"

definition remove_chunk_location :: "string \<Rightarrow> string \<Rightarrow> MetadataManager \<Rightarrow> MetadataManager" where
  "remove_chunk_location chunk_id peer_id m =
     m\<lparr>mm_chunks := al_adjust chunk_id (\<lambda>e. e\<lparr>ce_peer_ids := removeAll peer_id (ce_peer_ids e)\<rparr>) (mm_chunks m)\<rparr>"

definition get_chunk_locations :: "MetadataManager \<Rightarrow> string \<Rightarrow> string list option" where
  "get_chunk_locations m chunk_id = map_option ce_peer_ids (al_get (mm_chunks m) chunk_id)"

definition get_all_chunks :: "MetadataManager \<Rightarrow> string list" where
  "get_all_chunks m = map fst (mm_chunks m)"

definition get_chunk_metadata :: "MetadataManager \<Rightarrow> string \<Rightarrow> ChunkIndexEntry option" where
  "get_chunk_metadata m chunk_id = al_get (mm_chunks m) chunk_id"

definition set_chunk_metadata :: "ChunkIndexEntry \<Rightarrow> MetadataManager \<Rightarrow> MetadataManager" where
  "set_chunk_metadata entry m = m\<lparr>mm_chunks := al_put (ce_chunk_id entry) entry (mm_chunks m)\<rparr>"

definition remove_chunk_metadata :: "string \<Rightarrow> MetadataManager \<Rightarrow> MetadataManager" where
  "remove_chunk_metadata chunk_id m = m\<lparr>mm_chunks := al_del chunk_id (mm_chunks m)\<rparr>"

definition metadata_clear :: "MetadataManager \<Rightarrow> MetadataManager" where
  "metadata_clear m = m\<lparr>mm_chunks := [], mm_peers := []\<rparr>"

definition total_chunks :: "MetadataManager \<Rightarrow> nat" where
  "total_chunks m = length (mm_chunks m)"

definition total_peers :: "MetadataManager \<Rightarrow> nat" where
  "total_peers m = length (mm_peers m)"

section \<open>Persistence\<close>

type_synonym files = "(string \<times> string) list"

record disk_env =
  de_readable :: "string \<Rightarrow> bool"
  de_writable :: "string \<Rightarrow> bool"
  de_room :: "string \<Rightarrow> nat"
  de_rename_ok :: bool

text \<open>A write that runs out of room leaves the beginning of the text.\<close>

definition de_write :: "disk_env \<Rightarrow> string \<Rightarrow> string" where
  "de_write E text = take (de_room E text) text"

subsection \<open>Loading\<close>

fun load_peers :: "'j json_api \<Rightarrow> 'j list \<Rightarrow> ChunkIndexEntry \<Rightarrow> MetadataManager \<Rightarrow> (ChunkIndexEntry \<times> MetadataManager) \<times> bool" where
  "load_peers J [] e m = ((e, m), True)"
| "load_peers J (p # ps) e m =
     (case ja_get_string J p of
        None \<Rightarrow> ((e, m), False)
      | Some x \<Rightarrow> load_peers J ps (e\<lparr>ce_peer_ids := set_insert x (ce_peer_ids e)\<rparr>)
                    (m\<lparr>mm_peers := set_insert x (mm_peers m)\<rparr>))"

definition read_entry :: "'j json_api \<Rightarrow> 'j \<Rightarrow> ChunkIndexEntry option" where
  "read_entry J item = do {
     chunk_id \<leftarrow> ja_value_string J item ''chunk_id'' '''';
     object_key \<leftarrow> ja_value_string J item ''object_key'' '''';
     offset \<leftarrow> ja_value_u64 J item ''offset'' 0;
     sz \<leftarrow> ja_value_u64 J item ''size'' 0;
     hash \<leftarrow> ja_value_string J item ''hash'' '''';
     version \<leftarrow> ja_value_u64 J item ''version'' 0;
     updated \<leftarrow> ja_value_u64 J item ''last_update_time'' 0;
     Some \<lparr>ce_chunk_id = chunk_id, ce_object_key = object_key, ce_offset = offset, ce_size = sz,
       ce_hash = hash, ce_version = version, ce_peer_ids = [], ce_last_update_time = updated\<rparr> }"

definition load_item :: "'j json_api \<Rightarrow> 'j \<Rightarrow> MetadataManager \<Rightarrow> MetadataManager \<times> bool" where
  "load_item J item m =
     (case read_entry J item of
        None \<Rightarrow> (m, False)
      | Some e \<Rightarrow>
          (case ja_value_json J item ''peer_ids'' (ja_array J []) of
             None \<Rightarrow> (m, False)
           | Some ps \<Rightarrow>
               (case load_peers J (ja_items J ps) e m of
                  ((e', m'), ok) \<Rightarrow>
                    if \<not> ok then (m', False)
                    else (if ce_chunk_id e' \<noteq> '''' then m'\<lparr>mm_chunks := al_put (ce_chunk_id e') e' (mm_chunks m')\<rparr>
                          else m', True))))"

fun load_items :: "'j json_api \<Rightarrow> 'j list \<Rightarrow> MetadataManager \<Rightarrow> MetadataManager \<times> bool" where
  "load_items J [] m = (m, True)"
| "load_items J (i # is) m = (case load_item J i m of (m', True) \<Rightarrow> load_items J is m' | (m', False) \<Rightarrow> (m', False))"

definition load_from_file ::
  "'j json_api \<Rightarrow> disk_env \<Rightarrow> files \<Rightarrow> string \<Rightarrow> MetadataManager \<Rightarrow> MetadataManager \<times> bool" where
  "load_from_file J E fs path m =
     (case al_get fs path of
        None \<Rightarrow> (m, True)
      | Some content \<Rightarrow>
          if \<not> de_readable E path then (m, False)
          else case ja_read J content of
                 None \<Rightarrow> (m, False)
               | Some j \<Rightarrow>
                   (case ja_at J j ''chunks'' of
                      None \<Rightarrow> (metadata_clear m, False)
                    | Some arr \<Rightarrow> load_items J (ja_items J arr) (metadata_clear m)))"

subsection \<open>Saving\<close>

definition entry_json :: "'j json_api \<Rightarrow> ChunkIndexEntry \<Rightarrow> 'j" where
  "entry_json J e = ja_object J
     [(''chunk_id'', ja_string J (ce_chunk_id e)), (''object_key'', ja_string J (ce_object_key e)),
      (''offset'', ja_unsigned J (ce_offset e)), (''size'', ja_unsigned J (ce_size e)),
      (''hash'', ja_string J (ce_hash e)), (''version'', ja_unsigned J (ce_version e)),
      (''peer_ids'', ja_array J (map (ja_string J) (ce_peer_ids e))),
      (''last_update_time'', ja_unsigned J (ce_last_update_time e))]"

definition metadata_json :: "'j json_api \<Rightarrow> MetadataManager \<Rightarrow> 'j" where
  "metadata_json J m = ja_object J [(''chunks'', ja_array J (map (entry_json J \<circ> snd) (mm_chunks m)))]"

text \<open>The file systems that \<open>save_to_file\<close> goes through, and its result. Opening the temporary file
  truncates it; the text then grows in it byte by byte.\<close>

definition save_trace :: "'j json_api \<Rightarrow> disk_env \<Rightarrow> files \<Rightarrow> string \<Rightarrow> MetadataManager \<Rightarrow> files list \<times> bool" where
  "save_trace J E fs path m =
     (let tmp = path @ ''.tmp''
      in if \<not> de_writable E tmp then ([fs], False)
         else case ja_dump_indent J 2 (metadata_json J m) of
                None \<Rightarrow> ([fs, al_put tmp '''' fs], False)
              | Some text \<Rightarrow>
                  (let content = de_write E text;
                       writes = map (\<lambda>k. al_put tmp (take k content) fs) [0..<length content + 1]
                   in if \<not> de_rename_ok E then (fs # writes, False)
                      else ((fs # writes) @ [al_put path content (al_del tmp fs)], True)))"

definition save_to_file :: "'j json_api \<Rightarrow> disk_env \<Rightarrow> files \<Rightarrow> string \<Rightarrow> MetadataManager \<Rightarrow> files \<times> bool" where
  "save_to_file J E fs path m = (case save_trace J E fs path m of (t, ok) \<Rightarrow> (last t, ok))"

section \<open>Locations\<close>

lemma set_set_insert [simp]: "set (set_insert x xs) = insert x (set xs)"
  by (auto simp: set_insert_def)

lemma distinct_set_insert [simp]: "distinct xs \<Longrightarrow> distinct (set_insert x xs)"
  by (simp add: set_insert_def)

definition chunk_peers :: "MetadataManager \<Rightarrow> string \<Rightarrow> string set" where
  "chunk_peers m c = (case get_chunk_locations m c of Some ps \<Rightarrow> set ps | None \<Rightarrow> {})"

interpretation md: location_table "\<lambda>_. True" chunk_peers "\<lambda>peer c. update_chunk_location now c peer"
  "\<lambda>peer c. remove_chunk_location c peer"
  by unfold_locales
    (auto simp: chunk_peers_def get_chunk_locations_def update_chunk_location_def remove_chunk_location_def
      entry_at_def blank_entry_def Let_def al_get_put al_get_adjust split: option.splits)

section \<open>Reachable states\<close>

text \<open>An entry sits under its own id, or has no id because \<open>update_chunk_location\<close> created it.\<close>

definition metadata_wf :: "MetadataManager \<Rightarrow> bool" where
  "metadata_wf m \<longleftrightarrow> al_wf (mm_chunks m) \<and>
     (\<forall>c e. al_get (mm_chunks m) c = Some e \<longrightarrow> ce_chunk_id e \<in> {'''', c} \<and> distinct (ce_peer_ids e))"

inductive metadata_run :: "'j json_api \<Rightarrow> disk_env \<Rightarrow> MetadataManager \<Rightarrow> bool" for J E where
  created: "metadata_run J E new_metadata_manager"
| located: "metadata_run J E m \<Longrightarrow> metadata_run J E (update_chunk_location now c p m)"
| unlocated: "metadata_run J E m \<Longrightarrow> metadata_run J E (remove_chunk_location c p m)"
| described: "metadata_run J E m \<Longrightarrow> distinct (ce_peer_ids e) \<Longrightarrow> metadata_run J E (set_chunk_metadata e m)"
| dropped: "metadata_run J E m \<Longrightarrow> metadata_run J E (remove_chunk_metadata c m)"
| cleared: "metadata_run J E m \<Longrightarrow> metadata_run J E (metadata_clear m)"
| loaded: "metadata_run J E m \<Longrightarrow> load_from_file J E fs path m = (m', ok) \<Longrightarrow> metadata_run J E m'"

lemma metadata_wf_put:
  "metadata_wf m \<Longrightarrow> ce_chunk_id e \<in> {'''', c} \<Longrightarrow> distinct (ce_peer_ids e) \<Longrightarrow>
     metadata_wf (m\<lparr>mm_chunks := al_put c e (mm_chunks m), mm_peers := ps\<rparr>)"
  by (auto simp: metadata_wf_def distinct_update al_get_put simp del: map_of_eq_Some_iff)

lemma entry_at_wf: "metadata_wf m \<Longrightarrow> ce_chunk_id (entry_at m c) \<in> {'''', c} \<and> distinct (ce_peer_ids (entry_at m c))"
  by (auto simp: metadata_wf_def entry_at_def blank_entry_def simp del: map_of_eq_Some_iff split: option.split)

lemma load_peers_wf:
  "load_peers J ps e m = ((e', m'), ok) \<Longrightarrow> distinct (ce_peer_ids e) \<Longrightarrow>
     mm_chunks m' = mm_chunks m \<and> ce_chunk_id e' = ce_chunk_id e \<and> distinct (ce_peer_ids e')"
proof (induction J ps e m rule: load_peers.induct)
  case (2 J p ps e m)
  then show ?case by (simp split: option.splits)
qed simp

lemma metadata_wf_peers: "metadata_wf m \<Longrightarrow> mm_chunks m' = mm_chunks m \<Longrightarrow> metadata_wf m'"
  by (simp add: metadata_wf_def)

lemma load_item_wf:
  assumes "load_item J i m = (m', ok)" and "metadata_wf m"
  shows "metadata_wf m'"
proof (cases "read_entry J i")
  case None
  with assms show ?thesis by (simp add: load_item_def)
next
  case (Some e)
  then have d: "distinct (ce_peer_ids e)" by (auto simp: read_entry_def bind_eq_Some_conv)
  show ?thesis
  proof (cases "ja_value_json J i ''peer_ids'' (ja_array J [])")
    case None
    with assms Some show ?thesis by (simp add: load_item_def)
  next
    case (Some ps)
    obtain e' m1 ok1 where l: "load_peers J (ja_items J ps) e m = ((e', m1), ok1)" by (metis prod.exhaust)
    note w = load_peers_wf [OF l d]
    with assms(2) have "metadata_wf m1" using metadata_wf_peers by blast
    with assms(1) \<open>read_entry J i = Some e\<close> Some l w show ?thesis
      using metadata_wf_put [of m1 e' "ce_chunk_id e'" "mm_peers m1"] by (auto simp: load_item_def split: if_splits)
  qed
qed

lemma load_items_wf: "load_items J is m = (m', ok) \<Longrightarrow> metadata_wf m \<Longrightarrow> metadata_wf m'"
  by (induction J "is" m rule: load_items.induct) (auto dest: load_item_wf split: prod.splits bool.splits)

lemma metadata_wf_clear: "metadata_wf (metadata_clear m)"
  by (simp add: metadata_wf_def metadata_clear_def)

lemma metadata_run_wf: "metadata_run J E m \<Longrightarrow> metadata_wf m"
proof (induction rule: metadata_run.induct)
  case (located m now c p)
  then show ?case
    using entry_at_wf [of m c] by (auto simp: update_chunk_location_def Let_def intro!: metadata_wf_put)
next
  case (unlocated m c p)
  show ?case
  proof (cases "al_get (mm_chunks m) c")
    case None
    with unlocated.IH show ?thesis by (simp add: remove_chunk_location_def al_adjust_def)
  next
    case (Some e)
    with unlocated.IH have "ce_chunk_id e \<in> {'''', c} \<and> distinct (ce_peer_ids e)"
      by (simp add: metadata_wf_def del: map_of_eq_Some_iff)
    with unlocated.IH show ?thesis
      using metadata_wf_put [of m "e\<lparr>ce_peer_ids := removeAll p (ce_peer_ids e)\<rparr>" c "mm_peers m"]
      by (simp add: remove_chunk_location_def al_adjust_def Some distinct_removeAll del: map_of_eq_Some_iff)
  qed
next
  case (described m e)
  then show ?case
    using metadata_wf_put [of m e "ce_chunk_id e" "mm_peers m"] by (simp add: set_chunk_metadata_def)
next
  case (dropped m c)
  then show ?case
    by (auto simp: remove_chunk_metadata_def metadata_wf_def distinct_delete al_get_del simp del: map_of_eq_Some_iff
        split: if_splits)
next
  case (loaded m fs path m' ok)
  then show ?case
    by (auto simp: load_from_file_def metadata_wf_clear dest: load_items_wf split: option.splits if_splits)
qed (simp_all add: metadata_wf_clear, simp add: metadata_wf_def new_metadata_manager_def)

section \<open>Saving and loading\<close>

definition kept :: "(string \<times> ChunkIndexEntry) list \<Rightarrow> (string \<times> ChunkIndexEntry) list" where
  "kept kvs = filter (\<lambda>(c, e). ce_chunk_id e \<noteq> '''') kvs"

context json_lib
begin

lemma load_peers_strings:
  "load_peers J (map (ja_string J) ps) e m =
     ((e\<lparr>ce_peer_ids := fold set_insert ps (ce_peer_ids e)\<rparr>, m\<lparr>mm_peers := fold set_insert ps (mm_peers m)\<rparr>), True)"
  by (induction ps arbitrary: e m) (simp_all add: get_string)

lemma read_entry_json: "read_entry J (entry_json J e) = Some (e\<lparr>ce_peer_ids := []\<rparr>)"
  by (simp add: read_entry_def entry_json_def object_reads)

lemma entry_json_peers:
  "ja_value_json J (entry_json J e) ''peer_ids'' d = Some (ja_array J (map (ja_string J) (ce_peer_ids e)))"
  by (simp add: entry_json_def object_reads)

lemma fold_set_insert_distinct: "distinct (xs @ ps) \<Longrightarrow> fold set_insert ps xs = xs @ ps"
  by (induction ps arbitrary: xs) (simp_all add: set_insert_def)

lemma load_item_json:
  assumes "distinct (ce_peer_ids e)"
  shows "load_item J (entry_json J e) m =
    (m\<lparr>mm_chunks := (if ce_chunk_id e = '''' then mm_chunks m else al_put (ce_chunk_id e) e (mm_chunks m)),
       mm_peers := fold set_insert (ce_peer_ids e) (mm_peers m)\<rparr>, True)"
  using assms fold_set_insert_distinct [of "[]" "ce_peer_ids e"]
  by (simp add: load_item_def read_entry_json entry_json_peers items_array load_peers_strings)

lemma load_items_json:
  assumes "al_wf kvs" and "\<And>c e. (c, e) \<in> set kvs \<Longrightarrow> ce_chunk_id e \<in> {'''', c} \<and> distinct (ce_peer_ids e)"
  shows "\<exists>m'. load_items J (map (entry_json J \<circ> snd) kvs) m = (m', True) \<and>
    (\<forall>c. al_get (mm_chunks m') c = (case al_get (kept kvs) c of Some e \<Rightarrow> Some e | None \<Rightarrow> al_get (mm_chunks m) c))"
  using assms
proof (induction kvs arbitrary: m)
  case (Cons kv kvs)
  obtain c e where kv: "kv = (c, e)" by (cases kv)
  have e: "ce_chunk_id e \<in> {'''', c}" "distinct (ce_peer_ids e)" using Cons.prems(2) [of c e] kv by simp_all
  have fresh: "al_get (kept kvs) c = None"
    using Cons.prems(1) kv by (auto simp: kept_def map_of_eq_None_iff)
  define m1 where "m1 = m\<lparr>mm_chunks := (if ce_chunk_id e = '''' then mm_chunks m else al_put (ce_chunk_id e) e (mm_chunks m)),
       mm_peers := fold set_insert (ce_peer_ids e) (mm_peers m)\<rparr>"
  have "\<And>c e. (c, e) \<in> set kvs \<Longrightarrow> ce_chunk_id e \<in> {'''', c} \<and> distinct (ce_peer_ids e)"
    using Cons.prems(2) by (metis list.set_intros(2))
  then obtain m' where m': "load_items J (map (entry_json J \<circ> snd) kvs) m1 = (m', True)"
    "\<forall>c. al_get (mm_chunks m') c = (case al_get (kept kvs) c of Some e \<Rightarrow> Some e | None \<Rightarrow> al_get (mm_chunks m1) c)"
    using Cons.IH [of m1] Cons.prems(1) by (metis distinct.simps(2) list.simps(9))
  have step: "load_item J (entry_json J e) m = (m1, True)"
    unfolding m1_def by (rule load_item_json [OF e(2)])
  have "al_get (mm_chunks m') d = (case al_get (kept (kv # kvs)) d of Some e \<Rightarrow> Some e | None \<Rightarrow> al_get (mm_chunks m) d)" for d
    using m'(2) e(1) fresh
    by (auto simp: kv kept_def m1_def al_get_put simp del: map_of_eq_None_iff split: option.split)
  with m'(1) step kv show ?case by (auto simp: comp_def)
qed (simp add: kept_def)

end


section \<open>Properties\<close>

lemma save_complete:
  assumes "de_writable E (path @ ''.tmp'')" and "de_rename_ok E"
    and "ja_dump_indent J 2 (metadata_json J m) = Some txt" and "de_write E txt = txt"
  shows "save_to_file J E fs path m = (al_put path txt (al_del (path @ ''.tmp'') fs), True)"
  using assms by (simp add: save_to_file_def save_trace_def Let_def)

lemma kept_get:
  assumes "al_wf kvs"
  shows "al_get (kept kvs) c = (case al_get kvs c of Some e \<Rightarrow> if ce_chunk_id e = '''' then None else Some e | None \<Rightarrow> None)"
  using assms by (induction kvs) (auto simp: kept_def map_of_eq_None_iff rev_image_eqI split: option.splits)

text \<open>C31. What a save followed by a load brings back, into a manager in any state, from any reachable
  state that was saved: exactly the entries that carry their chunk id. An entry that only
  \<open>update_chunk_location\<close> has touched has an empty id, is written, and is skipped when it is read.\<close>

theorem save_load_keeps_described:
  assumes "json_lib J" and "metadata_run J E m"
    and "de_writable E (path @ ''.tmp'')" and "de_rename_ok E" and "de_readable E path"
    and "ja_dump_indent J 2 (metadata_json J m) = Some txt" and "de_write E txt = txt"
    and "ja_read J txt = Some (metadata_json J m)"
  shows "\<exists>fs' m'. save_to_file J E fs path m = (fs', True) \<and> load_from_file J E fs' path m0 = (m', True) \<and>
    (\<forall>c. get_chunk_metadata m' c =
       (case get_chunk_metadata m c of
          Some e \<Rightarrow> if ce_chunk_id e = '''' then None else Some e
        | None \<Rightarrow> None))"
proof -
  have wf: "al_wf (mm_chunks m)"
    "\<And>c e. (c, e) \<in> set (mm_chunks m) \<Longrightarrow> ce_chunk_id e \<in> {'''', c} \<and> distinct (ce_peer_ids e)"
    using metadata_run_wf [OF assms(2)] by (auto simp: metadata_wf_def)
  have at: "ja_at J (metadata_json J m) ''chunks'' = Some (ja_array J (map (entry_json J \<circ> snd) (mm_chunks m)))"
    unfolding metadata_json_def by (rule json_lib.at_object [OF assms(1)]) simp_all
  obtain m' where m': "load_items J (map (entry_json J \<circ> snd) (mm_chunks m)) (metadata_clear m0) = (m', True)"
    "\<forall>c. al_get (mm_chunks m') c = (case al_get (kept (mm_chunks m)) c of Some e \<Rightarrow> Some e
       | None \<Rightarrow> al_get (mm_chunks (metadata_clear m0)) c)"
    using json_lib.load_items_json [OF assms(1) wf] by blast
  have "load_from_file J E (al_put path txt (al_del (path @ ''.tmp'') fs)) path m0 = (m', True)"
    by (simp add: load_from_file_def al_get_put assms(5,8) at json_lib.items_array [OF assms(1)] m'(1))
  moreover have "get_chunk_metadata m' c = (case get_chunk_metadata m c of
      Some e \<Rightarrow> if ce_chunk_id e = '''' then None else Some e | None \<Rightarrow> None)" for c
    using m'(2) by (simp add: get_chunk_metadata_def kept_get [OF wf(1)] metadata_clear_def del: map_of_eq_Some_iff split: option.split)
  ultimately show ?thesis using save_complete [OF assms(3,4,6,7)] by blast
qed

text \<open>C32. Saving is atomic as far as the disk takes the text: in every file system that a save goes through, so wherever a crash stops
  it, the state file holds what it held before or as much of the new text as had room, which is all of it
  when there was room for it; no file but the two involved is touched. A text cut short is not noticed: the
  rename puts it into place, and the save reports success.\<close>

theorem save_atomic:
  assumes "save_trace J E fs path m = (t, ok)" and "fs' \<in> set t" and "ja_dump_indent J 2 (metadata_json J m) = Some txt"
  shows "(al_get fs' path = al_get fs path \<or>
      al_get fs' path = Some (if length txt \<le> de_room E txt then txt else take (de_room E txt) txt)) \<and>
    (\<forall>f. f \<noteq> path \<longrightarrow> f \<noteq> path @ ''.tmp'' \<longrightarrow> al_get fs' f = al_get fs f) \<and>
    (ok \<longleftrightarrow> de_writable E (path @ ''.tmp'') \<and> de_rename_ok E) \<and>
    (ok \<longrightarrow> al_get (fst (save_to_file J E fs path m)) path = Some (take (de_room E txt) txt))"
  using assms
  by (auto simp: save_to_file_def save_trace_def de_write_def Let_def al_get_put al_get_del simp del: map_of_eq_Some_iff upt_Suc
      split: if_splits option.splits)

section \<open>Witnesses\<close>

definition sample_manager :: MetadataManager where
  "sample_manager = update_chunk_location 7 ''c2'' ''n1''
     (set_chunk_metadata (blank_entry\<lparr>ce_chunk_id := ''c1'', ce_peer_ids := [''n1'']\<rparr>) new_metadata_manager)"

definition sample_metadata_json :: "jval json_api" where
  "sample_metadata_json =
     jval_api (\<lambda>t. Some (metadata_json (jval_api (\<lambda>_. None) (\<lambda>_. None)) sample_manager)) (\<lambda>_. Some ''text'')"

definition sample_disk :: disk_env where
  "sample_disk = \<lparr>de_readable = (\<lambda>_. True), de_writable = (\<lambda>_. True), de_room = length, de_rename_ok = True\<rparr>"

definition full_disk :: disk_env where
  "full_disk = sample_disk\<lparr>de_room := (\<lambda>_. 2)\<rparr>"

theorem save_load_keeps_described_witness:
  "\<exists>fs' m'. save_to_file sample_metadata_json sample_disk [] ''meta'' sample_manager = (fs', True) \<and>
     load_from_file sample_metadata_json sample_disk fs' ''meta'' new_metadata_manager = (m', True) \<and>
     get_chunk_metadata m' ''c1'' \<noteq> None \<and>
     get_chunk_locations sample_manager ''c2'' = Some [''n1''] \<and> get_chunk_locations m' ''c2'' = None"
proof -
  have "metadata_run sample_metadata_json sample_disk sample_manager"
    unfolding sample_manager_def by (intro metadata_run.intros) simp
  moreover have "json_lib sample_metadata_json"
    unfolding sample_metadata_json_def by (rule jv.json_lib_axioms)
  moreover have "ja_read sample_metadata_json ''text'' = Some (metadata_json sample_metadata_json sample_manager)"
    by (simp add: sample_metadata_json_def jval_api_def metadata_json_def entry_json_def comp_def)
  moreover have "ja_dump_indent sample_metadata_json 2 (metadata_json sample_metadata_json sample_manager) = Some ''text''"
    by (simp add: sample_metadata_json_def jval_api_def)
  ultimately obtain fs' m' where r: "save_to_file sample_metadata_json sample_disk [] ''meta'' sample_manager = (fs', True)"
    "load_from_file sample_metadata_json sample_disk fs' ''meta'' new_metadata_manager = (m', True)"
    "\<And>c. get_chunk_metadata m' c = (case get_chunk_metadata sample_manager c of
        Some e \<Rightarrow> if ce_chunk_id e = '''' then None else Some e | None \<Rightarrow> None)"
    using save_load_keeps_described [of sample_metadata_json sample_disk sample_manager "''meta''" "''text''" "[]" new_metadata_manager]
    by (auto simp: sample_disk_def de_write_def)
  have "get_chunk_metadata m' ''c1'' \<noteq> None" "get_chunk_metadata m' ''c2'' = None"
    using r(3) [of "''c1''"] r(3) [of "''c2''"]
    by (simp_all add: sample_manager_def update_chunk_location_def set_chunk_metadata_def Let_def get_chunk_metadata_def
        entry_at_def new_metadata_manager_def blank_entry_def)
  with r(1,2) show ?thesis
    by (auto simp: get_chunk_locations_def get_chunk_metadata_def sample_manager_def update_chunk_location_def
        set_chunk_metadata_def Let_def entry_at_def new_metadata_manager_def blank_entry_def set_insert_def)
qed

theorem save_atomic_witness:
  "(\<lambda>fs'. al_get fs' ''meta'') ` set (fst (save_trace sample_metadata_json sample_disk [(''meta'', ''old'')] ''meta'' sample_manager))
     \<subseteq> {Some ''old'', Some ''text''} \<and>
   al_get (fst (save_to_file sample_metadata_json full_disk [(''meta'', ''old'')] ''meta'' sample_manager)) ''meta'' = Some ''te''"
proof -
  have d: "ja_dump_indent sample_metadata_json 2 (metadata_json sample_metadata_json sample_manager) = Some ''text''"
    by (simp add: sample_metadata_json_def jval_api_def)
  let ?t = "\<lambda>E. save_trace sample_metadata_json E [(''meta'', ''old'')] ''meta'' sample_manager"
  have "al_get fs' ''meta'' \<in> {Some ''old'', Some ''text''}" if "fs' \<in> set (fst (?t sample_disk))" for fs'
    using save_atomic [OF prod.collapse [symmetric] that d] by (auto simp: sample_disk_def)
  moreover have "[(''meta'', ''old'')] \<in> set (fst (?t full_disk))"
    by (simp add: save_trace_def full_disk_def sample_disk_def d Let_def)
  from save_atomic [OF prod.collapse [symmetric] this d]
  have "al_get (fst (save_to_file sample_metadata_json full_disk [(''meta'', ''old'')] ''meta'' sample_manager)) ''meta'' = Some ''te''"
    by (simp add: full_disk_def sample_disk_def)
  ultimately show ?thesis by blast
qed

end
