(* ===== verification/S3_Client.thy ===== *)
theory S3_Client
  imports Request_Handler Http_Client "HOL-Library.Char_ord" "HOL-Library.List_Lexorder"
begin

text \<open>
  The storage client of \<open>src/storage/s3_client.cpp\<close>: percent-encoding, AWS Signature Version 4, the
  object operations and the parsing of their answers.

  SHA-256 and HMAC are the fields of \<open>crypto\<close>, the two time stamps of a signature are arguments, and
  the HTTP library is \<open>http_send\<close>: it takes the request the code built (\<open>wire_request\<close>, with the
  headers in the order they were set) and the URL it connects to. A \<open>std::map\<close> is an association
  list sorted by key, in the order of \<open>std::string\<close>, which is that of theory \<open>List_Lexorder\<close> over \<open>Char_ord\<close>.
\<close>

section \<open>Ordered maps\<close>

fun smap_put :: "'k::linorder \<Rightarrow> 'v \<Rightarrow> ('k \<times> 'v) list \<Rightarrow> ('k \<times> 'v) list" where
  "smap_put k v [] = [(k, v)]"
| "smap_put k v ((k', v') # m) =
     (if k = k' then (k, v) # m else if k < k' then (k, v) # (k', v') # m else (k', v') # smap_put k v m)"

lemma smap_get_put [simp]: "map_of (smap_put k v m) = (map_of m)(k \<mapsto> v)"
  by (induction m) (auto simp: fun_eq_iff)

lemma smap_keys_put: "fst ` set (smap_put k v m) = insert k (fst ` set m)"
  by (simp flip: dom_map_of_conv_image_fst)

definition smap_wf :: "('k::linorder \<times> 'v) list \<Rightarrow> bool" where
  "smap_wf m \<longleftrightarrow> sorted_wrt (<) (map fst m)"

lemma smap_wf_put: "smap_wf m \<Longrightarrow> smap_wf (smap_put k v m)"
proof (induction m)
  case (Cons kv m)
  obtain k' v' where kv: "kv = (k', v')" by (cases kv)
  from Cons.prems have "smap_wf m" "\<And>x. x \<in> set (map fst m) \<Longrightarrow> k' < x" by (auto simp: smap_wf_def kv)
  with Cons.IH Cons.prems smap_keys_put [of k v m] show ?case
    by (auto simp: smap_wf_def kv intro: less_trans dest!: equalityD1 [THEN subsetD])
qed (simp add: smap_wf_def)

section \<open>Text helpers\<close>

definition hex_byte :: "(nat \<Rightarrow> char) \<Rightarrow> char \<Rightarrow> string" where
  "hex_byte d c = [d (of_char c div 16), d (of_char c mod 16)]"

definition hex_upper :: "nat \<Rightarrow> char" where
  "hex_upper d = char_of (if d < 10 then 48 + d else 55 + d)"

definition hex_text :: "string \<Rightarrow> string" where
  "hex_text raw = concat (map (hex_byte hex_char) raw)"

definition unreserved :: "char \<Rightarrow> bool" where
  "unreserved c \<longleftrightarrow> isalnum c \<or> c = CHR ''-'' \<or> c = CHR ''_'' \<or> c = CHR ''.'' \<or> c = CHR ''~''"

definition percent_encode :: "(char \<Rightarrow> bool) \<Rightarrow> string \<Rightarrow> string" where
  "percent_encode keep s = concat (map (\<lambda>c. if keep c then [c] else CHR ''%'' # hex_byte hex_upper c) s)"

definition url_encode_path :: "string \<Rightarrow> string" where
  "url_encode_path value = percent_encode (\<lambda>c. unreserved c \<or> c = CHR ''/'') value"

definition url_encode_query :: "string \<Rightarrow> string" where
  "url_encode_query value = percent_encode unreserved value"

text \<open>The loop of \<open>trim_and_compress\<close>: the output, \<open>pending_space\<close> and \<open>seen_any\<close>.\<close>

definition compress_step :: "char \<Rightarrow> string \<times> bool \<times> bool \<Rightarrow> string \<times> bool \<times> bool" where
  "compress_step c st =
     (case st of (acc, pending, seen) \<Rightarrow>
        if isspace c then (acc, if seen then True else pending, seen)
        else ((if pending then acc @ '' '' else acc) @ [c], False, True))"

definition trim_and_compress :: "string \<Rightarrow> string" where
  "trim_and_compress value = fst (fold compress_step value ('''', False, False))"

fun split_on :: "char \<Rightarrow> string \<Rightarrow> string list" where
  "split_on x [] = [[]]"
| "split_on x (c # cs) =
     (if c = x then [] # split_on x cs
      else case split_on x cs of p # ps \<Rightarrow> (c # p) # ps | [] \<Rightarrow> [[c]])"

definition split_param :: "string \<Rightarrow> string \<times> string" where
  "split_param p = (case find_char (CHR ''='') p of None \<Rightarrow> (p, '''') | Some eq \<Rightarrow> (take eq p, drop (eq + 1) p))"

fun join :: "string \<Rightarrow> string list \<Rightarrow> string" where
  "join sep [] = ''''"
| "join sep [x] = x"
| "join sep (x # y # ys) = x @ sep @ join sep (y # ys)"

definition query_text :: "(string \<times> string) list \<Rightarrow> string" where
  "query_text m = join ''&'' (map (\<lambda>(n, v). n @ ''='' @ v) m)"

definition canonicalize_query_string :: "string \<Rightarrow> string" where
  "canonicalize_query_string query =
     query_text (fold (\<lambda>p m. if p = '''' then m
                             else case split_param p of (n, v) \<Rightarrow> smap_put (url_encode_query n) (url_encode_query v) m)
       (split_on (CHR ''&'') query) [])"

definition xml_entity :: "string \<Rightarrow> char option" where
  "xml_entity e =
     (if e = ''&amp;'' then Some (CHR ''&'') else if e = ''&lt;'' then Some (CHR ''<'')
      else if e = ''&gt;'' then Some (CHR ''>'') else if e = ''&quot;'' then Some (CHR 0x22)
      else if e = ''&#39;'' \<or> e = ''&apos;'' then Some (CHR 0x27) else None)"

function (sequential) xml_unescape :: "string \<Rightarrow> string" where
  "xml_unescape [] = []"
| "xml_unescape (c # cs) =
     (case (if c = CHR ''&'' then
              (case find_char (CHR '';'') cs of
                 None \<Rightarrow> None
               | Some k \<Rightarrow> if k + 1 \<le> 6 then map_option (\<lambda>x. (x, drop (k + 1) cs)) (xml_entity (c # take (k + 1) cs)) else None)
            else None) of
        Some (x, rest) \<Rightarrow> x # xml_unescape rest
      | None \<Rightarrow> c # xml_unescape cs)"
  by pat_completeness auto
termination by (relation "measure length") (auto split: if_splits option.splits)

fun rfind_char :: "char \<Rightarrow> string \<Rightarrow> nat option" where
  "rfind_char x [] = None"
| "rfind_char x (c # cs) =
     (case rfind_char x cs of Some i \<Rightarrow> Some (Suc i) | None \<Rightarrow> if c = x then Some 0 else None)"

definition strip_scheme :: "string \<Rightarrow> string" where
  "strip_scheme e =
     (if take 8 e = ''https://'' then drop 8 e else if take 7 e = ''http://'' then drop 7 e else e)"

definition parse_endpoint :: "string \<Rightarrow> bool \<Rightarrow> string \<times> u16" where
  "parse_endpoint endpoint use_https =
     (let port = (if take 8 endpoint = ''https://'' then 443 else if take 7 endpoint = ''http://'' then 80
                  else if use_https then 443 else 80);
          host = strip_scheme endpoint
      in case rfind_char (CHR '':'') host of
           None \<Rightarrow> (host, port)
         | Some colon \<Rightarrow>
             (case stoi (drop (colon + 1) host) of
                None \<Rightarrow> (host, port)
              | Some i \<Rightarrow> (take colon host, word_of_int i)))"

section \<open>The client\<close>

record StorageConfig =
  sg_type :: string
  sg_endpoint :: string
  sg_region :: string
  sg_access_key :: "string option"
  sg_secret_key :: "string option"
  sg_bucket :: string
  sg_use_https :: bool
  sg_connection_timeout_sec :: u32
  sg_read_timeout_sec :: u32

datatype AuthType = AuthNone | PresignedURL | HeaderSigned

record S3Client =
  s3_access_key :: string
  s3_secret_key :: string
  s3_config :: StorageConfig
  s3_auth_type :: AuthType

definition new_s3_client :: "StorageConfig \<Rightarrow> S3Client" where
  "new_s3_client cfg =
     (let keys = (case (sg_access_key cfg, sg_secret_key cfg) of (Some a, Some k) \<Rightarrow> (a, k) | _ \<Rightarrow> ('''', ''''))
      in \<lparr>s3_access_key = fst keys, s3_secret_key = snd keys,
          s3_config = (if starts_with ''http://'' (sg_endpoint cfg) then cfg\<lparr>sg_use_https := False\<rparr>
                       else if starts_with ''https://'' (sg_endpoint cfg) then cfg\<lparr>sg_use_https := True\<rparr>
                       else cfg),
          s3_auth_type = AuthNone\<rparr>)"

definition set_credentials :: "string \<Rightarrow> string \<Rightarrow> S3Client \<Rightarrow> S3Client" where
  "set_credentials a k c = c\<lparr>s3_access_key := a, s3_secret_key := k, s3_auth_type := HeaderSigned\<rparr>"

definition has_credentials :: "S3Client \<Rightarrow> bool" where
  "has_credentials c \<longleftrightarrow> s3_access_key c \<noteq> '''' \<and> s3_secret_key c \<noteq> ''''"

definition protocol_text :: "S3Client \<Rightarrow> string" where
  "protocol_text c = (if sg_use_https (s3_config c) then ''https://'' else ''http://'')"

definition build_object_url :: "S3Client \<Rightarrow> string \<Rightarrow> string \<Rightarrow> bool \<Rightarrow> string" where
  "build_object_url c bucket key use_path_style =
     (let endpoint = strip_scheme (sg_endpoint (s3_config c))
      in if use_path_style then protocol_text c @ endpoint @ ''/'' @ bucket @ ''/'' @ key
         else protocol_text c @ bucket @ ''.'' @ endpoint @ ''/'' @ key)"

definition host_header :: "S3Client \<Rightarrow> string" where
  "host_header c =
     (case parse_endpoint (sg_endpoint (s3_config c)) (sg_use_https (s3_config c)) of (host, port) \<Rightarrow>
        if (sg_use_https (s3_config c) \<and> port = 443) \<or> (\<not> sg_use_https (s3_config c) \<and> port = 80) then host
        else host @ '':'' @ to_string (unat port))"

definition signing_region :: "S3Client \<Rightarrow> string" where
  "signing_region c = (if sg_region (s3_config c) = '''' then ''us-east-1'' else sg_region (s3_config c))"

section \<open>Signatures\<close>

record crypto =
  cr_sha256 :: "string \<Rightarrow> string"
  cr_hmac_sha256 :: "string \<Rightarrow> string \<Rightarrow> string"

record time_stamps =
  ts_amz_date :: string
  ts_date_stamp :: string

definition LF :: string where
  "LF = [CHR 0x0A]"

definition sha256_hex :: "crypto \<Rightarrow> string \<Rightarrow> string" where
  "sha256_hex C s = hex_text (cr_sha256 C s)"

definition canonical_header_map ::
  "S3Client \<Rightarrow> time_stamps \<Rightarrow> string \<Rightarrow> (string \<times> string) list \<Rightarrow> (string \<times> string) list" where
  "canonical_header_map c ts payload_hash headers =
     fold (\<lambda>(k, v) m. smap_put (to_lower k) (trim_and_compress v) m) headers
       (smap_put ''x-amz-date'' (ts_amz_date ts)
          (smap_put ''x-amz-content-sha256'' payload_hash (smap_put ''host'' (host_header c) [])))"

definition canonical_headers_text :: "(string \<times> string) list \<Rightarrow> string" where
  "canonical_headers_text m = concat (map (\<lambda>(n, v). n @ '':'' @ v @ LF) m)"

definition signed_headers_text :: "(string \<times> string) list \<Rightarrow> string" where
  "signed_headers_text m = join '';'' (map fst m)"

definition canonical_uri :: "string \<Rightarrow> string \<Rightarrow> string" where
  "canonical_uri bucket key =
     (if bucket = '''' then ''/'' else ''/'' @ bucket @ ''/'' @ (if key = '''' then '''' else url_encode_path key))"

definition canonical_request_text :: "string \<Rightarrow> string \<Rightarrow> string \<Rightarrow> (string \<times> string) list \<Rightarrow> string \<Rightarrow> string" where
  "canonical_request_text meth uri query m payload_hash =
     meth @ LF @ uri @ LF @ query @ LF @ canonical_headers_text m @ LF @ signed_headers_text m @ LF @ payload_hash"

definition credential_scope :: "time_stamps \<Rightarrow> string \<Rightarrow> string" where
  "credential_scope ts region = ts_date_stamp ts @ ''/'' @ region @ ''/s3/aws4_request''"

definition string_to_sign :: "crypto \<Rightarrow> time_stamps \<Rightarrow> string \<Rightarrow> string \<Rightarrow> string" where
  "string_to_sign C ts region canonical =
     ''AWS4-HMAC-SHA256'' @ LF @ ts_amz_date ts @ LF @ credential_scope ts region @ LF @ sha256_hex C canonical"

definition signing_key :: "crypto \<Rightarrow> string \<Rightarrow> string \<Rightarrow> string \<Rightarrow> string" where
  "signing_key C secret date region =
     (let k_date = cr_hmac_sha256 C (''AWS4'' @ secret) date;
          k_region = cr_hmac_sha256 C k_date region;
          k_service = cr_hmac_sha256 C k_region ''s3''
      in cr_hmac_sha256 C k_service ''aws4_request'')"

definition signature :: "crypto \<Rightarrow> time_stamps \<Rightarrow> string \<Rightarrow> string \<Rightarrow> string \<Rightarrow> string" where
  "signature C ts secret region canonical =
     hex_text (cr_hmac_sha256 C (signing_key C secret (ts_date_stamp ts) region) (string_to_sign C ts region canonical))"

definition sign_request ::
  "crypto \<Rightarrow> time_stamps \<Rightarrow> S3Client \<Rightarrow> string \<Rightarrow> string \<Rightarrow> string \<Rightarrow> string \<Rightarrow> (string \<times> string) list \<Rightarrow> string \<Rightarrow>
     (string \<times> string) list" where
  "sign_request C ts c meth bucket key query_string headers payload_hash =
     (if \<not> has_credentials c then []
      else let m = canonical_header_map c ts payload_hash headers;
               canonical = canonical_request_text meth (canonical_uri bucket key) query_string m payload_hash;
               region = signing_region c
           in [(''x-amz-date'', ts_amz_date ts), (''x-amz-content-sha256'', payload_hash),
               (''Authorization'', ''AWS4-HMAC-SHA256 '' @ ''Credential='' @ s3_access_key c @ ''/'' @
                  credential_scope ts region @ '', '' @ ''SignedHeaders='' @ signed_headers_text m @ '', '' @
                  ''Signature='' @ signature C ts (s3_secret_key c) region canonical)])"

definition presigned_params ::
  "S3Client \<Rightarrow> time_stamps \<Rightarrow> u64 \<Rightarrow> string \<Rightarrow> (string \<times> string) list" where
  "presigned_params c ts expires query_params =
     (let m = smap_put ''X-Amz-SignedHeaders'' ''host'' (smap_put ''X-Amz-Expires'' (to_string (unat expires))
                (smap_put ''X-Amz-Date'' (ts_amz_date ts)
                  (smap_put ''X-Amz-Credential'' (s3_access_key c @ ''/'' @ credential_scope ts (signing_region c))
                    (smap_put ''X-Amz-Algorithm'' ''AWS4-HMAC-SHA256'' []))))
      in fold (\<lambda>p m. case find_char (CHR ''='') p of
                       None \<Rightarrow> m
                     | Some eq \<Rightarrow> smap_put (take eq p) (drop (eq + 1) p) m)
           (split_on (CHR ''&'') query_params) m)"

definition generate_presigned_url_internal ::
  "crypto \<Rightarrow> time_stamps \<Rightarrow> S3Client \<Rightarrow> string \<Rightarrow> string \<Rightarrow> u64 \<Rightarrow> string \<Rightarrow> string" where
  "generate_presigned_url_internal C ts c bucket key expires query_params =
     (if \<not> has_credentials c then build_object_url c bucket key False
      else let query = query_text (map (\<lambda>(n, v). (url_encode_query n, url_encode_query v))
                         (presigned_params c ts expires query_params));
               uri = ''/'' @ bucket @ ''/'' @ url_encode_path key;
               canonical = canonical_request_text ''GET'' uri query [(''host'', host_header c)] ''UNSIGNED-PAYLOAD''
           in protocol_text c @ host_header c @ uri @ ''?'' @ query @ ''&X-Amz-Signature='' @
              signature C ts (s3_secret_key c) (signing_region c) canonical)"

definition generate_presigned_url :: "crypto \<Rightarrow> time_stamps \<Rightarrow> S3Client \<Rightarrow> string \<Rightarrow> string \<Rightarrow> u64 \<Rightarrow> string" where
  "generate_presigned_url C ts c bucket key expires = generate_presigned_url_internal C ts c bucket key expires ''''"

record AuthenticatedRequest =
  ar_url :: string
  ar_headers :: "(string \<times> string) list"
  ar_needs_passthrough :: bool

definition authenticate_request ::
  "crypto \<Rightarrow> time_stamps \<Rightarrow> S3Client \<Rightarrow> string \<Rightarrow> string \<Rightarrow> string \<Rightarrow> (string \<times> string) list \<Rightarrow> string \<Rightarrow> AuthenticatedRequest" where
  "authenticate_request C ts c meth bucket key original_headers original_query =
     (let url = build_object_url c bucket key False
      in if original_query \<noteq> '''' then
           \<lparr>ar_url = (if has_credentials c then generate_presigned_url_internal C ts c bucket key 3600 original_query
                       else url @ ''?'' @ original_query),
            ar_headers = [], ar_needs_passthrough = False\<rparr>
         else if \<exists>(k, v) \<in> set original_headers. k = ''x-amz-date'' \<or> k = ''Authorization'' then
           \<lparr>ar_url = url,
            ar_headers = (if has_credentials c
                          then original_headers @ sign_request C ts c meth bucket key '''' original_headers (sha256_hex C '''')
                          else original_headers),
            ar_needs_passthrough = False\<rparr>
         else \<lparr>ar_url = url, ar_headers = [], ar_needs_passthrough = (s3_access_key c = '''')\<rparr>)"

section \<open>Requests on the wire\<close>

record wire_request =
  wq_method :: string
  wq_path :: string
  wq_query :: string
  wq_host :: string
  wq_headers :: "(string \<times> string) list"
  wq_content_type :: string
  wq_body :: string

record http_answer =
  ha_status :: nat
  ha_header :: "string \<Rightarrow> string"
  ha_body :: string

text \<open>
  What the client calls: the cryptographic functions, the clock, \<open>url::parse\<close> of the HTTP library,
  sending a request, and the value that an uninitialized \<open>uint64_t\<close> happens to have.
\<close>

record 'w storage_env =
  en_crypto :: crypto
  en_clock :: "'w \<Rightarrow> time_stamps"
  en_url_ok :: "string \<Rightarrow> bool"
  en_send :: "wire_request \<Rightarrow> string \<Rightarrow> 'w \<Rightarrow> http_answer option \<times> 'w"
  en_indeterminate :: "'w \<Rightarrow> u64"

definition prepare_request ::
  "crypto \<Rightarrow> time_stamps \<Rightarrow> S3Client \<Rightarrow> string \<Rightarrow> string \<Rightarrow> string \<Rightarrow> string \<Rightarrow> (string \<times> string) list \<Rightarrow> string \<Rightarrow> string \<Rightarrow>
     wire_request" where
  "prepare_request C ts c meth bucket key query_string extra_headers body content_type =
     (let payload_hash = (if body = '''' then sha256_hex C '''' else sha256_hex C body);
          canonical_query = canonicalize_query_string query_string;
          signed_headers = (if has_credentials c
                            then sign_request C ts c meth bucket key canonical_query extra_headers payload_hash else [])
      in \<lparr>wq_method = meth, wq_path = ''/'' @ bucket @ ''/'' @ url_encode_path key, wq_query = canonical_query,
          wq_host = host_header c, wq_headers = signed_headers @ extra_headers, wq_content_type = content_type,
          wq_body = body\<rparr>)"

definition execute_request ::
  "'w storage_env \<Rightarrow> S3Client \<Rightarrow> string \<Rightarrow> string \<Rightarrow> string \<Rightarrow> string \<Rightarrow> (string \<times> string) list \<Rightarrow> string \<Rightarrow> string \<Rightarrow>
     'w \<Rightarrow> http_answer option \<times> 'w" where
  "execute_request E c meth bucket key query_string extra_headers body content_type w =
     (let url = build_object_url c bucket key True;
          q = prepare_request (en_crypto E) (en_clock E w) c meth bucket key query_string extra_headers body content_type
      in if \<not> en_url_ok E url then (None, w) else en_send E q url w)"

section \<open>Operations on objects\<close>

record FullObjectMetadata = ObjectMetadata +
  om_key :: string
  om_content_type :: "string option"
  om_last_modified :: "string option"
  om_version_id :: "string option"

definition opt_header :: "http_answer \<Rightarrow> string \<Rightarrow> string option" where
  "opt_header a name = (if ha_header a name = '''' then None else Some (ha_header a name))"

definition s3_head_object ::
  "'w storage_env \<Rightarrow> S3Client \<Rightarrow> string \<Rightarrow> string \<Rightarrow> 'w \<Rightarrow> FullObjectMetadata option \<times> 'w" where
  "s3_head_object E c bucket key w =
     (case execute_request E c ''HEAD'' bucket key '''' [] '''' '''' w of
        (None, w') \<Rightarrow> (None, w')
      | (Some a, w') \<Rightarrow>
          if ha_status a \<noteq> 200 \<and> ha_status a \<noteq> 204 then (None, w')
          else (Some \<lparr>om_size = (case stoull (ha_header a ''Content-Length'') of
                                   Some n \<Rightarrow> if ha_header a ''Content-Length'' = '''' then en_indeterminate E w else n
                                 | None \<Rightarrow> en_indeterminate E w),
                      om_etag = ha_header a ''ETag'', om_key = key,
                      om_content_type = opt_header a ''Content-Type'',
                      om_last_modified = opt_header a ''Last-Modified'',
                      om_version_id = opt_header a ''x-amz-version-id''\<rparr>, w'))"

definition range_value :: "u64 \<Rightarrow> u64 \<Rightarrow> string" where
  "range_value offset len =
     ''bytes='' @ to_string (unat offset) @ (if len > 0 then ''-'' @ to_string (unat (offset + len - 1)) else '''')"

definition s3_get_object ::
  "'w storage_env \<Rightarrow> S3Client \<Rightarrow> string \<Rightarrow> string \<Rightarrow> u64 \<Rightarrow> u64 \<Rightarrow> 'w \<Rightarrow> bytes option \<times> 'w" where
  "s3_get_object E c bucket key offset len w =
     (let extra_headers = (if offset > 0 \<or> len > 0 then [(''Range'', range_value offset len)] else [])
      in case execute_request E c ''GET'' bucket key '''' extra_headers '''' '''' w of
           (None, w') \<Rightarrow> (None, w')
         | (Some a, w') \<Rightarrow>
             if ha_status a \<noteq> 200 \<and> ha_status a \<noteq> 206 then (None, w')
             else (Some (to_bytes (ha_body a)), w'))"

definition put_object ::
  "'w storage_env \<Rightarrow> S3Client \<Rightarrow> string \<Rightarrow> string \<Rightarrow> bytes \<Rightarrow> string \<Rightarrow> 'w \<Rightarrow> bool \<times> 'w" where
  "put_object E c bucket key data content_type w =
     (case execute_request E c ''PUT'' bucket key '''' [] (to_str data) content_type w of
        (None, w') \<Rightarrow> (False, w')
      | (Some a, w') \<Rightarrow> (ha_status a = 200 \<or> ha_status a = 201, w'))"

definition delete_object :: "'w storage_env \<Rightarrow> S3Client \<Rightarrow> string \<Rightarrow> string \<Rightarrow> 'w \<Rightarrow> bool \<times> 'w" where
  "delete_object E c bucket key w =
     (case execute_request E c ''DELETE'' bucket key '''' [] '''' '''' w of
        (None, w') \<Rightarrow> (False, w')
      | (Some a, w') \<Rightarrow> (ha_status a = 200 \<or> ha_status a = 204 \<or> ha_status a = 202, w'))"

definition bucket_exists :: "'w storage_env \<Rightarrow> S3Client \<Rightarrow> string \<Rightarrow> 'w \<Rightarrow> bool \<times> 'w" where
  "bucket_exists E c bucket w =
     (case execute_request E c ''GET'' bucket '''' ''max-keys=1'' [] '''' '''' w of
        (None, w') \<Rightarrow> (False, w')
      | (Some a, w') \<Rightarrow> (ha_status a = 200, w'))"

definition test_connection :: "S3Client \<Rightarrow> bool" where
  "test_connection c \<longleftrightarrow> sg_endpoint (s3_config c) \<noteq> ''''"

text \<open>The client as the storage of the request handler.\<close>

definition s3_storage :: "'w storage_env \<Rightarrow> S3Client \<Rightarrow> 'w StorageClient" where
  "s3_storage E c = \<lparr>head_object = (\<lambda>b k w. case s3_head_object E c b k w of
       (r, w') \<Rightarrow> (map_option ObjectMetadata.truncate r, w')),
     get_object = s3_get_object E c\<rparr>"

section \<open>Listings\<close>

record ListObjectsResult =
  lr_objects :: "FullObjectMetadata list"
  lr_common_prefixes :: "string list"
  lr_is_truncated :: bool
  lr_continuation_token :: string

definition xml_open :: "string \<Rightarrow> string" where
  "xml_open tag = ''<'' @ tag @ ''>''"

definition xml_close :: "string \<Rightarrow> string" where
  "xml_close tag = ''</'' @ tag @ ''>''"

definition xml_extract_tag :: "string \<Rightarrow> string \<Rightarrow> string" where
  "xml_extract_tag segment tag =
     (case str_find (xml_open tag) segment 0 of
        None \<Rightarrow> ''''
      | Some s \<Rightarrow>
          (let start = s + length (xml_open tag)
           in case str_find (xml_close tag) segment start of
                None \<Rightarrow> ''''
              | Some e \<Rightarrow> xml_unescape (substr segment start (e - start))))"

text \<open>The segments \<open><tag>...</tag>\<close> of a text, each from its opening tag up to its closing tag.\<close>

lemma rotate_eq: "c # xs = xs @ [d] \<Longrightarrow> c = d"
  by (induction xs) auto

lemma open_not_close:
  assumes "starts_with (xml_open tag) s"
  shows "\<not> starts_with (xml_close tag) s"
proof
  assume "starts_with (xml_close tag) s"
  then have "take (length (xml_open tag)) (xml_close tag) = xml_open tag"
    using assms by (metis (no_types, lifting) starts_with_def length_append min.absorb1 take_take xml_close_def xml_open_def
        append_Cons append_Nil length_Cons le_SucI order_refl)
  then have "CHR ''/'' # tag = tag @ ''>''" by (simp add: xml_open_def xml_close_def)
  then show False using rotate_eq by fastforce
qed

function (sequential) xml_segments :: "string \<Rightarrow> string \<Rightarrow> nat \<Rightarrow> string list" where
  "xml_segments tag body pos =
     (case str_find (xml_open tag) body pos of
        None \<Rightarrow> []
      | Some s \<Rightarrow>
          (case str_find (xml_close tag) body s of
             None \<Rightarrow> []
           | Some e \<Rightarrow> substr body s (e - s) # xml_segments tag body e))"
  by pat_completeness auto
termination
proof (relation "measure (\<lambda>(t, b, p). length b - p)", goal_cases)
  case (2 tag body pos s e)
  have "s + length (xml_open tag) \<le> length body" "pos \<le> s" "s \<le> e" "e + length (xml_close tag) \<le> length body"
    using str_find_bound [OF 2(1)] str_find_bound [OF 2(2)] by simp_all
  moreover have "s \<noteq> e"
    using open_not_close str_find_split [OF 2(1)] str_find_split [OF 2(2)] by blast
  ultimately show ?case by (simp add: xml_close_def)
qed simp


declare xml_segments.simps [simp del]

definition parse_contents :: "string \<Rightarrow> FullObjectMetadata" where
  "parse_contents segment =
     \<lparr>om_size = (case stoull (xml_extract_tag segment ''Size'') of
                   Some n \<Rightarrow> if xml_extract_tag segment ''Size'' = '''' then 0 else n
                 | None \<Rightarrow> 0),
      om_etag = xml_extract_tag segment ''ETag'', om_key = xml_extract_tag segment ''Key'', om_content_type = None,
      om_last_modified = (let t = xml_extract_tag segment ''LastModified'' in if t = '''' then None else Some t),
      om_version_id = None\<rparr>"

definition parse_next_token :: "string \<Rightarrow> string" where
  "parse_next_token body =
     (case str_find ''<NextContinuationToken>'' body 0 of
        None \<Rightarrow> ''''
      | Some p \<Rightarrow>
          (let start = p + 25
           in case str_find ''</NextContinuationToken>'' body start of
                None \<Rightarrow> ''''
              | Some e \<Rightarrow> xml_unescape (substr body start (e - start))))"

definition parse_list_objects_response :: "string \<Rightarrow> ListObjectsResult" where
  "parse_list_objects_response body =
     \<lparr>lr_objects = map parse_contents (xml_segments ''Contents'' body 0),
      lr_common_prefixes =
        filter (\<lambda>p. p \<noteq> '''') (map (\<lambda>s. xml_extract_tag s ''Prefix'') (xml_segments ''CommonPrefixes'' body 0)),
      lr_is_truncated = str_contains ''<IsTruncated>true</IsTruncated>'' body,
      lr_continuation_token = parse_next_token body\<rparr>"

definition list_query :: "string \<Rightarrow> string \<Rightarrow> u32 \<Rightarrow> string" where
  "list_query prefix continuation_token max_keys =
     ''list-type=2'' @ (if prefix = '''' then '''' else ''&prefix='' @ prefix) @
     (if max_keys > 0 then ''&max-keys='' @ to_string (unat max_keys) else '''') @
     (if continuation_token = '''' then '''' else ''&continuation-token='' @ continuation_token)"

definition list_objects ::
  "'w storage_env \<Rightarrow> S3Client \<Rightarrow> string \<Rightarrow> string \<Rightarrow> string \<Rightarrow> u32 \<Rightarrow> 'w \<Rightarrow> ListObjectsResult option \<times> 'w" where
  "list_objects E c bucket prefix continuation_token max_keys w =
     (case execute_request E c ''GET'' bucket '''' (list_query prefix continuation_token max_keys) [] '''' '''' w of
        (None, w') \<Rightarrow> (None, w')
      | (Some a, w') \<Rightarrow>
          if ha_status a \<noteq> 200 then (None, w') else (Some (parse_list_objects_response (ha_body a)), w'))"

text \<open>\<open>list_buckets\<close> takes the text of every \<open><Name>\<close> as it is.\<close>

definition bucket_names :: "string \<Rightarrow> string list" where
  "bucket_names body = map (drop 6) (xml_segments ''Name'' body 0)"

definition list_buckets :: "'w storage_env \<Rightarrow> S3Client \<Rightarrow> 'w \<Rightarrow> string list option \<times> 'w" where
  "list_buckets E c w =
     (let url = protocol_text c @ strip_scheme (sg_endpoint (s3_config c)) @ ''/'';
          C = en_crypto E;
          signed_headers = (if has_credentials c
                            then sign_request C (en_clock E w) c ''GET'' '''' '''' '''' [] (sha256_hex C '''') else [])
      in if \<not> en_url_ok E url then (None, w)
         else case en_send E \<lparr>wq_method = ''GET'', wq_path = ''/'', wq_query = '''', wq_host = host_header c,
                                wq_headers = signed_headers, wq_content_type = '''', wq_body = ''''\<rparr> url w of
                (None, w') \<Rightarrow> (None, w')
              | (Some a, w') \<Rightarrow> if ha_status a \<noteq> 200 then (None, w') else (Some (bucket_names (ha_body a)), w'))"

section \<open>Choice of the backend\<close>

datatype StorageBackend = S3 | OSS

definition detect_backend_endpoint :: "string \<Rightarrow> StorageBackend" where
  "detect_backend_endpoint endpoint =
     (let e = to_lower endpoint
      in if str_contains ''aliyuncs.com'' e \<or> str_contains ''.aliyuncs.'' e \<or> str_contains ''oss-cn-'' e \<or>
            str_contains ''oss.aliyun'' e then OSS else S3)"

definition detect_backend :: "string \<Rightarrow> string option \<Rightarrow> StorageBackend" where
  "detect_backend endpoint access_key =
     (let backend = detect_backend_endpoint endpoint
      in if access_key = None \<and> backend \<noteq> OSS \<and> (str_contains ''aliyun'' endpoint \<or> str_contains ''alibaba'' endpoint)
         then OSS else backend)"

definition create_backend :: "StorageConfig \<Rightarrow> StorageBackend" where
  "create_backend config = detect_backend (sg_endpoint config) (sg_access_key config)"


section \<open>Header values\<close>

lemma words_char: "\<not> isspace c \<Longrightarrow>
    words (c # s) = (c # takeWhile (\<lambda>x. \<not> isspace x) s) # words (dropWhile (\<lambda>x. \<not> isspace x) s)"
  by (subst words.simps) (simp add: Let_def)

lemma compress_fold:
  "fst (fold compress_step s (acc, False, True)) = acc @ takeWhile (\<lambda>x. \<not> isspace x) s @
     concat (map (\<lambda>w. '' '' @ w) (words (dropWhile (\<lambda>x. \<not> isspace x) s))) \<and>
   fst (fold compress_step s (acc, True, True)) = acc @ concat (map (\<lambda>w. '' '' @ w) (words s))"
  by (induction s arbitrary: acc) (auto simp: compress_step_def words_space words_char)

lemma join_concat: "join sep (x # xs) = x @ concat (map (\<lambda>y. sep @ y) xs)"
  by (induction xs arbitrary: x) simp_all

text \<open>\<open>trim_and_compress\<close> is the words of the value with single spaces between them.\<close>

lemma trim_and_compress_words: "trim_and_compress s = join '' '' (words s)"
proof (induction s)
  case (Cons c s)
  then show ?case
    using compress_fold [of s "[c]"]
    by (cases "isspace c") (simp_all add: trim_and_compress_def compress_step_def words_space words_char join_concat)
qed (simp add: trim_and_compress_def)

section \<open>Percent-encoding\<close>

fun percent_decode :: "string \<Rightarrow> string" where
  "percent_decode [] = []"
| "percent_decode [c] = [c]"
| "percent_decode [c, d] = [c, d]"
| "percent_decode (c # h # l # s) =
     (if c = CHR ''%'' then char_of (16 * xdigit_val h + xdigit_val l) # percent_decode s
      else c # percent_decode (h # l # s))"

lemma percent_decode_plain: "c \<noteq> CHR ''%'' \<Longrightarrow> percent_decode (c # s) = c # percent_decode s"
  by (cases s rule: percent_decode.cases) auto

lemma xdigit_hex_upper: "d < 16 \<Longrightarrow> xdigit_val (hex_upper d) = d \<and> isxdigit (hex_upper d)"
  by (auto simp: hex_upper_def xdigit_val_def isdigit_def isxdigit_def)

lemma nibble: "(of_char c :: nat) div 16 < 16"
  using nat_of_char_less_256 [of c] by linarith

lemma of_char_split: "16 * ((of_char c :: nat) div 16) + of_char c mod 16 = of_char c"
  by simp

lemma percent_decode_encode:
  assumes "\<not> keep (CHR ''%'')"
  shows "percent_decode (percent_encode keep s) = s"
proof (induction s)
  case (Cons c s)
  have "percent_decode (CHR ''%'' # hex_byte hex_upper c @ t) = c # percent_decode t" for t
    by (simp add: hex_byte_def xdigit_hex_upper nibble of_char_split)
  moreover have "keep c \<Longrightarrow> c \<noteq> CHR ''%''" using assms by auto
  ultimately show ?case using Cons
    by (cases "keep c") (auto simp: percent_encode_def percent_decode_plain)
qed (simp add: percent_encode_def)

lemma percent_encode_chars:
  "d \<in> set (percent_encode keep s) \<Longrightarrow> keep d \<or> d = CHR ''%'' \<or> isxdigit d"
  by (auto simp: percent_encode_def hex_byte_def xdigit_hex_upper nibble split: if_splits)

section \<open>Signed requests\<close>

text \<open>
  What a server checks, from the request alone: the values of the headers it is told are signed,
  with white space normalized, the path, the query and the hash of the payload. The content type that is set
  apart from the headers is not signed; a caller passes it or a \<open>Content-Type\<close> among the headers, never both.
\<close>

definition header_on_wire :: "wire_request \<Rightarrow> string \<Rightarrow> string option" where
  "header_on_wire q n =
     (if n = ''host'' then Some (wq_host q)
      else map_of (rev (map (\<lambda>(k, v). (to_lower k, v)) (wq_headers q))) n)"

definition server_canonical :: "wire_request \<Rightarrow> string list \<Rightarrow> string" where
  "server_canonical q names =
     wq_method q @ LF @ wq_path q @ LF @ wq_query q @ LF @
     concat (map (\<lambda>n. n @ '':'' @ join '' '' (words (case header_on_wire q n of Some v \<Rightarrow> v | None \<Rightarrow> '''')) @ LF) names) @ LF @
     join '';'' names @ LF @ (case header_on_wire q ''x-amz-content-sha256'' of Some v \<Rightarrow> v | None \<Rightarrow> '''')"

definition authorization_text :: "string \<Rightarrow> time_stamps \<Rightarrow> string \<Rightarrow> string list \<Rightarrow> string \<Rightarrow> string" where
  "authorization_text access ts region names sig =
     ''AWS4-HMAC-SHA256 Credential='' @ access @ ''/'' @ credential_scope ts region @ '', SignedHeaders='' @ join '';'' names @
     '', Signature='' @ sig"

definition clean :: "string \<Rightarrow> bool" where
  "clean v \<longleftrightarrow> join '' '' (words v) = v"

lemma canonical_map_wf: "smap_wf (canonical_header_map c ts p hs)"
proof -
  have "smap_wf m \<Longrightarrow> smap_wf (fold (\<lambda>(k, v) m. smap_put (to_lower k) (trim_and_compress v) m) hs m)" for m
    by (induction hs arbitrary: m) (auto simp: smap_wf_put)
  then show ?thesis by (simp add: canonical_header_map_def smap_wf_put smap_wf_def)
qed

lemma fold_smap_get:
  "map_of (fold (\<lambda>(k, v) m. smap_put (to_lower k) (trim_and_compress v) m) hs m) n =
     (case map_of (rev (map (\<lambda>(k, v). (to_lower k, v)) hs)) n of
        Some v \<Rightarrow> Some (trim_and_compress v) | None \<Rightarrow> map_of m n)"
  by (induction hs arbitrary: m) (auto simp: map_add_def split: option.splits)

lemma fold_smap_keys:
  "fst ` set (fold (\<lambda>(k, v) m. smap_put (to_lower k) (trim_and_compress v) m) hs m) = fst ` set m \<union> (to_lower \<circ> fst) ` set hs"
proof (induction hs arbitrary: m)
  case (Cons h hs)
  obtain k v where "h = (k, v)" by (cases h)
  then show ?case by (simp add: Cons.IH smap_keys_put)
qed simp


lemma clean_nospace: "(\<And>c. c \<in> set v \<Longrightarrow> \<not> isspace c) \<Longrightarrow> clean v"
  by (cases v) (simp_all add: clean_def words_char takeWhile_eq_all_conv [THEN iffD2] dropWhile_eq_Nil_conv [THEN iffD2])

lemma clean_hex: "clean (hex_text raw)"
proof (rule clean_nospace)
  fix c assume "c \<in> set (hex_text raw)"
  then obtain r where "c \<in> set (hex_byte hex_char r)" by (auto simp: hex_text_def)
  then have "isxdigit c" by (auto simp: hex_byte_def hex_char_props nibble)
  then show "\<not> isspace c" using xdigit_plain by blast
qed

lemma lower_authorization: "to_lower ''Authorization'' = ''authorization''" "to_lower ''x-amz-date'' = ''x-amz-date''"
  "to_lower ''x-amz-content-sha256'' = ''x-amz-content-sha256''"
  by code_simp+


text \<open>The headers of a prepared request on the wire: the ones passed in win, then the three that the signature adds.\<close>

lemma wire_headers:
  assumes "has_credentials c" and "q = prepare_request C ts c meth bucket key query hs body ctype"
    and "p = sha256_hex C body" and "m = canonical_header_map c ts p hs"
  shows "header_on_wire q ''host'' = Some (host_header c)"
    and "x \<noteq> ''host'' \<Longrightarrow> header_on_wire q x = (case map_of (rev (map (\<lambda>(k, v). (to_lower k, v)) hs)) x of Some u \<Rightarrow> Some u
      | None \<Rightarrow> map_of [(''authorization'', authorization_text (s3_access_key c) ts (signing_region c) (map fst m)
          (signature C ts (s3_secret_key c) (signing_region c) (canonical_request_text meth (canonical_uri bucket key)
            (canonicalize_query_string query) m p))), (''x-amz-content-sha256'', p), (''x-amz-date'', ts_amz_date ts)] x)"
proof -
  show "header_on_wire q ''host'' = Some (host_header c)"
    using assms(2) by (simp add: header_on_wire_def prepare_request_def Let_def)
  have hdrs: "wq_headers q = sign_request C ts c meth bucket key (canonicalize_query_string query) hs p @ hs"
    using assms(1,2,3) by (auto simp: prepare_request_def Let_def)
  have sg: "sign_request C ts c meth bucket key (canonicalize_query_string query) hs p =
     [(''x-amz-date'', ts_amz_date ts), (''x-amz-content-sha256'', p), (''Authorization'',
        authorization_text (s3_access_key c) ts (signing_region c) (map fst m)
      (signature C ts (s3_secret_key c) (signing_region c) (canonical_request_text meth (canonical_uri bucket key)
        (canonicalize_query_string query) m p)))]"
    using assms(1,4) by (simp add: sign_request_def Let_def authorization_text_def signed_headers_text_def)
  show "header_on_wire q x = (case map_of (rev (map (\<lambda>(k, v). (to_lower k, v)) hs)) x of Some u \<Rightarrow> Some u
      | None \<Rightarrow> map_of [(''authorization'', authorization_text (s3_access_key c) ts (signing_region c) (map fst m)
          (signature C ts (s3_secret_key c) (signing_region c) (canonical_request_text meth (canonical_uri bucket key)
            (canonicalize_query_string query) m p))), (''x-amz-content-sha256'', p), (''x-amz-date'', ts_amz_date ts)] x)"
    if "x \<noteq> ''host''"
    using that by (simp add: header_on_wire_def hdrs sg lower_authorization map_add_def split: option.split)
qed

lemma lowered_None: "x \<notin> (to_lower \<circ> fst) ` set hs \<Longrightarrow> map_of (rev (map (\<lambda>(k, v). (to_lower k, v)) hs)) x = None"
  by (force simp: map_of_eq_None_iff)

lemma wire_header_prepared:
  assumes "has_credentials c"
    and "(to_lower \<circ> fst) ` set hs \<inter> {''host'', ''x-amz-date'', ''x-amz-content-sha256'', ''authorization''} = {}"
    and "q = prepare_request C ts c meth bucket key query hs body ctype"
    and "p = sha256_hex C body" and "m = canonical_header_map c ts p hs"
  shows "header_on_wire q ''x-amz-content-sha256'' = Some p"
    and "header_on_wire q ''authorization'' = Some (authorization_text (s3_access_key c) ts (signing_region c) (map fst m)
      (signature C ts (s3_secret_key c) (signing_region c) (canonical_request_text meth (canonical_uri bucket key)
        (canonicalize_query_string query) m p)))"
    and "clean (host_header c) \<Longrightarrow> clean (ts_amz_date ts) \<Longrightarrow> map_of m n = Some v \<Longrightarrow>
      (case header_on_wire q n of Some u \<Rightarrow> join '' '' (words u) = v | None \<Rightarrow> False)"
proof -
  note wh = wire_headers [OF assms(1,3,4,5)]
  have none: "map_of (rev (map (\<lambda>(k, v). (to_lower k, v)) hs)) x = None"
    if "x \<in> {''host'', ''x-amz-date'', ''x-amz-content-sha256'', ''authorization''}" for x
    using lowered_None [of x hs] that assms(2) by blast
  show sha: "header_on_wire q ''x-amz-content-sha256'' = Some p"
    and "header_on_wire q ''authorization'' = Some (authorization_text (s3_access_key c) ts (signing_region c) (map fst m)
      (signature C ts (s3_secret_key c) (signing_region c) (canonical_request_text meth (canonical_uri bucket key)
        (canonicalize_query_string query) m p)))"
    by (simp_all add: wh(2) none)
  have date: "header_on_wire q ''x-amz-date'' = Some (ts_amz_date ts)" by (simp add: wh(2) none)
  assume cl: "clean (host_header c)" "clean (ts_amz_date ts)" and n: "map_of m n = Some v"
  have mn: "map_of m n = (case map_of (rev (map (\<lambda>(k, v). (to_lower k, v)) hs)) n of Some u \<Rightarrow> Some (trim_and_compress u)
     | None \<Rightarrow> map_of (smap_put ''x-amz-date'' (ts_amz_date ts) (smap_put ''x-amz-content-sha256'' p
          (smap_put ''host'' (host_header c) []))) n)"
    by (simp only: assms(5) canonical_header_map_def fold_smap_get)
  show "case header_on_wire q n of Some u \<Rightarrow> join '' '' (words u) = v | None \<Rightarrow> False"
  proof (cases "map_of (rev (map (\<lambda>(k, v). (to_lower k, v)) hs)) n")
    case (Some u)
    then have "n \<noteq> ''host''" using none [of n] by auto
    with Some n mn show ?thesis by (simp add: wh(2) trim_and_compress_words)
  next
    case None
    with n mn have "n = ''x-amz-date'' \<and> v = ts_amz_date ts \<or> n = ''x-amz-content-sha256'' \<and> v = p \<or>
        n = ''host'' \<and> v = host_header c" by (auto split: if_splits)
    then show ?thesis
      using wh(1) sha date cl clean_hex [of "cr_sha256 C body"] assms(4)
      by (auto simp: clean_def sha256_hex_def)
  qed
qed

lemma signed_request_verifies:
  assumes "has_credentials c" and "bucket \<noteq> ''''"
    and "(to_lower \<circ> fst) ` set hs \<inter> {''host'', ''x-amz-date'', ''x-amz-content-sha256'', ''authorization''} = {}"
    and "clean (host_header c)" and "clean (ts_amz_date ts)"
    and "q = prepare_request C ts c meth bucket key query hs body ctype"
  shows "\<exists>names. sorted_wrt (<) names \<and>
    set names = {''host'', ''x-amz-date'', ''x-amz-content-sha256''} \<union> (to_lower \<circ> fst) ` set hs \<and>
    header_on_wire q ''authorization'' = Some (authorization_text (s3_access_key c) ts (signing_region c) names
      (signature C ts (s3_secret_key c) (signing_region c) (server_canonical q names)))"
proof -
  define p where "p = sha256_hex C body"
  define m where "m = canonical_header_map c ts p hs"
  note w = wire_header_prepared [OF assms(1,3,6) p_def m_def]
  have wf: "smap_wf m" unfolding m_def by (rule canonical_map_wf)
  then have dist: "distinct (map fst m)" unfolding smap_wf_def by (simp add: strict_sorted_iff)
  have keys: "set (map fst m) = {''host'', ''x-amz-date'', ''x-amz-content-sha256''} \<union> (to_lower \<circ> fst) ` set hs"
    by (auto simp: m_def canonical_header_map_def fold_smap_keys smap_keys_put)
  have line: "join '' '' (words (case header_on_wire q n of Some v \<Rightarrow> v | None \<Rightarrow> '''')) = v" if "(n, v) \<in> set m" for n v
    using w(3) [OF assms(4,5) map_of_is_SomeI [OF dist that]] by (simp split: option.splits)
  have lines: "canonical_headers_text m =
      concat (map (\<lambda>n. n @ '':'' @ join '' '' (words (case header_on_wire q n of Some v \<Rightarrow> v | None \<Rightarrow> '''')) @ LF) (map fst m))"
    unfolding canonical_headers_text_def map_map
    by (rule arg_cong [where f = concat], rule map_cong) (auto simp: line)
  have uri: "wq_path q = canonical_uri bucket key" "wq_query q = canonicalize_query_string query" "wq_method q = meth"
    using assms(2,6) by (simp_all add: prepare_request_def Let_def canonical_uri_def url_encode_path_def percent_encode_def)
  have "canonical_request_text meth (canonical_uri bucket key) (canonicalize_query_string query) m p = server_canonical q (map fst m)"
    by (simp add: canonical_request_text_def server_canonical_def uri lines signed_headers_text_def w(1) del: map_map)
  with w(2) wf keys show ?thesis unfolding smap_wf_def by (intro exI [of _ "map fst m"]) simp
qed

text \<open>C6. A request that is sent verifies at the server: the names listed as signed are sorted and are
  the three mandatory headers and all headers passed in, and the signature in the request is the one
  a server computes from the request it receives, for a bucket name and headers that do not collide with
  the ones the signature adds.\<close>

theorem signature_verifies:
  assumes "has_credentials c" and "bucket \<noteq> ''''"
    and "(to_lower \<circ> fst) ` set hs \<inter> {''host'', ''x-amz-date'', ''x-amz-content-sha256'', ''authorization''} = {}"
    and "clean (host_header c)" and "clean (ts_amz_date ts)"
    and "q = prepare_request C ts c meth bucket key query hs body ctype"
  shows "\<exists>names. sorted_wrt (<) names \<and>
    set names = {''host'', ''x-amz-date'', ''x-amz-content-sha256''} \<union> (to_lower \<circ> fst) ` set hs \<and>
    header_on_wire q ''authorization'' = Some (authorization_text (s3_access_key c) ts (signing_region c) names
      (signature C ts (s3_secret_key c) (signing_region c) (server_canonical q names)))"
  by (rule signed_request_verifies [OF assms])


text \<open>A concrete client: the hash functions are replaced by simple ones.\<close>

definition ex_crypto :: crypto where
  "ex_crypto = \<lparr>cr_sha256 = (\<lambda>s. s), cr_hmac_sha256 = (\<lambda>k s. k @ s)\<rparr>"

definition ex_stamps :: time_stamps where
  "ex_stamps = \<lparr>ts_amz_date = ''20240102T030405Z'', ts_date_stamp = ''20240102''\<rparr>"

definition ex_s3 :: S3Client where
  "ex_s3 = new_s3_client \<lparr>sg_type = ''s3'', sg_endpoint = ''http://minio'', sg_region = '''', sg_access_key = Some ''AK'',
     sg_secret_key = Some ''SK'', sg_bucket = '''', sg_use_https = True, sg_connection_timeout_sec = 30, sg_read_timeout_sec = 60\<rparr>"

lemma ex_has: "has_credentials ex_s3"
  by (simp add: ex_s3_def new_s3_client_def has_credentials_def Let_def)

lemma ex_bucket: "''b'' \<noteq> ''''"
  by simp

lemma ex_disjoint: "(to_lower \<circ> fst) ` set [(''Range'', ''bytes=0-4'')] \<inter>
    {''host'', ''x-amz-date'', ''x-amz-content-sha256'', ''authorization''} = {}"
proof -
  have "to_lower ''Range'' = ''range''" by code_simp
  then show ?thesis by simp
qed

lemma ex_clean_host: "clean (host_header ex_s3)"
proof -
  have "host_header ex_s3 = ''minio''"
    by (simp add: host_header_def ex_s3_def new_s3_client_def parse_endpoint_def strip_scheme_def starts_with_def)
  moreover have "clean ''minio''" by (rule clean_nospace) (auto simp: isspace_def)
  ultimately show ?thesis by simp
qed

lemma ex_clean_date: "clean (ts_amz_date ex_stamps)"
  by (rule clean_nospace) (auto simp: isspace_def ex_stamps_def)

theorem signature_verifies_witness:
  "\<exists>names. sorted_wrt (<) names \<and>
    set names = {''host'', ''x-amz-date'', ''x-amz-content-sha256''} \<union> (to_lower \<circ> fst) ` set [(''Range'', ''bytes=0-4'')] \<and>
    header_on_wire (prepare_request ex_crypto ex_stamps ex_s3 ''GET'' ''b'' ''a key'' '''' [(''Range'', ''bytes=0-4'')] '''' '''')
      ''authorization'' = Some (authorization_text (s3_access_key ex_s3) ex_stamps (signing_region ex_s3) names
        (signature ex_crypto ex_stamps (s3_secret_key ex_s3) (signing_region ex_s3)
          (server_canonical (prepare_request ex_crypto ex_stamps ex_s3 ''GET'' ''b'' ''a key'' '''' [(''Range'', ''bytes=0-4'')] '''' '''')
             names)))"
  by (rule signature_verifies [OF ex_has ex_bucket ex_disjoint ex_clean_host ex_clean_date refl])

section \<open>Query strings\<close>

text \<open>What a server reads from a query string.\<close>

definition server_query :: "string \<Rightarrow> (string \<times> string) list" where
  "server_query q = map (map_prod percent_decode percent_decode \<circ> split_param) (split_on (CHR ''&'') q)"

lemma split_on_no: "x \<notin> set s \<Longrightarrow> split_on x s = [s]"
  by (induction s) auto

lemma split_on_append: "x \<notin> set s \<Longrightarrow> split_on x (s @ x # t) = s # split_on x t"
  by (induction s) auto

lemma split_on_join: "xs \<noteq> [] \<Longrightarrow> (\<And>y. y \<in> set xs \<Longrightarrow> x \<notin> set y) \<Longrightarrow> split_on x (join [x] xs) = xs"
  by (induction "[x]" xs rule: join.induct) (auto simp: split_on_no split_on_append)

lemma split_param_pair [simp]: "CHR ''='' \<notin> set n \<Longrightarrow> split_param (n @ CHR ''='' # v) = (n, v)"
  by (simp add: split_param_def find_char_append)

definition plain_params :: "(string \<times> string) list \<Rightarrow> bool" where
  "plain_params ps \<longleftrightarrow> (\<forall>(n, v) \<in> set ps. CHR ''&'' \<notin> set n \<and> CHR ''='' \<notin> set n \<and> CHR ''&'' \<notin> set v)"

lemma split_query_text:
  assumes "plain_params ps" and "ps \<noteq> []"
  shows "split_on (CHR ''&'') (query_text ps) = map (\<lambda>(n, v). n @ ''='' @ v) ps"
  using assms unfolding query_text_def by (intro split_on_join) (auto simp: plain_params_def)

lemma encode_query_chars: "CHR ''&'' \<notin> set (url_encode_query s)" "CHR ''='' \<notin> set (url_encode_query s)"
  by (auto simp: url_encode_query_def unreserved_def isxdigit_def isdigit_def isalnum_def isupper_def islower_def dest!: percent_encode_chars)

lemma decode_encode_query [simp]: "percent_decode (url_encode_query s) = s"
  by (simp add: url_encode_query_def percent_decode_encode unreserved_def isalnum_def isdigit_def isupper_def islower_def)

lemma canonical_params_get:
  assumes "plain_params ps"
  shows "map_of (fold (\<lambda>p m. if p = '''' then m
              else case split_param p of (n, v) \<Rightarrow> smap_put (url_encode_query n) (url_encode_query v) m)
            (map (\<lambda>(n, v). n @ ''='' @ v) ps) m) =
         map_of m ++ map_of (rev (map (map_prod url_encode_query url_encode_query) ps))"
  using assms
proof (induction ps arbitrary: m)
  case (Cons p ps)
  obtain n v where p: "p = (n, v)" by (cases p)
  then have "CHR ''='' \<notin> set n" "plain_params ps" using Cons.prems by (auto simp: plain_params_def)
  then show ?case using Cons.IH by (auto simp: p fun_eq_iff map_add_def split: option.split)
qed simp

lemma canonical_params_distinct:
  "distinct (map fst (fold (\<lambda>p m. if p = '''' then m
              else case split_param p of (n, v) \<Rightarrow> smap_put (url_encode_query n) (url_encode_query v) m) xs []))"
proof -
  have "smap_wf m \<Longrightarrow> smap_wf (fold (\<lambda>p m. if p = '''' then m
              else case split_param p of (n, v) \<Rightarrow> smap_put (url_encode_query n) (url_encode_query v) m) xs m)" for m
    by (induction xs arbitrary: m) (auto simp: smap_wf_put split: prod.split)
  from this [of "[]"] show ?thesis by (simp add: smap_wf_def strict_sorted_iff)
qed

lemma map_of_encoded:
  "map_of (map (map_prod url_encode_query url_encode_query) xs) (url_encode_query n) = map_option url_encode_query (map_of xs n)"
  by (induction xs) (auto dest: arg_cong [where f = percent_decode])

lemma map_of_decoded:
  assumes "set m \<subseteq> range (map_prod url_encode_query url_encode_query)"
  shows "map_of (map (map_prod percent_decode percent_decode) m) n = map_option percent_decode (map_of m (url_encode_query n))"
proof -
  obtain xs where "m = map (map_prod url_encode_query url_encode_query) xs"
    using assms by (metis ex_map_conv subsetD image_iff)
  moreover have "map_prod percent_decode percent_decode \<circ> map_prod url_encode_query url_encode_query = id"
    by (simp add: fun_eq_iff)
  ultimately show ?thesis by (simp add: map_of_encoded option.map_comp comp_def option.map_ident)
qed

text \<open>A query string reaches the server: it reads from the canonical query the parameters that went in,
  the last value of each name, for names and values that the query syntax allows unescaped.\<close>

theorem query_roundtrip:
  assumes "plain_params ps" and "ps \<noteq> []"
  shows "map_of (server_query (canonicalize_query_string (query_text ps))) = map_of (rev ps)"
proof -
  define m where "m = fold (\<lambda>p m. if p = '''' then m
              else case split_param p of (n, v) \<Rightarrow> smap_put (url_encode_query n) (url_encode_query v) m)
            (map (\<lambda>(n, v). n @ ''='' @ v) ps) []"
  have c: "canonicalize_query_string (query_text ps) = query_text m"
    unfolding canonicalize_query_string_def split_query_text [OF assms] m_def ..
  have get: "map_of m = map_of (rev (map (map_prod url_encode_query url_encode_query) ps))"
    unfolding m_def canonical_params_get [OF assms(1)] by simp
  have dist: "distinct (map fst m)" unfolding m_def by (rule canonical_params_distinct)
  have enc: "set m \<subseteq> range (map_prod url_encode_query url_encode_query)"
  proof
    fix nv assume "nv \<in> set m"
    then have "map_of m (fst nv) = Some (snd nv)" using dist by (simp add: map_of_is_SomeI)
    then have "nv \<in> set (rev (map (map_prod url_encode_query url_encode_query) ps))"
      unfolding get by (metis map_of_SomeD prod.collapse)
    then show "nv \<in> range (map_prod url_encode_query url_encode_query)" by auto
  qed
  have plain: "plain_params m" using enc encode_query_chars by (fastforce simp: plain_params_def)
  have "m \<noteq> []" using get assms(2) by (metis list.map_disc_iff map_of.simps(1) map_of_eq_empty_iff rev_is_Nil_conv)
  then have "server_query (query_text m) = map (map_prod percent_decode percent_decode) m"
    using plain unfolding server_query_def split_query_text [OF plain \<open>m \<noteq> []\<close>] by (auto simp: plain_params_def)
  then show ?thesis unfolding c
    by (simp add: fun_eq_iff map_of_decoded [OF enc] get rev_map map_of_encoded option.map_comp comp_def option.map_ident)
qed

lemma list_query_server:
  assumes "CHR ''&'' \<notin> set prefix" and "CHR ''&'' \<notin> set token"
  shows "map_of (server_query (canonicalize_query_string (list_query prefix token max_keys))) =
    [''list-type'' \<mapsto> ''2''] ++ (if prefix = '''' then Map.empty else [''prefix'' \<mapsto> prefix]) ++
    (if max_keys = 0 then Map.empty else [''max-keys'' \<mapsto> to_string (unat max_keys)]) ++
    (if token = '''' then Map.empty else [''continuation-token'' \<mapsto> token])"
proof -
  let ?ps = "[(''list-type'', ''2'')] @ (if prefix = '''' then [] else [(''prefix'', prefix)]) @
    (if max_keys = 0 then [] else [(''max-keys'', to_string (unat max_keys))]) @
    (if token = '''' then [] else [(''continuation-token'', token)])"
  have "list_query prefix token max_keys = query_text ?ps"
    by (simp add: list_query_def query_text_def word_gt_0)
  moreover have "CHR ''&'' \<notin> set (to_string n)" for n
    using to_string_isdigit [of "CHR ''&''" n] by (auto simp: isdigit_def)
  then have "plain_params ?ps" using assms by (auto simp: plain_params_def)
  ultimately show ?thesis using query_roundtrip [of ?ps] by (auto simp: fun_eq_iff map_add_def)
qed

text \<open>The query of a listing reaches the server: prefix, page size and continuation token as they were passed,
  and none where none was, when the prefix and the token have no \<open>&\<close>.\<close>

theorem list_query_delivered:
  assumes "CHR ''&'' \<notin> set prefix" and "CHR ''&'' \<notin> set token"
  shows "map_of (server_query (canonicalize_query_string (list_query prefix token max_keys))) =
    [''list-type'' \<mapsto> ''2''] ++ (if prefix = '''' then Map.empty else [''prefix'' \<mapsto> prefix]) ++
    (if max_keys = 0 then Map.empty else [''max-keys'' \<mapsto> to_string (unat max_keys)]) ++
    (if token = '''' then Map.empty else [''continuation-token'' \<mapsto> token])"
  by (rule list_query_server [OF assms])

theorem list_query_delivered_witness:
  "map_of (server_query (canonicalize_query_string (list_query ''a b/'' ''t=='' 5))) =
    [''list-type'' \<mapsto> ''2''] ++ (if ''a b/'' = '''' then Map.empty else [''prefix'' \<mapsto> ''a b/'']) ++
    (if (5 :: u32) = 0 then Map.empty else [''max-keys'' \<mapsto> to_string (unat (5 :: u32))]) ++
    (if ''t=='' = '''' then Map.empty else [''continuation-token'' \<mapsto> ''t==''])"
  by (rule list_query_delivered) simp_all

end
