(* ===== verification/S3_Listing.thy ===== *)
theory S3_Listing
  imports S3_Client
begin

text \<open>
  The answer to a listing, as a service renders it, and what the parser of \<open>s3_client.cpp\<close> makes of it.

  The parser searches for tags by substring. A document is a list of tokens, tags and texts without
  \<open><\<close>; every occurrence of a tag in the rendered document is then one of the tokens, which reduces each
  search of the parser to a search in the token list.
\<close>

section \<open>Documents as tokens\<close>

datatype xtok = Tag string | Txt string

fun render_tok :: "xtok \<Rightarrow> string" where
  "render_tok (Tag t) = CHR ''<'' # t @ ''>''"
| "render_tok (Txt s) = s"

fun tok_ok :: "xtok \<Rightarrow> bool" where
  "tok_ok (Tag t) \<longleftrightarrow> CHR ''<'' \<notin> set t \<and> CHR ''>'' \<notin> set t"
| "tok_ok (Txt s) \<longleftrightarrow> CHR ''<'' \<notin> set s"

definition render_doc :: "xtok list \<Rightarrow> string" where
  "render_doc d = concat (map render_tok d)"

lemma render_doc_simps [simp]:
  "render_doc [] = ''''" "render_doc (k # d) = render_tok k @ render_doc d"
  "render_doc (d @ e) = render_doc d @ render_doc e"
  by (simp_all add: render_doc_def)

lemma mark_unique: "x \<notin> set u \<Longrightarrow> x \<notin> set t \<Longrightarrow> u @ x # r = t @ x # b \<longleftrightarrow> u = t \<and> r = b"
  by (induction u arbitrary: t) (case_tac t; force)+

lemma starts_with_iff: "starts_with p s \<longleftrightarrow> (\<exists>r. s = p @ r)"
  by (auto simp: starts_with_def) (metis append_take_drop_id)

lemma starts_with_tag:
  "tok_ok (Tag t) \<Longrightarrow> tok_ok (Tag u) \<Longrightarrow> starts_with (render_tok (Tag t)) (render_tok (Tag u) @ r) \<longleftrightarrow> u = t"
  by (auto simp: starts_with_iff mark_unique)

lemma find_tag:
  assumes "list_all tok_ok d" and "tok_ok (Tag t)"
  shows "find_pat (render_tok (Tag t)) (render_doc d) =
    (if Tag t \<in> set d then Some (length (render_doc (takeWhile (\<lambda>k. k \<noteq> Tag t) d))) else None)"
  using assms(1)
proof (induction d)
  case (Cons k d)
  show ?case
  proof (cases k)
    case (Txt s)
    with Cons show ?thesis by (simp add: find_pat_skip)
  next
    case (Tag u)
    have "find_pat (render_tok (Tag t)) (render_tok (Tag u) @ render_doc d) =
        map_option ((+) (length (render_tok (Tag u)))) (find_pat (render_tok (Tag t)) (render_doc d))" if "u \<noteq> t"
      using that starts_with_tag [OF assms(2), of u "render_doc d"] Cons.prems find_pat_skip [of "CHR ''<''" "u @ ''>''"]
      by (cases "find_pat (render_tok (Tag t)) (render_doc d)") (simp_all add: Tag)
    moreover have "find_pat (render_tok (Tag t)) (render_tok (Tag t) @ render_doc d) = Some 0"
      using starts_with_tag [OF assms(2), of t "render_doc d"] assms(2) by simp
    ultimately show ?thesis using Cons by (cases "u = t") (simp_all add: Tag)
  qed
qed simp

text \<open>A search from the boundary between \<open>a\<close> and \<open>n\<close>, up to the first tag \<open>t\<close>.\<close>

lemma str_find_tag:
  assumes "list_all tok_ok (a @ n @ Tag t # m)" and "Tag t \<notin> set n"
  shows "str_find (render_tok (Tag t)) (render_doc (a @ n @ Tag t # m)) (length (render_doc a)) =
    Some (length (render_doc (a @ n)))"
  using assms find_tag [of "n @ Tag t # m" t] by (simp add: str_find_def takeWhile_append takeWhile_eq_all_conv [THEN iffD2])

lemma str_find_no_tag:
  assumes "list_all tok_ok (a @ n)" and "tok_ok (Tag t)" and "Tag t \<notin> set n"
  shows "str_find (render_tok (Tag t)) (render_doc (a @ n)) (length (render_doc a)) = None"
  using assms find_tag [of n t] by (simp add: str_find_def)

section \<open>The searches of the parser\<close>

lemma xml_open_tok: "xml_open t = render_tok (Tag t)"
  by (simp add: xml_open_def)

lemma xml_close_tok: "xml_close t = render_tok (Tag (CHR ''/'' # t))"
  by (simp add: xml_close_def)

lemma segments_none:
  assumes "list_all tok_ok (a @ n)" and "tok_ok (Tag t)" and "Tag t \<notin> set n"
  shows "xml_segments t (render_doc (a @ n)) (length (render_doc a)) = []"
  using str_find_no_tag [OF assms] by (subst xml_segments.simps) (simp add: xml_open_tok)

lemma segments_step:
  assumes ok: "list_all tok_ok (a @ n @ Tag t # m @ Tag (CHR ''/'' # t) # r)"
    and no: "Tag t \<notin> set n" "Tag (CHR ''/'' # t) \<notin> set m"
  shows "xml_segments t (render_doc (a @ n @ Tag t # m @ Tag (CHR ''/'' # t) # r)) (length (render_doc a)) =
    render_doc (Tag t # m) # xml_segments t (render_doc ((a @ n @ Tag t # m) @ Tag (CHR ''/'' # t) # r)) (length (render_doc (a @ n @ Tag t # m)))"
proof -
  let ?d = "a @ n @ Tag t # m @ Tag (CHR ''/'' # t) # r"
  have s: "str_find (xml_open t) (render_doc ?d) (length (render_doc a)) = Some (length (render_doc (a @ n)))"
    unfolding xml_open_tok by (rule str_find_tag [OF ok no(1)])
  have e: "str_find (xml_close t) (render_doc ?d) (length (render_doc (a @ n))) = Some (length (render_doc (a @ n @ Tag t # m)))"
    using str_find_tag [of "a @ n" "Tag t # m" "CHR ''/'' # t" r] ok no(2) by (simp add: xml_close_tok)
  have "xml_segments t (render_doc ?d) (length (render_doc a)) =
      substr (render_doc ?d) (length (render_doc (a @ n))) (length (render_doc (a @ n @ Tag t # m)) - length (render_doc (a @ n))) #
      xml_segments t (render_doc ?d) (length (render_doc (a @ n @ Tag t # m)))"
    by (subst xml_segments.simps) (simp only: s e option.case)
  then show ?thesis by (simp add: substr_def)
qed

lemma extract_tag:
  assumes "list_all tok_ok (n @ Tag t # Txt s # Tag (CHR ''/'' # t) # r)" and "Tag t \<notin> set n"
  shows "xml_extract_tag (render_doc (n @ Tag t # Txt s # Tag (CHR ''/'' # t) # r)) t = xml_unescape s"
proof -
  let ?d = "n @ Tag t # Txt s # Tag (CHR ''/'' # t) # r"
  have s: "str_find (xml_open t) (render_doc ?d) 0 = Some (length (render_doc n))"
    using str_find_tag [of "[]" n t "Txt s # Tag (CHR ''/'' # t) # r"] assms by (simp add: xml_open_tok)
  have e: "str_find (xml_close t) (render_doc ?d) (length (render_doc n) + length (xml_open t)) =
      Some (length (render_doc n) + length (xml_open t) + length s)"
    using str_find_tag [of "n @ [Tag t]" "[Txt s]" "CHR ''/'' # t" r] assms by (simp add: xml_close_tok xml_open_tok)
  show ?thesis using s e by (simp add: xml_extract_tag_def Let_def substr_def xml_open_tok)
qed

lemma extract_no_tag:
  assumes "list_all tok_ok d" and "tok_ok (Tag t)" and "Tag t \<notin> set d"
  shows "xml_extract_tag (render_doc d) t = ''''"
  using str_find_no_tag [of "[]" d t] assms by (simp add: xml_extract_tag_def xml_open_tok)

lemma segments_elems:
  assumes "list_all tok_ok (a @ n @ concat (map (\<lambda>x. Tag t # mid x @ [Tag (CHR ''/'' # t)]) xs) @ z)" and "tok_ok (Tag t)"
    and "\<And>x. x \<in> set xs \<Longrightarrow> Tag (CHR ''/'' # t) \<notin> set (mid x)" and "Tag t \<notin> set n" and "Tag t \<notin> set z"
  shows "xml_segments t (render_doc (a @ n @ concat (map (\<lambda>x. Tag t # mid x @ [Tag (CHR ''/'' # t)]) xs) @ z))
    (length (render_doc a)) = map (\<lambda>x. render_doc (Tag t # mid x)) xs"
  using assms
proof (induction xs arbitrary: a n)
  case Nil
  then show ?case using segments_none [of a "n @ z" t] by simp
next
  case (Cons x xs)
  let ?z = "concat (map (\<lambda>x. Tag t # mid x @ [Tag (CHR ''/'' # t)]) xs) @ z"
  have "xml_segments t (render_doc (a @ n @ Tag t # mid x @ Tag (CHR ''/'' # t) # ?z)) (length (render_doc a)) =
      render_doc (Tag t # mid x) # xml_segments t (render_doc ((a @ n @ Tag t # mid x) @ Tag (CHR ''/'' # t) # ?z))
        (length (render_doc (a @ n @ Tag t # mid x)))"
    using Cons.prems by (intro segments_step) auto
  moreover have "xml_segments t (render_doc ((a @ n @ Tag t # mid x) @ [Tag (CHR ''/'' # t)] @ ?z))
        (length (render_doc (a @ n @ Tag t # mid x))) = map (\<lambda>x. render_doc (Tag t # mid x)) xs"
    using Cons.prems by (intro Cons.IH) auto
  ultimately show ?case by simp
qed

lemma str_contains_iff: "str_contains p s \<longleftrightarrow> (\<exists>a b. s = a @ p @ b)"
proof
  assume "str_contains p s"
  then obtain i where "find_pat p s = Some i" by (auto simp: str_contains_def str_find_def)
  from find_pat_split [OF this] show "\<exists>a b. s = a @ p @ b" by blast
next
  have "find_pat p (a @ p @ b) \<noteq> None" for a b
  proof (induction a)
    case Nil
    have "starts_with p (p @ b)" by simp
    then show ?case by (cases "p @ b") auto
  qed auto
  then show "\<exists>a b. s = a @ p @ b \<Longrightarrow> str_contains p s" by (auto simp: str_contains_def str_find_def)
qed

lemma tag_occurs:
  assumes "list_all tok_ok d" and "tok_ok (Tag t)" and "render_doc d = a @ render_tok (Tag t) @ b"
  shows "\<exists>d1 d2. d = d1 @ Tag t # d2 \<and> b = render_doc d2"
  using assms(1,3)
proof (induction d arbitrary: a)
  case (Cons k d)
  have skip: "\<exists>a'. r = a' @ CHR ''<'' # y" if "s @ r = x @ CHR ''<'' # y" "CHR ''<'' \<notin> set s" for s r x y :: string
    using that by (auto simp: append_eq_append_conv2 append_eq_Cons_conv)
  have later: ?case if "render_doc d = a' @ render_tok (Tag t) @ b" for a'
    using Cons.IH [OF _ that] Cons.prems(1) by (auto intro: exI [of _ "k # _"]) (metis append_Cons)
  show ?case
  proof (cases k)
    case (Txt s)
    then show ?thesis using skip [of s "render_doc d" a "t @ CHR ''>'' # b"] later Cons.prems by auto
  next
    case (Tag u)
    show ?thesis
    proof (cases a)
      case Nil
      then show ?thesis using Cons.prems assms(2) by (auto simp: Tag mark_unique intro: exI [of _ "[]"])
    next
      case (Cons c a')
      then show ?thesis
        using skip [of "u @ ''>''" "render_doc d" a' "t @ CHR ''>'' # b"] later Cons.prems Tag by auto
    qed
  qed
qed simp

section \<open>Escaping\<close>

definition escape_char :: "char \<Rightarrow> string" where
  "escape_char c =
     (if c = CHR ''&'' then ''&amp;'' else if c = CHR ''<'' then ''&lt;'' else if c = CHR ''>'' then ''&gt;''
      else if c = CHR 0x22 then ''&quot;'' else if c = CHR 0x27 then ''&#39;'' else [c])"

definition xml_escape :: "string \<Rightarrow> string" where
  "xml_escape s = concat (map escape_char s)"

lemma unescape_plain [simp]: "c \<noteq> CHR ''&'' \<Longrightarrow> xml_unescape (c # s) = c # xml_unescape s"
  by simp

lemma unescape_escape [simp]: "xml_unescape (xml_escape s) = s"
  by (induction s) (auto simp: xml_escape_def escape_char_def xml_entity_def)

lemma escape_empty [simp]: "xml_escape s = '''' \<longleftrightarrow> s = ''''"
  by (cases s) (simp_all add: xml_escape_def escape_char_def)

lemma unescape_no_amp: "CHR ''&'' \<notin> set s \<Longrightarrow> xml_unescape s = s"
  by (induction s) auto

lemma escape_ok [simp]: "CHR ''<'' \<notin> set (xml_escape s)"
  by (auto simp: xml_escape_def escape_char_def split: if_splits)

section \<open>Listings\<close>

definition elem_toks :: "string \<Rightarrow> string \<Rightarrow> xtok list" where
  "elem_toks t s = [Tag t, Txt s, Tag (CHR ''/'' # t)]"

definition object_fields :: "FullObjectMetadata \<Rightarrow> xtok list" where
  "object_fields o1 =
     elem_toks ''Key'' (xml_escape (om_key o1)) @
     (case om_last_modified o1 of None \<Rightarrow> [] | Some t \<Rightarrow> elem_toks ''LastModified'' (xml_escape t)) @
     elem_toks ''ETag'' (xml_escape (om_etag o1)) @ elem_toks ''Size'' (to_string (unat (om_size o1))) @
     elem_toks ''StorageClass'' ''STANDARD''"

definition listing_head :: "string \<Rightarrow> string \<Rightarrow> xtok list" where
  "listing_head bucket prefix =
     Tag ''ListBucketResult'' # elem_toks ''Name'' (xml_escape bucket) @ elem_toks ''Prefix'' (xml_escape prefix)"

definition token_toks :: "string \<Rightarrow> xtok list" where
  "token_toks token = (if token = '''' then [] else elem_toks ''NextContinuationToken'' (xml_escape token))"

definition listing_body :: "ListObjectsResult \<Rightarrow> xtok list" where
  "listing_body r =
     concat (map (\<lambda>o1. Tag ''Contents'' # object_fields o1 @ [Tag ''/Contents'']) (lr_objects r)) @
     concat (map (\<lambda>p. Tag ''CommonPrefixes'' # elem_toks ''Prefix'' (xml_escape p) @ [Tag ''/CommonPrefixes'']) (lr_common_prefixes r)) @
     [Tag ''/ListBucketResult'']"

definition listing_toks :: "string \<Rightarrow> string \<Rightarrow> ListObjectsResult \<Rightarrow> xtok list" where
  "listing_toks bucket prefix r =
     listing_head bucket prefix @ elem_toks ''IsTruncated'' (if lr_is_truncated r then ''true'' else ''false'') @
     token_toks (lr_continuation_token r) @ listing_body r"

text \<open>What a listing carries: no content type and no version, and no empty date or prefix.\<close>

definition listed :: "ListObjectsResult \<Rightarrow> bool" where
  "listed r \<longleftrightarrow> list_all (\<lambda>o1. om_content_type o1 = None \<and> om_version_id o1 = None \<and> om_last_modified o1 \<noteq> Some '''') (lr_objects r) \<and>
     '''' \<notin> set (lr_common_prefixes r)"

lemma number_no: "c \<in> set (to_string n) \<Longrightarrow> c \<noteq> CHR ''<'' \<and> c \<noteq> CHR ''&''"
  using to_string_isdigit [of c n] by (auto simp: isdigit_def)

lemma object_fields_ok: "list_all tok_ok (object_fields o1)"
  using number_no by (auto simp: object_fields_def elem_toks_def split: option.split)

lemma listing_body_ok: "list_all tok_ok (listing_body r)"
  using object_fields_ok by (auto simp: listing_body_def elem_toks_def list_all_iff)

lemma listing_ok: "list_all tok_ok (listing_toks bucket prefix r)"
  using listing_body_ok by (auto simp: listing_toks_def listing_head_def elem_toks_def token_toks_def)

lemma extract_elem:
  assumes "list_all tok_ok d" and "\<exists>r. d = n @ elem_toks t s @ r" and "Tag t \<notin> set n"
  shows "xml_extract_tag (render_doc d) t = xml_unescape s"
proof -
  obtain r where "d = n @ Tag t # Txt s # Tag (CHR ''/'' # t) # r" using assms(2) by (auto simp: elem_toks_def)
  with extract_tag [of n t s r] assms(1,3) show ?thesis by metis
qed

lemma parse_object:
  assumes "om_content_type o1 = None" "om_version_id o1 = None" "om_last_modified o1 \<noteq> Some ''''"
  shows "parse_contents (render_doc (Tag ''Contents'' # object_fields o1)) = o1"
proof -
  let ?d = "Tag ''Contents'' # object_fields o1"
  let ?k = "Tag ''Contents'' # elem_toks ''Key'' (xml_escape (om_key o1))"
  let ?l = "case om_last_modified o1 of None \<Rightarrow> [] | Some t \<Rightarrow> elem_toks ''LastModified'' (xml_escape t)"
  let ?e = "elem_toks ''ETag'' (xml_escape (om_etag o1))"
  have ok: "list_all tok_ok ?d" using object_fields_ok by simp
  have key: "xml_extract_tag (render_doc ?d) ''Key'' = xml_unescape (xml_escape (om_key o1))"
    by (rule extract_elem [OF ok, of "[Tag ''Contents'']"]) (simp_all add: object_fields_def)
  have etag: "xml_extract_tag (render_doc ?d) ''ETag'' = xml_unescape (xml_escape (om_etag o1))"
    by (rule extract_elem [OF ok, of "?k @ ?l"]) (simp_all add: object_fields_def elem_toks_def split: option.split)
  have sz: "xml_extract_tag (render_doc ?d) ''Size'' = xml_unescape (to_string (unat (om_size o1)))"
    by (rule extract_elem [OF ok, of "?k @ ?l @ ?e"]) (simp_all add: object_fields_def elem_toks_def split: option.split)
  have lm: "xml_extract_tag (render_doc ?d) ''LastModified'' = (case om_last_modified o1 of None \<Rightarrow> '''' | Some t \<Rightarrow> t)"
  proof (cases "om_last_modified o1")
    case None
    then have "Tag ''LastModified'' \<notin> set ?d" by (simp add: object_fields_def elem_toks_def)
    with None show ?thesis using extract_no_tag [OF ok] by simp
  next
    case (Some u)
    then have "xml_extract_tag (render_doc ?d) ''LastModified'' = xml_unescape (xml_escape u)"
      by (intro extract_elem [OF ok, of ?k]) (simp_all add: object_fields_def elem_toks_def)
    with Some show ?thesis by simp
  qed
  have num: "xml_unescape (to_string n) = to_string n" for n using number_no by (intro unescape_no_amp) blast
  have "stoull (to_string (unat (om_size o1))) = Some (om_size o1)"
    using stoull_to_string [of "unat (om_size o1)"] unsigned_less [of "om_size o1"] by simp
  moreover define seg where "seg = render_doc ?d"
  ultimately have "parse_contents seg = o1"
    using assms key etag sz lm num unfolding seg_def [symmetric]
    by (cases o1) (auto simp: parse_contents_def Let_def split: option.splits)
  then show ?thesis by (simp only: seg_def)
qed

lemma parse_truncated:
  "str_contains ''<IsTruncated>true</IsTruncated>'' (render_doc (listing_toks bucket prefix r)) \<longleftrightarrow> lr_is_truncated r"
proof -
  let ?x = "listing_head bucket prefix"
  let ?y = "Txt (if lr_is_truncated r then ''true'' else ''false'') # Tag ''/IsTruncated'' # token_toks (lr_continuation_token r) @ listing_body r"
  have d: "listing_toks bucket prefix r = ?x @ Tag ''IsTruncated'' # ?y" by (simp add: listing_toks_def elem_toks_def)
  have once: "Tag ''IsTruncated'' \<notin> set ?x" "Tag ''IsTruncated'' \<notin> set ?y"
    by (auto simp: listing_head_def elem_toks_def token_toks_def listing_body_def object_fields_def split: option.splits)
  have pat: "''<IsTruncated>true</IsTruncated>'' = render_tok (Tag ''IsTruncated'') @ ''true</IsTruncated>''" by simp
  have "lr_is_truncated r" if occ: "render_doc (listing_toks bucket prefix r) = a @ render_tok (Tag ''IsTruncated'') @ ''true</IsTruncated>'' @ b" for a b
  proof -
    obtain d1 d2 where s: "listing_toks bucket prefix r = d1 @ Tag ''IsTruncated'' # d2" "''true</IsTruncated>'' @ b = render_doc d2"
      using tag_occurs [OF listing_ok _ occ] by auto
    then have "d2 = ?y" using d append_Cons_eq_iff [OF once, of d1 d2] by simp
    with s(2) show ?thesis by (simp split: if_splits)
  qed
  moreover have "\<exists>a b. render_doc (listing_toks bucket prefix r) = a @ ''<IsTruncated>true</IsTruncated>'' @ b" if "lr_is_truncated r"
    unfolding d using that
    by (intro exI [of _ "render_doc ?x"] exI [of _ "render_doc (token_toks (lr_continuation_token r) @ listing_body r)"]) simp
  ultimately show ?thesis unfolding str_contains_iff pat by (metis append.assoc)
qed

lemma body_no_token: "Tag ''NextContinuationToken'' \<notin> set (listing_body r)" "Tag ''/NextContinuationToken'' \<notin> set (listing_body r)"
  by (auto simp: listing_body_def elem_toks_def object_fields_def split: option.splits)

lemma next_token_found:
  assumes "list_all tok_ok n" and "list_all tok_ok b" and "CHR ''<'' \<notin> set (e1 @ e2)" and "length e1 = 2"
    and "Tag ''NextContinuationToken'' \<notin> set n"
  shows "parse_next_token (render_doc (n @ elem_toks ''NextContinuationToken'' (e1 @ e2) @ b)) = xml_unescape e2"
proof -
  let ?t = "Tag ''NextContinuationToken''" and ?c = "Tag ''/NextContinuationToken''"
  let ?s = "render_doc (n @ elem_toks ''NextContinuationToken'' (e1 @ e2) @ b)"
  have "str_find ''<NextContinuationToken>'' ?s 0 = Some (length (render_doc n))"
    using str_find_tag [of "[]" n "''NextContinuationToken''" "Txt (e1 @ e2) # ?c # b"] assms by (simp add: elem_toks_def)
  moreover have "str_find ''</NextContinuationToken>'' ?s (length (render_doc n) + 25) = Some (length (render_doc n) + 25 + length e2)"
    using str_find_tag [of "n @ [?t, Txt e1]" "[Txt e2]" "''/NextContinuationToken''" b] assms by (simp add: elem_toks_def)
  ultimately show ?thesis using assms(4)
    by (simp add: parse_next_token_def substr_def elem_toks_def del: xml_unescape.simps)
qed

lemma next_token_short:
  assumes "list_all tok_ok n" and "list_all tok_ok b" and "x \<noteq> CHR ''<''"
    and "Tag ''NextContinuationToken'' \<notin> set n" and "Tag ''/NextContinuationToken'' \<notin> set b"
  shows "parse_next_token (render_doc (n @ elem_toks ''NextContinuationToken'' [x] @ b)) = ''''"
proof -
  let ?s = "render_doc (n @ elem_toks ''NextContinuationToken'' [x] @ b)"
  have "str_find ''<NextContinuationToken>'' ?s 0 = Some (length (render_doc n))"
    using str_find_tag [of "[]" n "''NextContinuationToken''" "Txt [x] # Tag ''/NextContinuationToken'' # b"] assms
    by (simp add: elem_toks_def)
  moreover have "drop 25 (render_doc (elem_toks ''NextContinuationToken'' [x] @ b)) = render_doc (Txt ''/NextContinuationToken>'' # b)"
    by (simp add: elem_toks_def)
  then have "str_find ''</NextContinuationToken>'' ?s (length (render_doc n) + 25) = None"
    using find_tag [of "Txt ''/NextContinuationToken>'' # b" "''/NextContinuationToken''"] assms by (simp add: str_find_def)
  ultimately show ?thesis by (simp add: parse_next_token_def)
qed

lemma parse_token:
  "parse_next_token (render_doc (listing_toks bucket prefix r)) = xml_unescape (drop 2 (xml_escape (lr_continuation_token r)))"
proof (cases "lr_continuation_token r = ''''")
  case True
  let ?d = "listing_toks bucket prefix r"
  have "Tag ''NextContinuationToken'' \<notin> set ?d"
    using body_no_token by (simp add: listing_toks_def listing_head_def elem_toks_def token_toks_def True)
  then have "str_find ''<NextContinuationToken>'' (render_doc ?d) 0 = None"
    using str_find_no_tag [of "[]" ?d "''NextContinuationToken''"] listing_ok by simp
  then show ?thesis by (simp add: parse_next_token_def True xml_escape_def)
next
  case False
  define n where "n = listing_head bucket prefix @ elem_toks ''IsTruncated'' (if lr_is_truncated r then ''true'' else ''false'')"
  define e where "e = xml_escape (lr_continuation_token r)"
  have d: "listing_toks bucket prefix r = n @ elem_toks ''NextContinuationToken'' e @ listing_body r"
    using False by (simp add: listing_toks_def n_def e_def token_toks_def)
  have n: "list_all tok_ok n" "Tag ''NextContinuationToken'' \<notin> set n" by (auto simp: n_def listing_head_def elem_toks_def)
  have e: "CHR ''<'' \<notin> set e" by (simp add: e_def)
  show ?thesis
  proof (cases "2 \<le> length e")
    case True
    then show ?thesis
      using next_token_found [OF n(1) listing_body_ok, of "take 2 e" "drop 2 e"] n e unfolding d e_def [symmetric] by simp
  next
    case short: False
    have "e \<noteq> ''''" using False by (simp add: e_def)
    with short obtain x where "e = [x]" by (cases e; cases "tl e") auto
    then show ?thesis
      using next_token_short [OF n(1) listing_body_ok, of x] n e body_no_token unfolding d e_def [symmetric] by simp
  qed
qed

lemma parse_prefixes:
  assumes "'''' \<notin> set (lr_common_prefixes r)"
  shows "filter (\<lambda>p. p \<noteq> '''') (map (\<lambda>s. xml_extract_tag s ''Prefix'')
    (xml_segments ''CommonPrefixes'' (render_doc (listing_toks bucket prefix r)) 0)) = lr_common_prefixes r"
proof -
  let ?mid = "\<lambda>p. elem_toks ''Prefix'' (xml_escape p)"
  let ?n = "listing_head bucket prefix @ elem_toks ''IsTruncated'' (if lr_is_truncated r then ''true'' else ''false'') @
     token_toks (lr_continuation_token r) @ concat (map (\<lambda>o1. Tag ''Contents'' # object_fields o1 @ [Tag ''/Contents'']) (lr_objects r))"
  have d: "listing_toks bucket prefix r = [] @ ?n @ concat (map (\<lambda>p. Tag ''CommonPrefixes'' # ?mid p @ [Tag (CHR ''/'' # ''CommonPrefixes'')])
      (lr_common_prefixes r)) @ [Tag ''/ListBucketResult'']"
    by (simp add: listing_toks_def listing_body_def)
  have n: "Tag ''CommonPrefixes'' \<notin> set ?n"
    by (auto simp: listing_head_def elem_toks_def token_toks_def object_fields_def split: option.splits)
  have "xml_segments ''CommonPrefixes'' (render_doc (listing_toks bucket prefix r)) (length (render_doc [])) =
      map (\<lambda>p. render_doc (Tag ''CommonPrefixes'' # ?mid p)) (lr_common_prefixes r)"
    using listing_ok [of bucket prefix r] n unfolding d by (intro segments_elems) (auto simp: elem_toks_def)
  moreover have "xml_extract_tag (render_doc (Tag ''CommonPrefixes'' # ?mid p)) ''Prefix'' = xml_unescape (xml_escape p)" for p
    by (rule extract_elem [where n = "[Tag ''CommonPrefixes'']"]) (simp_all add: elem_toks_def)
  ultimately have "map (\<lambda>s. xml_extract_tag s ''Prefix'') (xml_segments ''CommonPrefixes'' (render_doc (listing_toks bucket prefix r)) 0) =
      lr_common_prefixes r"
    by (simp add: comp_def del: render_doc_simps(2))
  moreover have "filter (\<lambda>p. p \<noteq> '''') (lr_common_prefixes r) = lr_common_prefixes r"
    using assms by (auto simp: filter_id_conv)
  ultimately show ?thesis by simp
qed

lemma parse_objects:
  assumes "list_all (\<lambda>o1. om_content_type o1 = None \<and> om_version_id o1 = None \<and> om_last_modified o1 \<noteq> Some '''') (lr_objects r)"
  shows "map parse_contents (xml_segments ''Contents'' (render_doc (listing_toks bucket prefix r)) 0) = lr_objects r"
proof -
  let ?n = "listing_head bucket prefix @ elem_toks ''IsTruncated'' (if lr_is_truncated r then ''true'' else ''false'') @
     token_toks (lr_continuation_token r)"
  let ?z = "concat (map (\<lambda>p. Tag ''CommonPrefixes'' # elem_toks ''Prefix'' (xml_escape p) @ [Tag ''/CommonPrefixes'']) (lr_common_prefixes r)) @
     [Tag ''/ListBucketResult'']"
  have d: "listing_toks bucket prefix r = [] @ ?n @
      concat (map (\<lambda>o1. Tag ''Contents'' # object_fields o1 @ [Tag (CHR ''/'' # ''Contents'')]) (lr_objects r)) @ ?z"
    by (simp add: listing_toks_def listing_body_def)
  have nz: "Tag ''Contents'' \<notin> set ?n" "Tag ''Contents'' \<notin> set ?z"
    by (auto simp: listing_head_def elem_toks_def token_toks_def)
  have "xml_segments ''Contents'' (render_doc (listing_toks bucket prefix r)) (length (render_doc [])) =
      map (\<lambda>o1. render_doc (Tag ''Contents'' # object_fields o1)) (lr_objects r)"
    using listing_ok [of bucket prefix r] nz unfolding d
    by (intro segments_elems) (auto simp: elem_toks_def object_fields_def split: option.splits)
  then show ?thesis using assms by (auto simp: list_all_iff parse_object map_idI comp_def simp del: render_doc_simps(2))
qed

lemma parse_listing:
  assumes "listed r"
  shows "parse_list_objects_response (render_doc (listing_toks bucket prefix r)) =
    r\<lparr>lr_continuation_token := xml_unescape (drop 2 (xml_escape (lr_continuation_token r)))\<rparr>"
  using assms parse_objects [of r bucket prefix] parse_prefixes [of r bucket prefix]
  by (cases r) (simp add: listed_def parse_list_objects_response_def parse_truncated parse_token)

lemma escape_plain: "set s \<inter> {CHR ''&'', CHR ''<'', CHR ''>'', CHR 0x22, CHR 0x27} = {} \<Longrightarrow> xml_escape s = s"
  by (induction s) (auto simp: xml_escape_def escape_char_def)

text \<open>C18. A listing that a service renders is parsed to the same objects, in order, with their keys, dates, tags and
  sizes, and to the same common prefixes and truncation flag, whatever characters the keys have.\<close>

theorem listing_roundtrip:
  assumes "listed r"
  shows "lr_objects (parse_list_objects_response (render_doc (listing_toks bucket prefix r))) = lr_objects r \<and>
    lr_common_prefixes (parse_list_objects_response (render_doc (listing_toks bucket prefix r))) = lr_common_prefixes r \<and>
    lr_is_truncated (parse_list_objects_response (render_doc (listing_toks bucket prefix r))) = lr_is_truncated r"
  by (simp add: parse_listing [OF assms])

definition ex_listing :: ListObjectsResult where
  "ex_listing = \<lparr>lr_objects = [\<lparr>om_size = 5, om_etag = ''e'', om_key = ''a<b'', om_content_type = None, om_last_modified = Some ''d'',
       om_version_id = None\<rparr>], lr_common_prefixes = [''p/''], lr_is_truncated = True, lr_continuation_token = ''abcd''\<rparr>"

theorem listing_roundtrip_witness:
  "listed ex_listing \<and> lr_objects (parse_list_objects_response (render_doc (listing_toks ''b'' '''' ex_listing))) = lr_objects ex_listing"
proof -
  have "listed ex_listing" by (simp add: listed_def ex_listing_def)
  with listing_roundtrip [of ex_listing "''b''" "''''"] show ?thesis by simp
qed

text \<open>C40. The next page is not found. Of a continuation token without special characters, as services send them, the parser loses
  the first two characters: it skips 25 characters of the tag \<open><NextContinuationToken>\<close>, which has 23. The next
  request, made with the token as it was parsed, then carries a token the service did not issue.\<close>

theorem continuation_token_cut:
  assumes "listed r" and "lr_continuation_token r = token" and "2 < length token"
    and "set token \<inter> {CHR ''&'', CHR ''<'', CHR ''>'', CHR 0x22, CHR 0x27} = {}" and "CHR ''&'' \<notin> set prefix"
    and "next = lr_continuation_token (parse_list_objects_response (render_doc (listing_toks bucket prefix r)))"
  shows "map_of (server_query (canonicalize_query_string (list_query prefix next max_keys))) ''continuation-token'' =
    Some (drop 2 token) \<and> drop 2 token \<noteq> token"
proof -
  have "xml_unescape (drop 2 token) = drop 2 token"
    using assms(4) by (intro unescape_no_amp) (auto dest: in_set_dropD)
  then have "next = drop 2 token" using parse_listing [OF assms(1)] escape_plain [OF assms(4)] assms(2,6) by simp
  moreover have "CHR ''&'' \<notin> set (drop 2 token)" using assms(4) by (auto dest: in_set_dropD)
  moreover have "length (drop 2 token) \<noteq> length token" using assms(3) by simp
  then have "drop 2 token \<noteq> token" by metis
  ultimately show ?thesis using list_query_server [OF assms(5), of "drop 2 token" max_keys] assms(3) by auto
qed

theorem continuation_token_cut_witness:
  "map_of (server_query (canonicalize_query_string (list_query ''p/''
     (lr_continuation_token (parse_list_objects_response (render_doc (listing_toks ''b'' ''p/'' ex_listing)))) 10)))
     ''continuation-token'' = Some ''cd''"
proof -
  have "listed ex_listing" "lr_continuation_token ex_listing = ''abcd''" by (simp_all add: listed_def ex_listing_def)
  from continuation_token_cut [OF this _ _ _ refl, of "''p/''" "''b''" 10] show ?thesis by simp
qed

end
