(* ===== verification/Gossip_Server.thy ===== *)
theory Gossip_Server
  imports Node_Discovery
begin

text \<open>
  The threads and coroutines of node discovery (\<open>p2p/node_discovery.cpp\<close>): the thread of the gossip TCP
  server, its accept loop, the connection handlers, the periodic gossip loop and the start of the
  server that \<open>register_node\<close> hands to the scheduler, next to the thread that owns the object. A run is a sequence of their
  steps in any order, where a step is one operation, such as a start of the server or an iteration of a loop, that
  nothing disturbs; \<open>Gossip_Lifecycle\<close> has the start and the stop of the server with their single reads and writes.
  Coroutines of one
  kind that stand at the same point are alike, so they are counted. \<open>None\<close> is a call of
  \<open>std::terminate\<close>.
\<close>

section \<open>State\<close>

text \<open>
  The thread function: before it looks at the scheduler, before it binds (with the port), in the loop that
  keeps it alive, and at its end. A thread that has ended stays joinable until it is joined.
\<close>

datatype server_thread = No_thread | Starting u16 bool | Binding u16 | Serving | Exited

text \<open>The owner of the object is free, or inside of \<open>stop_tcp_server\<close> where it joins the thread.\<close>

datatype owner = Free | Joining

record GossipRuntime =
  rt_node :: NodeDiscovery
  rt_gossip_port :: u16
  rt_config_port :: u16
  rt_listen_port :: u16
  rt_tcp_running :: bool
  rt_server_stopped :: bool
  rt_scheduler_owned :: bool
  rt_scheduler_up :: bool
  rt_thread :: server_thread
  rt_listener :: "bool option"
  rt_owner :: owner
  rt_start_tasks :: nat
  rt_accept_test :: nat
  rt_accept_wait :: nat
  rt_handlers :: nat
  rt_gossip_test :: nat
  rt_gossip_sleep :: nat
  rt_gossip_beat :: nat

text \<open>\<open>given\<close>: a running scheduler was set.\<close>

definition new_gossip_runtime :: "clocks \<Rightarrow> u32 \<Rightarrow> u16 \<Rightarrow> u16 \<Rightarrow> bool \<Rightarrow> GossipRuntime" where
  "new_gossip_runtime clk max_peers gossip_port config_port given =
     \<lparr>rt_node = (new_node_discovery clk max_peers)\<lparr>has_scheduler := given\<rparr>, rt_gossip_port = gossip_port,
      rt_config_port = config_port, rt_listen_port = 0, rt_tcp_running = False, rt_server_stopped = True,
      rt_scheduler_owned = False, rt_scheduler_up = given, rt_thread = No_thread, rt_listener = None, rt_owner = Free,
      rt_start_tasks = 0, rt_accept_test = 0, rt_accept_wait = 0, rt_handlers = 0, rt_gossip_test = 0, rt_gossip_sleep = 0,
      rt_gossip_beat = 0\<rparr>"

section \<open>The server thread\<close>

text \<open>Assigning a new thread to one that is joinable terminates the program.\<close>

definition start_tcp_server_internal :: "u16 \<Rightarrow> GossipRuntime \<Rightarrow> GossipRuntime option" where
  "start_tcp_server_internal port r =
     (if rt_tcp_running r then Some r
      else if rt_thread r \<noteq> No_thread then None
      else Some (r\<lparr>rt_tcp_running := True, rt_server_stopped := False,
                   rt_scheduler_owned := \<not> has_scheduler (rt_node r),
                   rt_thread := Starting port (has_scheduler (rt_node r))\<rparr>))"

definition gossip_start_tcp_server :: "GossipRuntime \<Rightarrow> GossipRuntime option" where
  "gossip_start_tcp_server r =
     start_tcp_server_internal (if rt_gossip_port r = 0 then rt_config_port r else rt_gossip_port r) r"

definition create_scheduler :: "bool \<Rightarrow> GossipRuntime \<Rightarrow> GossipRuntime" where
  "create_scheduler use_existing r =
     (if use_existing then r
      else r\<lparr>rt_node := (rt_node r)\<lparr>has_scheduler := True\<rparr>, rt_scheduler_up := True, rt_scheduler_owned := True\<rparr>)"

text \<open>The result of binding is the port, or \<open>None\<close>.\<close>

definition bind_listener :: "u16 option \<Rightarrow> GossipRuntime \<Rightarrow> GossipRuntime" where
  "bind_listener bound r =
     (case bound of
        None \<Rightarrow> r\<lparr>rt_tcp_running := False, rt_server_stopped := True, rt_scheduler_up := rt_scheduler_up r \<and> \<not> rt_scheduler_owned r,
                  rt_thread := Exited\<rparr>
      | Some p \<Rightarrow> r\<lparr>rt_listener := Some True, rt_listen_port := p,
                    rt_node := (if local_node_port (rt_node r) = 0 then (rt_node r)\<lparr>local_node_port := p\<rparr> else rt_node r),
                    rt_accept_test := rt_accept_test r + 1, rt_thread := Serving\<rparr>)"

definition close_listener :: "GossipRuntime \<Rightarrow> GossipRuntime" where
  "close_listener r = r\<lparr>rt_listener := map_option (\<lambda>_. False) (rt_listener r)\<rparr>"

definition keep_alive :: "GossipRuntime \<Rightarrow> GossipRuntime" where
  "keep_alive r =
     (if rt_tcp_running r then r else (close_listener r)\<lparr>rt_server_stopped := True, rt_thread := Exited\<rparr>)"

definition server_thread_step :: "(u16 \<Rightarrow> u16 option) \<Rightarrow> GossipRuntime \<Rightarrow> GossipRuntime" where
  "server_thread_step bnd r =
     (case rt_thread r of
        Starting port use_existing \<Rightarrow> (create_scheduler use_existing r)\<lparr>rt_thread := Binding port\<rparr>
      | Binding port \<Rightarrow> bind_listener (bnd port) r
      | Serving \<Rightarrow> keep_alive r
      | _ \<Rightarrow> r)"

text \<open>
  \<open>stop_tcp_server\<close> up to the join, and after it. A scheduler that is shut down resumes none of its
  coroutines. The connection made to wake the accept loop up is an accept that returns.
\<close>

definition stop_tcp_server_begin :: "GossipRuntime \<Rightarrow> GossipRuntime" where
  "stop_tcp_server_begin r =
     (if rt_tcp_running r then (close_listener r)\<lparr>rt_tcp_running := False, rt_owner := Joining\<rparr> else r)"

definition stop_tcp_server_end :: "GossipRuntime \<Rightarrow> GossipRuntime" where
  "stop_tcp_server_end r =
     (let r1 = r\<lparr>rt_thread := No_thread, rt_owner := Free\<rparr>
      in if has_scheduler (rt_node r) \<and> rt_scheduler_owned r
         then r1\<lparr>rt_node := (rt_node r)\<lparr>has_scheduler := False\<rparr>, rt_scheduler_up := False, rt_scheduler_owned := False,
                 rt_start_tasks := 0, rt_accept_test := 0, rt_accept_wait := 0, rt_handlers := 0, rt_gossip_test := 0,
                 rt_gossip_sleep := 0, rt_gossip_beat := 0\<rparr>
         else r1)"

text \<open>The accept loop: the test of its condition, and the return of an accept, which may be an error.\<close>

definition accept_loop_test :: "GossipRuntime \<Rightarrow> GossipRuntime" where
  "accept_loop_test r =
     r\<lparr>rt_accept_test := rt_accept_test r - 1,
       rt_accept_wait := (if rt_tcp_running r then rt_accept_wait r + 1 else rt_accept_wait r)\<rparr>"

definition accept_returns :: "bool \<Rightarrow> GossipRuntime \<Rightarrow> GossipRuntime" where
  "accept_returns ok r =
     r\<lparr>rt_accept_wait := rt_accept_wait r - 1, rt_accept_test := rt_accept_test r + 1,
       rt_handlers := (if ok then rt_handlers r + 1 else rt_handlers r)\<rparr>"

section \<open>The gossip loop and the life cycle\<close>

definition start_gossip :: "GossipRuntime \<Rightarrow> GossipRuntime" where
  "start_gossip r =
     (if gossip_running (rt_node r) then r
      else r\<lparr>rt_node := start_gossip_protocol (rt_node r),
             rt_gossip_test := (if has_scheduler (rt_node r) then rt_gossip_test r + 1 else rt_gossip_test r)\<rparr>)"

definition stop_gossip :: "GossipRuntime \<Rightarrow> GossipRuntime" where
  "stop_gossip r = r\<lparr>rt_node := stop_gossip_protocol (rt_node r)\<rparr>"

definition gossiping :: "GossipRuntime \<Rightarrow> bool" where
  "gossiping r \<longleftrightarrow> gossip_running (rt_node r) \<and> nd_running (rt_node r)"

definition gossip_loop_test :: "GossipRuntime \<Rightarrow> GossipRuntime" where
  "gossip_loop_test r =
     r\<lparr>rt_gossip_test := rt_gossip_test r - 1,
       rt_gossip_sleep := (if gossiping r then rt_gossip_sleep r + 1 else rt_gossip_sleep r)\<rparr>"

definition gossip_loop_wake ::
    "(PeerNode list \<Rightarrow> PeerNode list) \<Rightarrow> (PeerNode \<Rightarrow> bool) \<Rightarrow> clocks \<Rightarrow> GossipRuntime \<Rightarrow> GossipRuntime" where
  "gossip_loop_wake shuffle ok clk r =
     (let r1 = r\<lparr>rt_gossip_sleep := rt_gossip_sleep r - 1\<rparr>
      in if gossiping r
         then r1\<lparr>rt_node := gossip_tick shuffle ok clk (rt_node r), rt_gossip_beat := rt_gossip_beat r + 1\<rparr>
         else r1)"

definition gossip_loop_beat :: "clocks \<Rightarrow> GossipRuntime \<Rightarrow> GossipRuntime" where
  "gossip_loop_beat clk r =
     r\<lparr>rt_node := heartbeat_tick clk (rt_node r), rt_gossip_beat := rt_gossip_beat r - 1,
       rt_gossip_test := rt_gossip_test r + 1\<rparr>"

definition gossip_register ::
    "(PeerNode list \<Rightarrow> PeerNode list) \<Rightarrow> clocks \<Rightarrow> u64 \<times> u64 \<Rightarrow> PeerNode \<Rightarrow> GossipRuntime \<Rightarrow> GossipRuntime" where
  "gossip_register shuffle clk junk p r =
     (let n = rt_node r;
          n1 = n\<lparr>local_node_id := pn_node_id p, local_node_address := pn_address p, local_node_port := pn_port p,
                 nd_peers := al_put (pn_node_id p) (p\<lparr>pn_last_seen := wall_sec clk\<rparr>) (nd_peers n)\<rparr>;
          r1 = r\<lparr>rt_node := n1, rt_start_tasks := (if has_scheduler n then rt_start_tasks r + 1 else rt_start_tasks r)\<rparr>;
          r2 = start_gossip r1
      in r2\<lparr>rt_node := broadcast_node_join shuffle clk junk (rt_node r2)\<rparr>)"

definition gossip_unregister :: "(PeerNode list \<Rightarrow> PeerNode list) \<Rightarrow> clocks \<Rightarrow> GossipRuntime \<Rightarrow> GossipRuntime" where
  "gossip_unregister shuffle clk r = r\<lparr>rt_node := unregister_node shuffle clk (rt_node r)\<rparr>"

definition gossip_start :: "GossipRuntime \<Rightarrow> GossipRuntime" where
  "gossip_start r = r\<lparr>rt_node := nd_start (rt_node r)\<rparr>"

definition gossip_stop_begin :: "GossipRuntime \<Rightarrow> GossipRuntime" where
  "gossip_stop_begin r = stop_tcp_server_begin (r\<lparr>rt_node := nd_stop (rt_node r)\<rparr>)"


definition set_on_node_discovered :: "bool \<Rightarrow> NodeDiscovery \<Rightarrow> NodeDiscovery" where
  "set_on_node_discovered given s = s\<lparr>on_node_discovered := given\<rparr>"

definition set_on_node_lost :: "bool \<Rightarrow> NodeDiscovery \<Rightarrow> NodeDiscovery" where
  "set_on_node_lost given s = s\<lparr>on_node_lost := given\<rparr>"

section \<open>Steps\<close>

text \<open>The operations on the tables, which any thread may call.\<close>

inductive table_step :: "NodeDiscovery \<Rightarrow> NodeDiscovery \<Rightarrow> bool" where
  tb_announce: "table_step s (announce_chunk sh clk c s)"
| tb_unannounce: "table_step s (remove_chunk_announcement sh clk c s)"
| tb_add: "table_step s (add_peer p s)"
| tb_remove: "table_step s (remove_peer i s)"
| tb_list: "table_step s (snd (get_all_peers clk s))"
| tb_latency: "table_step s (update_peer_latency i x s)"
| tb_throughput: "table_step s (update_peer_throughput i x s)"
| tb_switch: "table_step s (switch_to_gossip_only clk s)"
| tb_discovered: "table_step s (set_on_node_discovered b s)"
| tb_lost: "table_step s (set_on_node_lost b s)"

definition alive :: "server_thread \<Rightarrow> bool" where
  "alive t \<longleftrightarrow> t \<noteq> No_thread \<and> t \<noteq> Exited"

inductive rt_step :: "GossipRuntime \<Rightarrow> GossipRuntime option \<Rightarrow> bool" where
  rt_start: "rt_owner r = Free \<Longrightarrow> rt_step r (Some (gossip_start r))"
| rt_stop: "rt_owner r = Free \<Longrightarrow> rt_step r (Some (gossip_stop_begin r))"
| rt_stop_server: "rt_owner r = Free \<Longrightarrow> rt_step r (Some (stop_tcp_server_begin r))"
| rt_start_server: "rt_owner r = Free \<Longrightarrow> rt_step r (gossip_start_tcp_server r)"
| rt_joined: "rt_owner r = Joining \<Longrightarrow> \<not> alive (rt_thread r) \<Longrightarrow> rt_step r (Some (stop_tcp_server_end r))"
| rt_register: "rt_owner r = Free \<Longrightarrow> rt_step r (Some (gossip_register sh clk junk p r))"
| rt_unregister: "rt_owner r = Free \<Longrightarrow> rt_step r (Some (gossip_unregister sh clk r))"
| rt_start_gossip: "rt_owner r = Free \<Longrightarrow> rt_step r (Some (start_gossip r))"
| rt_stop_gossip: "rt_owner r = Free \<Longrightarrow> rt_step r (Some (stop_gossip r))"
| rt_tables: "table_step (rt_node r) n \<Longrightarrow> rt_step r (Some (r\<lparr>rt_node := n\<rparr>))"
| rt_server: "alive (rt_thread r) \<Longrightarrow> rt_step r (Some (server_thread_step bnd r))"
| rt_start_task: "rt_scheduler_up r \<Longrightarrow> 0 < rt_start_tasks r \<Longrightarrow>
    rt_step r (gossip_start_tcp_server (r\<lparr>rt_start_tasks := rt_start_tasks r - 1\<rparr>))"
| rt_accept: "rt_scheduler_up r \<Longrightarrow> 0 < rt_accept_test r \<Longrightarrow> rt_step r (Some (accept_loop_test r))"
| rt_accepted: "rt_scheduler_up r \<Longrightarrow> 0 < rt_accept_wait r \<Longrightarrow> rt_step r (Some (accept_returns ok r))"
| rt_message: "rt_scheduler_up r \<Longrightarrow> 0 < rt_handlers r \<Longrightarrow>
    rt_step r (Some (r\<lparr>rt_handlers := rt_handlers r - 1, rt_node := handle_gossip_message e clk msg (rt_node r)\<rparr>))"
| rt_no_message: "rt_scheduler_up r \<Longrightarrow> 0 < rt_handlers r \<Longrightarrow> rt_step r (Some (r\<lparr>rt_handlers := rt_handlers r - 1\<rparr>))"
| rt_loop: "rt_scheduler_up r \<Longrightarrow> 0 < rt_gossip_test r \<Longrightarrow> rt_step r (Some (gossip_loop_test r))"
| rt_wake: "rt_scheduler_up r \<Longrightarrow> 0 < rt_gossip_sleep r \<Longrightarrow> rt_step r (Some (gossip_loop_wake sh okp clk r))"
| rt_beat: "rt_scheduler_up r \<Longrightarrow> 0 < rt_gossip_beat r \<Longrightarrow> rt_step r (Some (gossip_loop_beat clk r))"


inductive rt_reachable :: "GossipRuntime \<Rightarrow> bool" where
  rt_init: "rt_reachable (new_gossip_runtime clk k gp cp given)"
| rt_more: "rt_reachable r \<Longrightarrow> rt_step r (Some r') \<Longrightarrow> rt_reachable r'"

text \<open>Seen from the tables, a registration is the one of \<open>Node_Discovery\<close>.\<close>

lemma register_refines: "rt_node (gossip_register sh clk junk p r) = register_node sh clk junk p (rt_node r)"
  by (auto simp: gossip_register_def register_node_def start_gossip_def start_gossip_protocol_def Let_def)

section \<open>The server thread and its owner agree\<close>

definition rt_inv :: "GossipRuntime \<Rightarrow> bool" where
  "rt_inv r \<longleftrightarrow>
     (rt_tcp_running r \<longrightarrow> alive (rt_thread r) \<and> rt_owner r = Free) \<and>
     (alive (rt_thread r) \<longrightarrow> rt_tcp_running r \<or> rt_owner r = Joining) \<and>
     (rt_owner r = Joining \<longrightarrow> rt_thread r \<noteq> No_thread) \<and>
     (rt_server_stopped r \<longleftrightarrow> \<not> alive (rt_thread r)) \<and>
     (rt_listener r = Some True \<longrightarrow> rt_thread r = Serving) \<and>
     (rt_thread r = Serving \<longrightarrow> rt_listener r \<noteq> None)"

lemma alive_simps [simp]:
  "\<not> alive No_thread" "\<not> alive Exited" "alive (Starting p b)" "alive (Binding p)" "alive Serving"
  by (simp_all add: alive_def)

text \<open>The server fields of a state; the coroutines and the operations on the tables keep them.\<close>

definition server_part :: "GossipRuntime \<Rightarrow> bool \<times> server_thread \<times> owner \<times> bool \<times> bool option" where
  "server_part r = (rt_tcp_running r, rt_thread r, rt_owner r, rt_server_stopped r, rt_listener r)"

lemma rt_inv_server_part: "server_part r = server_part q \<Longrightarrow> rt_inv r = rt_inv q"
  by (simp add: server_part_def rt_inv_def)

lemma server_part_kept [simp]:
  "server_part (gossip_start r) = server_part r" "server_part (start_gossip r) = server_part r"
  "server_part (stop_gossip r) = server_part r" "server_part (gossip_unregister sh clk r) = server_part r"
  "server_part (gossip_register sh clk junk p r) = server_part r"
  "server_part (accept_loop_test r) = server_part r" "server_part (accept_returns ok r) = server_part r"
  "server_part (gossip_loop_test r) = server_part r" "server_part (gossip_loop_wake sh okp clk r) = server_part r"
  "server_part (gossip_loop_beat clk r) = server_part r"
  "server_part (r\<lparr>rt_node := n\<rparr>) = server_part r" "server_part (r\<lparr>rt_handlers := k\<rparr>) = server_part r"
  "server_part (r\<lparr>rt_handlers := k, rt_node := n\<rparr>) = server_part r"
  "server_part (r\<lparr>rt_start_tasks := k\<rparr>) = server_part r" "server_part (create_scheduler b r) = server_part r"
  by (simp_all add: server_part_def gossip_start_def start_gossip_def stop_gossip_def gossip_unregister_def gossip_register_def
      accept_loop_test_def accept_returns_def gossip_loop_test_def gossip_loop_wake_def gossip_loop_beat_def Let_def
      create_scheduler_def)

lemmas rt_inv_kept [simp] = server_part_kept [THEN rt_inv_server_part]

lemma start_server_cases:
  assumes "gossip_start_tcp_server r = Some r'"
  obtains "rt_tcp_running r" and "r' = r"
  | p where "\<not> rt_tcp_running r" and "rt_thread r = No_thread"
      and "server_part r' = (True, Starting p (has_scheduler (rt_node r)), rt_owner r, False, rt_listener r)"
  using assms by (auto simp: gossip_start_tcp_server_def start_tcp_server_internal_def server_part_def split: if_splits)

lemma rt_inv_start_server: "gossip_start_tcp_server r = Some r' \<Longrightarrow> rt_inv r \<Longrightarrow> rt_inv r'"
  by (erule start_server_cases; cases "rt_owner r") (auto simp: rt_inv_def server_part_def)

lemma rt_inv_thread: "rt_inv r \<Longrightarrow> alive (rt_thread r) \<Longrightarrow> rt_inv (server_thread_step bnd r)"
  by (cases "rt_thread r")
    (auto simp: rt_inv_def server_thread_step_def create_scheduler_def bind_listener_def keep_alive_def close_listener_def
      split: option.splits)

lemma rt_inv_stop: "rt_inv r \<Longrightarrow> rt_inv (stop_tcp_server_begin r)"
  by (auto simp: rt_inv_def stop_tcp_server_begin_def close_listener_def)

lemma rt_inv_end: "rt_inv r \<Longrightarrow> \<not> alive (rt_thread r) \<Longrightarrow> rt_inv (stop_tcp_server_end r)"
  by (auto simp: rt_inv_def stop_tcp_server_end_def Let_def)

lemma rt_step_inv:
  assumes "rt_step r (Some r')" and "rt_inv r"
  shows "rt_inv r'"
  using assms(1)
proof (cases rule: rt_step.cases)
  case rt_start_server
  then show ?thesis using assms(2) by (metis rt_inv_start_server)
next
  case rt_start_task
  then show ?thesis using assms(2) by (metis rt_inv_start_server rt_inv_kept(14))
qed (use assms(2) in \<open>simp_all add: gossip_stop_begin_def rt_inv_thread rt_inv_end rt_inv_stop\<close>)

lemma rt_inv_init: "rt_inv (new_gossip_runtime clk k gp cp given)"
  by (simp add: rt_inv_def new_gossip_runtime_def)

lemma rt_reachable_inv: "rt_reachable r \<Longrightarrow> rt_inv r"
  by (induction rule: rt_reachable.induct) (auto intro: rt_step_inv rt_inv_init)

lemma start_server_node: "gossip_start_tcp_server r = Some r' \<Longrightarrow> rt_node r' = rt_node r"
  by (auto simp: gossip_start_tcp_server_def start_tcp_server_internal_def split: if_splits)

section \<open>What failing leaves behind\<close>





section \<open>Restarts\<close>

text \<open>A loop that wakes up in a stopped node is over.\<close>

definition gossip_loops :: "GossipRuntime \<Rightarrow> nat" where
  "gossip_loops r = rt_gossip_test r + rt_gossip_sleep r + rt_gossip_beat r"

lemma stopped_loops_end:
  "\<not> gossiping r \<Longrightarrow> 0 < rt_gossip_sleep r \<Longrightarrow> gossip_loops (gossip_loop_wake sh ok clk r) < gossip_loops r"
  "\<not> gossiping r \<Longrightarrow> 0 < rt_gossip_test r \<Longrightarrow> gossip_loops (gossip_loop_test r) < gossip_loops r"
  by (simp_all add: gossip_loops_def gossip_loop_wake_def gossip_loop_test_def Let_def)

text \<open>A node that has been stopped and can be started again with \<open>k\<close> loops asleep.\<close>

definition restartable :: "nat \<Rightarrow> GossipRuntime \<Rightarrow> bool" where
  "restartable k r \<longleftrightarrow> rt_reachable r \<and> rt_owner r = Free \<and> rt_scheduler_up r \<and> has_scheduler (rt_node r) \<and>
     nd_running (rt_node r) \<and> \<not> gossip_running (rt_node r) \<and> rt_gossip_test r = 0 \<and> rt_gossip_sleep r = k"

lemma restartable_init: "restartable 0 (gossip_start (new_gossip_runtime clk m gp cp True))"
  using rt_more [OF rt_init rt_start, of clk m gp cp True]
  by (simp add: restartable_def gossip_start_def new_gossip_runtime_def new_node_discovery_def nd_start_def)

lemma restart_once:
  assumes "restartable k r"
  defines "r1 \<equiv> gossip_loop_test (start_gossip r)"
  shows "rt_reachable r1 \<and> gossiping r1 \<and> rt_gossip_sleep r1 = Suc k" and "restartable (Suc k) (stop_gossip r1)"
proof -
  let ?s = "start_gossip r"
  have a: "rt_scheduler_up ?s" "rt_gossip_test ?s = 1" "gossiping ?s" "rt_gossip_sleep ?s = k" "rt_owner ?s = Free"
      "has_scheduler (rt_node ?s)"
    using assms(1) by (simp_all add: restartable_def start_gossip_def gossiping_def start_gossip_protocol_def)
  have "rt_reachable ?s" using assms(1) by (auto simp: restartable_def intro: rt_more rt_start_gossip)
  then have r: "rt_reachable r1" unfolding r1_def using a by (intro rt_more [OF _ rt_loop]) simp_all
  moreover have b: "rt_node r1 = rt_node ?s" "rt_gossip_sleep r1 = Suc k" "rt_gossip_test r1 = 0" "rt_owner r1 = Free" "rt_scheduler_up r1"
    using a by (simp_all add: r1_def gossip_loop_test_def)
  ultimately show "rt_reachable r1 \<and> gossiping r1 \<and> rt_gossip_sleep r1 = Suc k" using a(3) by (simp add: gossiping_def)
  have "rt_reachable (stop_gossip r1)" using r b(4) by (auto intro: rt_more rt_stop_gossip)
  then show "restartable (Suc k) (stop_gossip r1)"
    using a b by (simp add: restartable_def stop_gossip_def stop_gossip_protocol_def gossiping_def)
qed

lemma restartable_any: "\<exists>r. restartable k r"
  by (induction k) (auto intro: restartable_init restart_once(2))

text \<open>Gossip loops pile up: a loop looks at the flag only when its sleep is over, so gossip that is stopped and started again before
  leaves the old loop running beside the new one, and for every number there is a run after which that many loops tick in one node.\<close>

theorem gossip_loops_pile_up:
  "\<exists>r. rt_reachable r \<and> gossiping r \<and> rt_gossip_sleep r = Suc k"
  using restartable_any [of k] restart_once(1) by blast

text \<open>A start can overtake a stop: registering a node leaves the start of the server to the scheduler, and a \<open>stop\<close> that returns before
  this task has run does not see it; the server then starts in a node that is stopped.\<close>

theorem server_starts_after_stop:
  assumes "rt_reachable r" and "rt_owner r = Free" and "rt_scheduler_up r" and "rt_thread r = No_thread" and "has_scheduler (rt_node r)"
  shows "\<exists>r1 r2 r3. r1 = gossip_register sh clk junk p r \<and> r2 = gossip_stop_begin r1 \<and>
    rt_step r (Some r1) \<and> rt_step r1 (Some r2) \<and> rt_owner r2 = Free \<and> \<not> rt_tcp_running r2 \<and> \<not> nd_running (rt_node r2) \<and>
    rt_step r2 (Some r3) \<and> rt_tcp_running r3 \<and> \<not> nd_running (rt_node r3)"
proof -
  define r1 where "r1 = gossip_register sh clk junk p r"
  define r2 where "r2 = gossip_stop_begin r1"
  have n: "\<not> rt_tcp_running r" using rt_reachable_inv [OF assms(1)] assms(4) by (auto simp: rt_inv_def)
  have sp: "server_part r1 = server_part r" by (simp add: r1_def)
  have k: "0 < rt_start_tasks r1" "rt_scheduler_up r1"
    using assms(3,5) by (simp_all add: r1_def gossip_register_def start_gossip_def Let_def)
  have e: "r2 = r1\<lparr>rt_node := nd_stop (rt_node r1)\<rparr>" using n sp
    by (simp add: r2_def gossip_stop_begin_def stop_tcp_server_begin_def server_part_def)
  have "rt_step r (Some r1)" unfolding r1_def by (rule rt_register [OF assms(2)])
  moreover have "rt_step r1 (Some r2)" unfolding r2_def using sp assms(2) by (intro rt_stop) (simp add: server_part_def)
  moreover have "rt_owner r2 = Free" "\<not> rt_tcp_running r2" "\<not> nd_running (rt_node r2)" "rt_thread r2 = No_thread"
    using e sp n assms(2,4) by (simp_all add: server_part_def nd_stop_def stop_gossip_protocol_def)
  moreover from this obtain r3 where s: "gossip_start_tcp_server (r2\<lparr>rt_start_tasks := rt_start_tasks r2 - 1\<rparr>) = Some r3"
    by (simp add: gossip_start_tcp_server_def start_tcp_server_internal_def)
  moreover from s have "rt_step r2 (Some r3)" using rt_start_task [of r2] k e by simp
  moreover have "rt_tcp_running r3" "rt_node r3 = rt_node r2"
    using s start_server_node [OF s] by (auto simp: gossip_start_tcp_server_def start_tcp_server_internal_def split: if_splits)
  ultimately show ?thesis unfolding r2_def r1_def by metis
qed

section \<open>Examples\<close>

definition ex_runtime :: GossipRuntime where
  "ex_runtime = new_gossip_runtime ex_clk 10 0 9000 True"

definition ex_binding :: GossipRuntime where
  "ex_binding = ex_runtime\<lparr>rt_tcp_running := True, rt_server_stopped := False, rt_thread := Binding 9000\<rparr>"

lemma ex_runtime_simps [simp]:
  "rt_owner ex_runtime = Free" "rt_thread ex_runtime = No_thread" "rt_scheduler_up ex_runtime" "has_scheduler (rt_node ex_runtime)"
  by (simp_all add: ex_runtime_def new_gossip_runtime_def)

lemma ex_binding_simps [simp]: "rt_owner ex_binding = Free" "rt_thread ex_binding = Binding 9000" "rt_tcp_running ex_binding"
  by (simp_all add: ex_binding_def)

lemma ex_reachable: "rt_reachable ex_runtime" "rt_reachable ex_binding"
proof -
  let ?s = "ex_runtime\<lparr>rt_tcp_running := True, rt_server_stopped := False, rt_thread := Starting 9000 True\<rparr>"
  show a: "rt_reachable ex_runtime" unfolding ex_runtime_def by (rule rt_init)
  have "gossip_start_tcp_server ex_runtime = Some ?s"
    by (simp add: ex_runtime_def new_gossip_runtime_def gossip_start_tcp_server_def start_tcp_server_internal_def)
  then have "rt_step ex_runtime (Some ?s)" using rt_start_server [of ex_runtime] by simp
  from rt_more [OF a this] have "rt_reachable ?s" .
  moreover have "server_thread_step (\<lambda>_. None) ?s = ex_binding"
    by (simp add: server_thread_step_def create_scheduler_def ex_binding_def)
  ultimately show "rt_reachable ex_binding" using rt_more [OF _ rt_server [of ?s "\<lambda>_. None"]] by simp
qed


theorem server_starts_after_stop_witness:
  "\<exists>r3. rt_tcp_running r3 \<and> \<not> nd_running (rt_node r3) \<and>
     rt_step (gossip_stop_begin (gossip_register (\<lambda>ps. ps) ex_clk (0, 0) ex_peer ex_runtime)) (Some r3)"
  using server_starts_after_stop [OF ex_reachable(1), of "\<lambda>ps. ps" ex_clk "(0, 0)" ex_peer] by auto

end
