(* ===== verification/Gossip_Lifecycle.thy ===== *)
theory Gossip_Lifecycle
  imports Gossip_Server
begin

text \<open>
  Starting and stopping the gossip TCP server (\<open>p2p/node_discovery.cpp\<close>) at the grain of single reads and writes. No lock
  orders them: every start under way, every server thread and the owner inside of \<open>stop\<close> stand at a point of their code,
  and each step takes one of them to its next point. The starts that \<open>register_node\<close> hands to the scheduler run while
  the owner goes on, and so do, in this model, the starts that the owner calls itself, which only adds interleavings. The node uses a
  scheduler that was set before, as the application does, so the branches for a scheduler of its own are not taken
  here. \<open>None\<close> is a call of \<open>std::terminate\<close>.
\<close>

section \<open>State\<close>

text \<open>
  A start: before the test of the flag, before it is set, before \<open>server_stopped\<close> is cleared, before the thread is
  created, and with a created thread that is not yet assigned to \<open>tcp_server_thread\<close>.
\<close>

datatype start_point = S_test | S_mark | S_clear | S_create | S_assign nat | S_done

text \<open>
  A server thread: before it binds; after a failure before each of its two writes; with a bound socket before it becomes
  \<open>tcp_listener\<close>, before the ports are noted and before the accept loop is spawned; in the loop that keeps it alive;
  before the listener is closed; before \<open>server_stopped\<close> is set; and at its end.
\<close>

datatype thread_point = T_bind | T_unmark | T_failed | T_publish u16 | T_port u16 | T_local | T_accept | T_serve | T_close | T_stop | T_end

text \<open>The owner of the object: outside, or inside of \<open>stop_tcp_server_internal\<close>.\<close>

datatype owner_point = O_free | O_unmark | O_wake | O_close | O_test | O_join nat

record Lifecycle =
  lc_running :: bool
  lc_stopped :: bool
  lc_listener :: "bool option"
  lc_listen_port :: u16
  lc_local_port :: u16
  lc_accept_loops :: nat
  lc_threads :: "thread_point list"
  lc_handle :: "nat option"
  lc_tasks :: nat
  lc_starts :: "start_point list"
  lc_owner :: owner_point

definition new_lifecycle :: Lifecycle where
  "new_lifecycle =
     \<lparr>lc_running = False, lc_stopped = True, lc_listener = None, lc_listen_port = 0, lc_local_port = 0, lc_accept_loops = 0,
      lc_threads = [], lc_handle = None, lc_tasks = 0, lc_starts = [], lc_owner = O_free\<rparr>"

section \<open>Steps\<close>

definition start_at :: "nat \<Rightarrow> start_point \<Rightarrow> Lifecycle \<Rightarrow> Lifecycle" where
  "start_at k p L = L\<lparr>lc_starts := (lc_starts L)[k := p]\<rparr>"

definition thread_at :: "nat \<Rightarrow> thread_point \<Rightarrow> Lifecycle \<Rightarrow> Lifecycle" where
  "thread_at i t L = L\<lparr>lc_threads := (lc_threads L)[i := t]\<rparr>"

definition lc_close :: "Lifecycle \<Rightarrow> Lifecycle" where
  "lc_close L = L\<lparr>lc_listener := map_option (\<lambda>_. False) (lc_listener L)\<rparr>"

text \<open>\<open>start_tcp_server_internal\<close>: assigning a thread to one that is joinable terminates the program.\<close>

definition start_step :: "nat \<Rightarrow> Lifecycle \<Rightarrow> Lifecycle option" where
  "start_step k L =
     (case lc_starts L ! k of
        S_test \<Rightarrow> Some (start_at k (if lc_running L then S_done else S_mark) L)
      | S_mark \<Rightarrow> Some (start_at k S_clear (L\<lparr>lc_running := True\<rparr>))
      | S_clear \<Rightarrow> Some (start_at k S_create (L\<lparr>lc_stopped := False\<rparr>))
      | S_create \<Rightarrow> Some (start_at k (S_assign (length (lc_threads L))) (L\<lparr>lc_threads := lc_threads L @ [T_bind]\<rparr>))
      | S_assign i \<Rightarrow> (if lc_handle L = None then Some (start_at k S_done (L\<lparr>lc_handle := Some i\<rparr>)) else None)
      | S_done \<Rightarrow> Some L)"

text \<open>The thread function; \<open>bound\<close> is the port that binding gives, or \<open>None\<close>.\<close>

definition thread_step :: "u16 option \<Rightarrow> nat \<Rightarrow> Lifecycle \<Rightarrow> Lifecycle" where
  "thread_step bound i L =
     (case lc_threads L ! i of
        T_bind \<Rightarrow> thread_at i (case bound of None \<Rightarrow> T_unmark | Some p \<Rightarrow> T_publish p) L
      | T_unmark \<Rightarrow> thread_at i T_failed (L\<lparr>lc_running := False\<rparr>)
      | T_failed \<Rightarrow> thread_at i T_end (L\<lparr>lc_stopped := True\<rparr>)
      | T_publish p \<Rightarrow> thread_at i (T_port p) (L\<lparr>lc_listener := Some True\<rparr>)
      | T_port p \<Rightarrow> thread_at i T_local (L\<lparr>lc_listen_port := p\<rparr>)
      | T_local \<Rightarrow> thread_at i T_accept (if lc_local_port L = 0 then L\<lparr>lc_local_port := lc_listen_port L\<rparr> else L)
      | T_accept \<Rightarrow> thread_at i T_serve (L\<lparr>lc_accept_loops := lc_accept_loops L + 1\<rparr>)
      | T_serve \<Rightarrow> (if lc_running L then L else thread_at i T_close L)
      | T_close \<Rightarrow> thread_at i T_stop (lc_close L)
      | T_stop \<Rightarrow> thread_at i T_end (L\<lparr>lc_stopped := True\<rparr>)
      | T_end \<Rightarrow> L)"

text \<open>\<open>stop_tcp_server_internal\<close>; the connection that wakes the accept loop up changes none of these fields.\<close>

definition owner_step :: "Lifecycle \<Rightarrow> Lifecycle" where
  "owner_step L =
     (case lc_owner L of
        O_free \<Rightarrow> (if lc_running L then L\<lparr>lc_owner := O_unmark\<rparr> else L)
      | O_unmark \<Rightarrow> L\<lparr>lc_running := False, lc_owner := O_wake\<rparr>
      | O_wake \<Rightarrow> L\<lparr>lc_owner := O_close\<rparr>
      | O_close \<Rightarrow> (lc_close L)\<lparr>lc_owner := O_test\<rparr>
      | O_test \<Rightarrow> L\<lparr>lc_owner := (case lc_handle L of None \<Rightarrow> O_free | Some i \<Rightarrow> O_join i)\<rparr>
      | O_join i \<Rightarrow> L\<lparr>lc_handle := None, lc_owner := O_free\<rparr>)"

definition owner_blocked :: "Lifecycle \<Rightarrow> bool" where
  "owner_blocked L \<longleftrightarrow> (case lc_owner L of O_join i \<Rightarrow> lc_threads L ! i \<noteq> T_end | _ \<Rightarrow> False)"

inductive lc_step :: "Lifecycle \<Rightarrow> Lifecycle option \<Rightarrow> bool" where
  lc_register: "lc_owner L = O_free \<Longrightarrow> lc_step L (Some (L\<lparr>lc_tasks := lc_tasks L + 1\<rparr>))"
| lc_begin: "0 < lc_tasks L \<Longrightarrow> lc_step L (Some (L\<lparr>lc_tasks := lc_tasks L - 1, lc_starts := lc_starts L @ [S_test]\<rparr>))"
| lc_start: "k < length (lc_starts L) \<Longrightarrow> lc_starts L ! k \<noteq> S_done \<Longrightarrow> lc_step L (start_step k L)"
| lc_thread: "i < length (lc_threads L) \<Longrightarrow> lc_threads L ! i \<noteq> T_end \<Longrightarrow> lc_step L (Some (thread_step bound i L))"
| lc_stop: "\<not> owner_blocked L \<Longrightarrow> lc_step L (Some (owner_step L))"


text \<open>The destructor of the object destroys \<open>tcp_server_thread\<close>.\<close>

definition lc_destroy :: "Lifecycle \<Rightarrow> unit option" where
  "lc_destroy L = (if lc_handle L = None then Some () else None)"

section \<open>The invariant\<close>

text \<open>A start that has set the flag and is not over; a thread that may still come to serve or clear the flag; a thread with the listener.\<close>

definition marked :: "start_point \<Rightarrow> bool" where
  "marked p \<longleftrightarrow> p \<noteq> S_test \<and> p \<noteq> S_mark \<and> p \<noteq> S_done"

definition unassigned :: "start_point \<Rightarrow> bool" where
  "unassigned p \<longleftrightarrow> p = S_clear \<or> p = S_create"

definition serviceable :: "thread_point \<Rightarrow> bool" where
  "serviceable t \<longleftrightarrow> t \<notin> {T_failed, T_close, T_stop, T_end}"

definition has_listener :: "thread_point \<Rightarrow> bool" where
  "has_listener t \<longleftrightarrow> (case t of T_port _ \<Rightarrow> True | T_local \<Rightarrow> True | T_accept \<Rightarrow> True | T_serve \<Rightarrow> True | T_close \<Rightarrow> True | _ \<Rightarrow> False)"

text \<open>How many starts have set the flag whose thread has not been joined.\<close>

definition pending_joins :: "Lifecycle \<Rightarrow> nat" where
  "pending_joins L = (if lc_handle L = None then 0 else 1) + length (filter marked (lc_starts L))"

definition flag_ok :: "Lifecycle \<Rightarrow> bool" where
  "flag_ok L \<longleftrightarrow> (lc_running L \<longrightarrow> (\<exists>p\<in>set (lc_starts L). unassigned p) \<or> (\<exists>t\<in>set (lc_threads L). serviceable t))"

definition listener_ok :: "Lifecycle \<Rightarrow> bool" where
  "listener_ok L \<longleftrightarrow> (lc_listener L = Some True \<longrightarrow> (\<exists>t\<in>set (lc_threads L). has_listener t))"

definition handles_ok :: "Lifecycle \<Rightarrow> bool" where
  "handles_ok L \<longleftrightarrow>
     (\<forall>i<length (lc_threads L). lc_threads L ! i \<noteq> T_end \<longrightarrow> lc_handle L = Some i \<or> S_assign i \<in> set (lc_starts L)) \<and>
     (\<forall>i. lc_handle L = Some i \<or> S_assign i \<in> set (lc_starts L) \<longrightarrow> i < length (lc_threads L)) \<and>
     (\<forall>i. lc_owner L = O_join i \<longrightarrow> lc_handle L = Some i)"

text \<open>While the owner is inside of \<open>stop\<close> a thread is waiting to be joined, and a flag that is set again belongs to another start.\<close>

definition stop_ok :: "Lifecycle \<Rightarrow> bool" where
  "stop_ok L \<longleftrightarrow>
     (lc_running L \<longrightarrow> 1 \<le> pending_joins L) \<and>
     (lc_owner L \<noteq> O_free \<longrightarrow> 1 \<le> pending_joins L) \<and>
     (lc_owner L \<noteq> O_free \<and> lc_owner L \<noteq> O_unmark \<and> lc_running L \<longrightarrow> 2 \<le> pending_joins L)"

definition lc_inv :: "Lifecycle \<Rightarrow> bool" where
  "lc_inv L \<longleftrightarrow> flag_ok L \<and> listener_ok L \<and> handles_ok L \<and> stop_ok L"

inductive lc_reachable :: "Lifecycle \<Rightarrow> bool" where
  lc_new: "lc_reachable new_lifecycle"
| lc_more: "lc_reachable L \<Longrightarrow> lc_step L (Some L') \<Longrightarrow> lc_reachable L'"

lemma filter_update_length:
  "k < length xs \<Longrightarrow>
     length (filter P (xs[k := y])) + (if P (xs ! k) then 1 else 0) = length (filter P xs) + (if P y then 1 else 0)"
proof (induction xs arbitrary: k)
  case (Cons x xs)
  show ?case
  proof (cases k)
    case (Suc j)
    with Cons.prems Cons.IH [of j] show ?thesis by (simp split: if_splits)
  qed simp
qed simp

lemma mem_update [simp]: "k < length xs \<Longrightarrow> xs ! k \<noteq> a \<Longrightarrow> y \<noteq> a \<Longrightarrow> (a \<in> set (xs[k := y])) = (a \<in> set xs)"
  by (metis in_set_conv_nth length_list_update nth_list_update)

lemma ex_update [simp]:
  "k < length xs \<Longrightarrow> P y \<Longrightarrow> \<exists>x\<in>set (xs[k := y]). P x"
  "k < length xs \<Longrightarrow> \<not> P (xs ! k) \<Longrightarrow> \<not> P y \<Longrightarrow> (\<exists>x\<in>set (xs[k := y]). P x) = (\<exists>x\<in>set xs. P x)"
  by (meson set_update_memI) (metis in_set_conv_nth length_list_update nth_list_update)

lemma point_simps [simp]:
  "\<not> marked S_test" "\<not> marked S_mark" "\<not> marked S_done" "marked S_clear" "marked S_create" "marked (S_assign i)"
  "\<not> unassigned S_test" "\<not> unassigned S_mark" "\<not> unassigned S_done" "unassigned S_clear" "unassigned S_create" "\<not> unassigned (S_assign i)"
  "serviceable T_bind" "serviceable T_unmark" "\<not> serviceable T_failed" "serviceable (T_publish p)" "serviceable (T_port p)"
  "serviceable T_local" "serviceable T_accept" "serviceable T_serve" "\<not> serviceable T_close" "\<not> serviceable T_stop" "\<not> serviceable T_end"
  "\<not> has_listener T_bind" "\<not> has_listener T_unmark" "\<not> has_listener T_failed" "\<not> has_listener (T_publish p)" "has_listener (T_port p)"
  "has_listener T_local" "has_listener T_accept" "has_listener T_serve" "has_listener T_close" "\<not> has_listener T_stop" "\<not> has_listener T_end"
  by (simp_all add: marked_def unassigned_def serviceable_def has_listener_def)

lemmas lc_ok_defs = flag_ok_def listener_ok_def handles_ok_def stop_ok_def

text \<open>The steps of a start.\<close>

lemma start_pending:
  assumes "start_step k L = Some L'" and "k < length (lc_starts L)"
  shows "pending_joins L' = (if lc_starts L ! k = S_mark then pending_joins L + 1 else pending_joins L)"
  using assms(1) filter_update_length [OF assms(2), of marked S_mark] filter_update_length [OF assms(2), of marked S_clear]
    filter_update_length [OF assms(2), of marked S_create] filter_update_length [OF assms(2), of marked S_done]
    filter_update_length [OF assms(2), of marked "S_assign (length (lc_threads L))"]
  by (auto simp: start_step_def start_at_def pending_joins_def split: start_point.splits if_splits)

lemma start_keeps:
  "start_step k L = Some L' \<Longrightarrow> lc_owner L' = lc_owner L \<and> (lc_running L' \<longleftrightarrow> lc_running L \<or> lc_starts L ! k = S_mark)"
  by (auto simp: start_step_def start_at_def split: start_point.splits if_splits)

lemma start_flag_ok: "start_step k L = Some L' \<Longrightarrow> k < length (lc_starts L) \<Longrightarrow> flag_ok L \<Longrightarrow> flag_ok L'"
  by (cases "lc_starts L ! k") (simp_all add: start_step_def start_at_def flag_ok_def split: if_splits, fastforce+)

lemma start_listener_ok: "start_step k L = Some L' \<Longrightarrow> listener_ok L \<Longrightarrow> listener_ok L'"
  by (auto simp: start_step_def start_at_def listener_ok_def split: start_point.splits if_splits)

lemma start_handles_ok: "start_step k L = Some L' \<Longrightarrow> k < length (lc_starts L) \<Longrightarrow> handles_ok L \<Longrightarrow> handles_ok L'"
proof (cases "lc_starts L ! k")
  case S_create
  assume s: "start_step k L = Some L'" "k < length (lc_starts L)" "handles_ok L"
  let ?n = "length (lc_threads L)"
  have "S_assign i \<in> set ((lc_starts L)[k := S_assign ?n]) \<longleftrightarrow> i = ?n \<or> S_assign i \<in> set (lc_starts L)" for i
    using S_create s(2) by (cases "i = ?n") (auto simp: set_update_memI)
  with S_create s show ?thesis by (auto simp: start_step_def start_at_def handles_ok_def nth_append less_Suc_eq)
next
  case (S_assign j)
  assume s: "start_step k L = Some L'" "k < length (lc_starts L)" "handles_ok L"
  have "S_assign i \<in> set (lc_starts L) \<longleftrightarrow> i = j \<or> S_assign i \<in> set ((lc_starts L)[k := S_done])" for i
    using S_assign s(2) nth_mem [OF s(2)] by (cases "i = j") auto
  with S_assign s show ?thesis by (auto simp: start_step_def start_at_def handles_ok_def split: if_splits)
qed (auto simp: start_step_def start_at_def handles_ok_def split: if_splits)

lemma start_stop_ok: "start_step k L = Some L' \<Longrightarrow> k < length (lc_starts L) \<Longrightarrow> stop_ok L \<Longrightarrow> stop_ok L'"
  using start_pending [of k L L'] start_keeps [of k L L'] by (auto simp: stop_ok_def)

text \<open>The steps of a thread.\<close>

lemma thread_keeps:
  "lc_handle (thread_step b i L) = lc_handle L" "lc_starts (thread_step b i L) = lc_starts L" "lc_owner (thread_step b i L) = lc_owner L"
  "lc_tasks (thread_step b i L) = lc_tasks L" "length (lc_threads (thread_step b i L)) = length (lc_threads L)"
  "lc_running (thread_step b i L) \<Longrightarrow> lc_running L"
  "j \<noteq> i \<Longrightarrow> lc_threads (thread_step b i L) ! j = lc_threads L ! j"
  by (auto simp: thread_step_def thread_at_def lc_close_def split: thread_point.splits option.splits if_splits)

lemma thread_flag_ok: "i < length (lc_threads L) \<Longrightarrow> flag_ok L \<Longrightarrow> flag_ok (thread_step b i L)"
  by (cases "lc_threads L ! i"; cases b) (simp_all add: thread_step_def thread_at_def lc_close_def flag_ok_def)

lemma thread_listener_ok: "i < length (lc_threads L) \<Longrightarrow> listener_ok L \<Longrightarrow> listener_ok (thread_step b i L)"
  by (cases "lc_threads L ! i"; cases b) (simp_all add: thread_step_def thread_at_def lc_close_def listener_ok_def)

lemma thread_handles_ok: 
  assumes "lc_threads L ! i \<noteq> T_end" and "handles_ok L" 
  shows "handles_ok (thread_step b i L)"
proof -
  have "lc_threads L ! j \<noteq> T_end" if "lc_threads (thread_step b i L) ! j \<noteq> T_end" for j
    using that thread_keeps(7) [of j i b L] assms(1) by (cases "j = i") simp_all
  with assms(2) show ?thesis unfolding handles_ok_def thread_keeps by blast
qed

lemma thread_stop_ok: "stop_ok L \<Longrightarrow> stop_ok (thread_step b i L)"
  using thread_keeps(6) [of b i L] by (auto simp: stop_ok_def pending_joins_def thread_keeps)

text \<open>The steps of the owner.\<close>

lemma owner_inv:
  assumes "lc_inv L" and "\<not> owner_blocked L"
  shows "lc_inv (owner_step L)"
proof (cases "lc_owner L")
  case (O_join i)
  then have "lc_threads L ! i = T_end" "lc_handle L = Some i"
    using assms by (auto simp: owner_blocked_def lc_inv_def handles_ok_def)
  with O_join assms(1) show ?thesis
    by (auto simp: lc_inv_def lc_ok_defs owner_step_def pending_joins_def)
qed (use assms(1) in \<open>auto simp: lc_inv_def lc_ok_defs owner_step_def pending_joins_def lc_close_def split: option.splits if_splits\<close>)

lemma lc_step_inv: "lc_step L (Some L') \<Longrightarrow> lc_inv L \<Longrightarrow> lc_inv L'"
proof (erule lc_step.cases, goal_cases)
  case (1 M)
  then show ?case by (simp add: lc_inv_def lc_ok_defs pending_joins_def)
next
  case (2 M)
  then show ?case by (simp add: lc_inv_def lc_ok_defs pending_joins_def)
next
  case (3 k M)
  then show ?case by (simp add: lc_inv_def start_flag_ok start_handles_ok start_listener_ok start_stop_ok)
next
  case (4 i M b)
  then show ?case by (simp add: lc_inv_def thread_flag_ok thread_handles_ok thread_listener_ok thread_stop_ok)
next
  case (5 M)
  then show ?case by (simp add: owner_inv)
qed

lemma lc_reachable_inv: "lc_reachable L \<Longrightarrow> lc_inv L"
proof (induction rule: lc_reachable.induct)
  case lc_new
  show ?case by (simp add: lc_inv_def lc_ok_defs pending_joins_def new_lifecycle_def)
qed (rule lc_step_inv)

text \<open>C13. In every interleaving of the single reads and writes of starts, server threads and the owner: the flag \<open>tcp_server_running\<close> is set only while a start is on its way to its thread or a
  thread is there that may still serve or clear the flag; a listener is open only while a thread stands between publishing a listener and closing it; no thread is lost, for one that has not
  ended is \<open>tcp_server_thread\<close> or held by a start that will assign it; and the owner joins only the thread in \<open>tcp_server_thread\<close>.\<close>

theorem lifecycle_invariant:
  assumes "lc_reachable L"
  shows "(lc_running L \<longrightarrow> (\<exists>p\<in>set (lc_starts L). unassigned p) \<or> (\<exists>t\<in>set (lc_threads L). serviceable t)) \<and>
    (lc_listener L = Some True \<longrightarrow> (\<exists>t\<in>set (lc_threads L). has_listener t)) \<and>
    (\<forall>i<length (lc_threads L). lc_threads L ! i \<noteq> T_end \<longrightarrow> lc_handle L = Some i \<or> S_assign i \<in> set (lc_starts L)) \<and>
    (\<forall>i. lc_owner L = O_join i \<longrightarrow> lc_handle L = Some i \<and> i < length (lc_threads L))"
  using lc_reachable_inv [OF assms] by (simp add: lc_inv_def lc_ok_defs)

section \<open>Stopping\<close>

text \<open>No start is under way or waiting on the scheduler.\<close>

definition quiet :: "Lifecycle \<Rightarrow> bool" where
  "quiet L \<longleftrightarrow> lc_tasks L = 0 \<and> (\<forall>p\<in>set (lc_starts L). p = S_done)"

text \<open>What \<open>stop\<close> leaves: the thread is joined, no thread runs, and no listener is open.\<close>

definition all_stopped :: "Lifecycle \<Rightarrow> bool" where
  "all_stopped L \<longleftrightarrow> lc_owner L = O_free \<and> \<not> lc_running L \<and> lc_destroy L = Some () \<and> (\<forall>t\<in>set (lc_threads L). t = T_end) \<and>
     lc_listener L \<noteq> Some True"

text \<open>Whatever happens next, \<open>Q\<close> comes: there is a step, none ends the program, and after each of them it is still so.\<close>

inductive inevitably :: "(Lifecycle \<Rightarrow> bool) \<Rightarrow> Lifecycle \<Rightarrow> bool" for Q :: "Lifecycle \<Rightarrow> bool" where
  now: "Q L \<Longrightarrow> inevitably Q L"
| later: "lc_step L M \<Longrightarrow> (\<And>M. lc_step L M \<Longrightarrow> \<exists>L'. M = Some L' \<and> inevitably Q L') \<Longrightarrow> inevitably Q L"

definition thread_rank :: "thread_point \<Rightarrow> nat" where
  "thread_rank t =
     (case t of T_bind \<Rightarrow> 8 | T_publish _ \<Rightarrow> 7 | T_port _ \<Rightarrow> 6 | T_local \<Rightarrow> 5 | T_accept \<Rightarrow> 4 | T_serve \<Rightarrow> 3 | T_close \<Rightarrow> 2
      | T_unmark \<Rightarrow> 2 | T_stop \<Rightarrow> 1 | T_failed \<Rightarrow> 1 | T_end \<Rightarrow> 0)"

lemma thread_rank_less:
  "i < length (lc_threads L) \<Longrightarrow> lc_threads L ! i \<noteq> T_end \<Longrightarrow> \<not> lc_running L \<Longrightarrow>
     thread_rank (lc_threads (thread_step b i L) ! i) < thread_rank (lc_threads L ! i)"
  by (cases "lc_threads L ! i"; cases b) (simp_all add: thread_rank_def thread_step_def thread_at_def lc_close_def)

text \<open>The owner has cleared the flag and is not out of \<open>stop\<close>; how many steps it has left.\<close>

definition stopping :: "Lifecycle \<Rightarrow> bool" where
  "stopping L \<longleftrightarrow> lc_owner L \<noteq> O_free \<and> lc_owner L \<noteq> O_unmark"

definition owner_rank :: "owner_point \<Rightarrow> nat" where
  "owner_rank w = (case w of O_free \<Rightarrow> 0 | O_join _ \<Rightarrow> 1 | O_test \<Rightarrow> 2 | O_close \<Rightarrow> 3 | O_wake \<Rightarrow> 4 | O_unmark \<Rightarrow> 5)"

definition one_left :: "nat \<Rightarrow> Lifecycle \<Rightarrow> bool" where
  "one_left i L \<longleftrightarrow> lc_handle L = Some i \<and> i < length (lc_threads L) \<and> \<not> lc_running L \<and>
     (\<forall>j<length (lc_threads L). j \<noteq> i \<longrightarrow> lc_threads L ! j = T_end) \<and> (\<forall>j. lc_owner L = O_join j \<longrightarrow> j = i)"

lemma quiet_one_left:
  assumes "lc_inv L" and "quiet L" and "stopping L"
  shows "\<exists>i. one_left i L"
proof -
  have "filter marked (lc_starts L) = []" using assms(2) by (auto simp: quiet_def filter_empty_conv)
  then have h: "lc_handle L \<noteq> None" "\<not> lc_running L"
    using assms(1,3) by (auto simp: lc_inv_def stop_ok_def stopping_def pending_joins_def split: if_splits)
  then obtain i where i: "lc_handle L = Some i" by blast
  have "S_assign j \<notin> set (lc_starts L)" for j using assms(2) by (auto simp: quiet_def)
  then have "one_left i L" using assms(1) h(2) i unfolding lc_inv_def handles_ok_def one_left_def by (metis option.inject)
  then show ?thesis ..
qed

lemma joined_all_stopped:
  assumes "lc_inv L" and "one_left i L" and "lc_owner L = O_join j" and "\<not> owner_blocked L"
  shows "all_stopped (owner_step L)"
proof -
  have "lc_threads L ! i = T_end" using assms(2-4) by (auto simp: one_left_def owner_blocked_def)
  then have "\<forall>t\<in>set (lc_threads L). t = T_end" using assms(2) unfolding one_left_def by (metis in_set_conv_nth)
  moreover from this have "lc_listener L \<noteq> Some True" using assms(1) by (auto simp: lc_inv_def listener_ok_def)
  ultimately show ?thesis using assms(2,3) by (simp add: all_stopped_def owner_step_def lc_destroy_def one_left_def)
qed

lemma stopping_owner_step:
  "stopping L \<Longrightarrow> one_left i L \<Longrightarrow> lc_owner L \<noteq> O_join i \<Longrightarrow>
     stopping (owner_step L) \<and> owner_rank (lc_owner (owner_step L)) < owner_rank (lc_owner L) \<and>
     lc_threads (owner_step L) = lc_threads L \<and> lc_starts (owner_step L) = lc_starts L \<and> lc_tasks (owner_step L) = lc_tasks L \<and>
     lc_handle (owner_step L) = lc_handle L"
  by (cases "lc_owner L") (auto simp: stopping_def owner_step_def owner_rank_def one_left_def lc_close_def)

text \<open>The steps while the owner stops: its own, and those of the one thread that is left.\<close>

lemma stopping_steps:
  assumes "lc_step L M" and "quiet L" and "stopping L" and "one_left i L"
  shows "(\<not> owner_blocked L \<and> M = Some (owner_step L)) \<or> (lc_threads L ! i \<noteq> T_end \<and> (\<exists>b. M = Some (thread_step b i L)))"
  using assms(1)
proof (cases rule: lc_step.cases)
  case (lc_thread j b)
  then show ?thesis using assms(4) by (cases "j = i") (auto simp: one_left_def)
qed (use assms(2,3) in \<open>auto simp: quiet_def stopping_def\<close>)

definition stop_rank :: "nat \<Rightarrow> Lifecycle \<Rightarrow> nat" where
  "stop_rank i L = thread_rank (lc_threads L ! i) + owner_rank (lc_owner L)"

lemma stopping_next:
  assumes "lc_step L M" and "lc_inv L" and "quiet L" and "stopping L" and "one_left i L"
  shows "\<exists>L'. M = Some L' \<and> (all_stopped L' \<or> (quiet L' \<and> stopping L' \<and> lc_handle L' = Some i \<and> stop_rank i L' < stop_rank i L))"
  using stopping_steps [OF assms(1,3-5)]
proof (elim disjE conjE exE)
  assume o: "\<not> owner_blocked L" "M = Some (owner_step L)"
  show ?thesis
  proof (cases "lc_owner L = O_join i")
    case True
    then show ?thesis using o joined_all_stopped [OF assms(2,5) True o(1)] by simp
  next
    case False
    from stopping_owner_step [OF assms(4,5) False] show ?thesis using o assms(3,5) by (simp add: quiet_def stop_rank_def one_left_def)
  qed
next
  fix b assume t: "lc_threads L ! i \<noteq> T_end" "M = Some (thread_step b i L)"
  with thread_rank_less [of i L b] assms(3-5) show ?thesis
    by (simp add: quiet_def stopping_def stop_rank_def one_left_def thread_keeps)
qed

lemma stopping_can_step: "one_left i L \<Longrightarrow> \<exists>M. lc_step L M"
proof (cases "owner_blocked L")
  case True
  assume o: "one_left i L"
  with True have "lc_threads L ! i \<noteq> T_end" by (auto simp: owner_blocked_def one_left_def split: owner_point.splits)
  with o show ?thesis using lc_thread [of i L] by (auto simp: one_left_def)
qed (auto intro: lc_stop)

text \<open>C14. \<open>stop\<close> returns when no start is under way: once the owner has cleared the flag, wherever the server thread stands, however its bind ends and in
  every interleaving of the two, no step ends the program and after finitely many steps the owner is out of \<open>stop\<close>, the thread is joined, no thread runs
  and no listener is open.\<close>

theorem stop_returns:
  assumes "lc_reachable L" and "quiet L" and "stopping L"
  shows "inevitably all_stopped L"
proof -
  obtain i where "one_left i L" using quiet_one_left [OF lc_reachable_inv [OF assms(1)] assms(2,3)] by blast
  then have "lc_handle L = Some i" by (simp add: one_left_def)
  with assms show ?thesis
  proof (induction "stop_rank i L" arbitrary: L rule: less_induct)
    case less
    have v: "lc_inv L" by (rule lc_reachable_inv [OF less.prems(1)])
    then have l: "one_left i L" using quiet_one_left [OF v less.prems(2,3)] less.prems(4) by (auto simp: one_left_def)
    obtain M where "lc_step L M" using stopping_can_step [OF l] by blast
    then show ?case
    proof (rule later)
      fix M assume s: "lc_step L M"
      from stopping_next [OF s v less.prems(2,3) l] show "\<exists>L'. M = Some L' \<and> inevitably all_stopped L'"
        using less.hyps less.prems(1) s by (blast intro: now lc_more)
    qed
  qed
qed

section \<open>Starts that meet\<close>




text \<open>
  Two starts that both pass the test end the program: one of them assigns its thread first, and the other then assigns to
  a joinable one. Registering a node twice is enough.
\<close>

theorem two_starts_terminate:
  assumes "k < length (lc_starts L)" and "j < length (lc_starts L)" and "j \<noteq> k"
    and "lc_starts L ! k = S_assign i" and "lc_starts L ! j = S_assign i'" and "lc_handle L = None"
  shows "\<exists>L'. lc_step L (Some L') \<and> lc_step L' None"
proof -
  define L' where "L' = start_at k S_done (L\<lparr>lc_handle := Some i\<rparr>)"
  have "lc_step L (Some L')" using lc_start [of k L] assms by (simp add: start_step_def L'_def)
  moreover have "lc_step L' None" using lc_start [of j L'] assms by (simp add: start_step_def L'_def start_at_def)
  ultimately show ?thesis by blast
qed

section \<open>Undisturbed operations\<close>

text \<open>
  An operation that nothing disturbs does what \<open>Gossip_Server\<close> takes as one step: the fields of the server after the steps of a
  start are those after \<open>start_tcp_server_internal\<close>.
\<close>

definition matches_runtime :: "Lifecycle \<Rightarrow> GossipRuntime \<Rightarrow> bool" where
  "matches_runtime L r \<longleftrightarrow> lc_running L = rt_tcp_running r \<and> lc_stopped L = rt_server_stopped r \<and> lc_listener L = rt_listener r \<and>
     (lc_handle L = None) = (rt_thread r = No_thread)"

definition start_alone :: "nat \<Rightarrow> Lifecycle \<Rightarrow> Lifecycle option" where
  "start_alone k L =
     Option.bind (start_step k L) (\<lambda>L1. Option.bind (start_step k L1) (\<lambda>L2. Option.bind (start_step k L2) (\<lambda>L3.
       Option.bind (start_step k L3) (start_step k))))"

lemma start_alone_refines:
  assumes "matches_runtime L r" and "k < length (lc_starts L)" and "lc_starts L ! k = S_test"
  shows "rel_option matches_runtime (start_alone k L) (start_tcp_server_internal port r)"
  using assms by (auto simp: start_alone_def start_step_def start_at_def matches_runtime_def start_tcp_server_internal_def)

section \<open>Examples\<close>

text \<open>A node that was registered, whose start has been carried out and whose owner has just cleared the flag; and a start before its thread.\<close>

definition ex_creating :: Lifecycle where
  "ex_creating = new_lifecycle\<lparr>lc_running := True, lc_stopped := False, lc_starts := [S_create]\<rparr>"

definition ex_started :: Lifecycle where
  "ex_started = ex_creating\<lparr>lc_threads := [T_bind], lc_handle := Some 0, lc_starts := [S_done]\<rparr>"

definition ex_stopping :: Lifecycle where
  "ex_stopping = ex_started\<lparr>lc_running := False, lc_owner := O_wake\<rparr>"

lemma ex_creating_reachable: "lc_reachable ex_creating"
proof -
  let ?a = "new_lifecycle\<lparr>lc_tasks := 1\<rparr>" let ?b = "new_lifecycle\<lparr>lc_starts := [S_test]\<rparr>"
  let ?c = "new_lifecycle\<lparr>lc_starts := [S_mark]\<rparr>" let ?d = "new_lifecycle\<lparr>lc_running := True, lc_starts := [S_clear]\<rparr>"
  note d = new_lifecycle_def start_step_def start_at_def
  have "lc_reachable ?a" using lc_more [OF lc_new lc_register] by (simp add: d)
  from lc_more [OF this lc_begin] have "lc_reachable ?b" by (simp add: d)
  from lc_more [OF this, of ?c] lc_start [of 0 ?b] have "lc_reachable ?c" by (simp add: d)
  from lc_more [OF this, of ?d] lc_start [of 0 ?c] have "lc_reachable ?d" by (simp add: d)
  from lc_more [OF this, of ex_creating] lc_start [of 0 ?d] show ?thesis by (simp add: d ex_creating_def)
qed

lemma ex_stopping_reachable: "lc_reachable ex_started" "lc_reachable ex_stopping"
proof -
  let ?a = "ex_creating\<lparr>lc_threads := [T_bind], lc_starts := [S_assign 0]\<rparr>" let ?b = "ex_started\<lparr>lc_owner := O_unmark\<rparr>"
  note d = new_lifecycle_def start_step_def start_at_def ex_creating_def ex_started_def ex_stopping_def owner_blocked_def owner_step_def
  from lc_more [OF ex_creating_reachable, of ?a] lc_start [of 0 ex_creating] have "lc_reachable ?a" by (simp add: d)
  from lc_more [OF this, of ex_started] lc_start [of 0 ?a] show s: "lc_reachable ex_started" by (simp add: d)
  from lc_more [OF s, of ?b] lc_stop [of ex_started] have "lc_reachable ?b" by (simp add: d)
  from lc_more [OF this, of ex_stopping] lc_stop [of ?b] show "lc_reachable ex_stopping" by (simp add: d)
qed

theorem lifecycle_invariant_witness: "lc_running ex_started \<and> (\<exists>t\<in>set (lc_threads ex_started). serviceable t)"
  using lifecycle_invariant [OF ex_stopping_reachable(1)] by (simp add: ex_started_def ex_creating_def)

theorem stop_returns_witness: "lc_threads ex_stopping = [T_bind] \<and> inevitably all_stopped ex_stopping"
  using stop_returns [OF ex_stopping_reachable(2)]
  by (simp add: quiet_def stopping_def ex_stopping_def ex_started_def ex_creating_def new_lifecycle_def)


end
