(* ===== verification/Node_Config.thy ===== *)
theory Node_Config
  imports S3_Client Control_Client
begin

text \<open>
  The configuration (\<open>base/config.h\<close>, \<open>base/config.cpp\<close>): defaults, INI files, environment variables and the
  command line. The file system, the environment and the CLI11 library are parameters. A failed
  \<open>std::stoi\<close> throws, which is \<open>Inl\<close>; the two loaders that call each other for structured files may not
  return, so loading is a \<open>partial_function\<close> whose \<open>None\<close> is a call that does not return.
\<close>

section \<open>Structures and defaults\<close>

record LogConfig =
  lg_level :: string
  lg_output :: string
  lg_file_path :: string
  lg_max_file_size_mb :: u64
  lg_max_backup_files :: u64

record NodeConfig =
  nc_node_id :: string
  nc_bind_address :: string
  nc_http_port :: u16

record ProxyConfig =
  px_listen_port :: u16
  px_bind_address :: string
  px_max_connections :: u32
  px_auth_type :: string
  px_auth_token :: "string option"
  px_allowed_bucket :: string

record GlobalConfig =
  g_log :: LogConfig
  g_node :: NodeConfig
  g_cache :: CacheConfig
  g_p2p :: P2PConfig
  g_control_plane :: ControlPlaneConfig
  g_control_plane_server :: ControlPlaneServerConfig
  g_storage :: StorageConfig
  g_proxy :: ProxyConfig

definition default_log :: LogConfig where
  "default_log = \<lparr>lg_level = ''info'', lg_output = ''stdout'', lg_file_path = '''', lg_max_file_size_mb = 100, lg_max_backup_files = 5\<rparr>"

definition default_node :: NodeConfig where
  "default_node = \<lparr>nc_node_id = '''', nc_bind_address = ''0.0.0.0'', nc_http_port = 0\<rparr>"

definition default_cache :: CacheConfig where
  "default_cache = \<lparr>memory_cache_size_mb = 4096, disk_cache_size_mb = 102400, chunk_size_mb = 16,
     cfg_eviction_threshold = to_float (rnd64 (8 / 10)), cfg_eviction_target = to_float (rnd64 (6 / 10)),
     cfg_disk_cache_path = ''/var/cache/eliop2p'', cfg_eviction_protection_sec = 60, cfg_weight_time = rnd32 1,
     cfg_weight_replica = rnd32 (5 / 10), cfg_weight_heat = rnd32 (3 / 10), cfg_hot_threshold = 100, cfg_warm_threshold = 10\<rparr>"

definition default_p2p :: P2PConfig where
  "default_p2p = \<lparr>cfg_listen_port = 9000, cfg_gossip_port = 9001, cfg_max_connections = 100, cfg_max_peers = 50,
     cfg_max_upload_speed_mbps = 0, cfg_max_download_speed_mbps = 0, cfg_selection_k = 5, cfg_gossip_interval_sec = 10,
     cfg_heartbeat_timeout_sec = 60, cfg_transport = ''tcp'', cfg_worker_threads = 0\<rparr>"

definition default_control_plane :: ControlPlaneConfig where
  "default_control_plane = \<lparr>pc_endpoint = '''', pc_port = 8081, pc_heartbeat_interval_sec = 30, pc_reconnect_interval_sec = 5,
     pc_enable = True\<rparr>"

definition default_control_plane_server :: ControlPlaneServerConfig where
  "default_control_plane_server = \<lparr>sc_bind_address = ''0.0.0.0'', sc_listen_port = 8082, sc_heartbeat_timeout_sec = 90,
     sc_cleanup_interval_sec = 30, sc_max_nodes = 1000, sc_enable_replica_adjustment = True, sc_min_replicas = 2, sc_max_replicas = 5\<rparr>"

definition default_storage :: StorageConfig where
  "default_storage = \<lparr>sg_type = ''s3'', sg_endpoint = '''', sg_region = ''us-east-1'', sg_access_key = None, sg_secret_key = None,
     sg_bucket = '''', sg_use_https = True, sg_connection_timeout_sec = 30, sg_read_timeout_sec = 60\<rparr>"

definition default_proxy :: ProxyConfig where
  "default_proxy = \<lparr>px_listen_port = 8080, px_bind_address = ''0.0.0.0'', px_max_connections = 1000, px_auth_type = ''none'',
     px_auth_token = None, px_allowed_bucket = ''''\<rparr>"

definition default_config :: GlobalConfig where
  "default_config = \<lparr>g_log = default_log, g_node = default_node, g_cache = default_cache, g_p2p = default_p2p,
     g_control_plane = default_control_plane, g_control_plane_server = default_control_plane_server,
     g_storage = default_storage, g_proxy = default_proxy\<rparr>"

section \<open>Log levels\<close>

datatype LogLevel = Debug | Info | Warning | Error

definition trim_space :: "string \<Rightarrow> string" where
  "trim_space s = rev (dropWhile isspace (rev (dropWhile isspace s)))"

text \<open>A level of white space only is left as it is.\<close>

definition parse_log_level :: "string \<Rightarrow> LogLevel" where
  "parse_log_level level =
     (let l = (if trim_space (to_lower level) = '''' then to_lower level else trim_space (to_lower level))
      in if l = ''debug'' then Debug
         else if l = ''info'' \<or> l = '''' then Info
         else if l = ''warning'' \<or> l = ''warn'' then Warning
         else if l = ''error'' \<or> l = ''err'' then Error
         else Info)"

section \<open>INI files\<close>

type_synonym ini = "(string \<times> (string \<times> string) list) list"

definition unquote :: "char \<Rightarrow> string \<Rightarrow> string" where
  "unquote q v = (if 2 \<le> length v \<and> hd v = q \<and> last v = q then butlast (tl v) else v)"

text \<open>One line: the current section and the sections so far.\<close>

definition ini_line :: "string \<Rightarrow> string \<times> ini \<Rightarrow> string \<times> ini" where
  "ini_line raw st =
     (case st of (section, m) \<Rightarrow>
        let line = trim_space raw
        in if line = '''' \<or> hd line = CHR ''#'' \<or> hd line = CHR '';'' then st
           else if hd line = CHR ''['' \<and> last line = CHR '']'' then
             (let name = trim_space (take (length line - 2) (tl line)) in (name, smap_put name [] m))
           else case find_char (CHR ''='') line of
                  None \<Rightarrow> st
                | Some p \<Rightarrow>
                    (let key = trim_space (take p line);
                         v = unquote (CHR 0x27) (unquote (CHR 0x22) (trim_space (drop (p + 1) line)));
                         s = (case al_get m section of Some s \<Rightarrow> s | None \<Rightarrow> [])
                     in (section, smap_put section (smap_put key v s) m)))"

definition parse_ini_text :: "string \<Rightarrow> ini" where
  "parse_ini_text text = snd (fold ini_line (split_on (CHR 0x0A) text) ('''', []))"

record config_env =
  ce_exists :: "string \<Rightarrow> bool"
  ce_read :: "string \<Rightarrow> string option"
  ce_getenv :: "string \<Rightarrow> string option"

definition parse_ini_file :: "config_env \<Rightarrow> string \<Rightarrow> ini" where
  "parse_ini_file E path = (case ce_read E path of None \<Rightarrow> [] | Some text \<Rightarrow> parse_ini_text text)"

section \<open>Assignments\<close>

datatype config_error = Conversion_failed

record ConfigState =
  st_config :: GlobalConfig
  st_config_file :: string
  st_server_mode :: bool
  st_log_level :: LogLevel

type_synonym assignment = "ConfigState \<Rightarrow> config_error + ConfigState"

definition on_text :: "string option \<Rightarrow> (string \<Rightarrow> GlobalConfig \<Rightarrow> GlobalConfig) \<Rightarrow> assignment" where
  "on_text v f c = Inr (case v of None \<Rightarrow> c | Some s \<Rightarrow> st_config_update (f s) c)"

definition on_int :: "string option \<Rightarrow> (int \<Rightarrow> GlobalConfig \<Rightarrow> GlobalConfig) \<Rightarrow> assignment" where
  "on_int v f c =
     (case v of None \<Rightarrow> Inr c | Some s \<Rightarrow> (case stoi s of None \<Rightarrow> Inl Conversion_failed | Some i \<Rightarrow> Inr (st_config_update (f i) c)))"

definition on_u64 :: "string option \<Rightarrow> (u64 \<Rightarrow> GlobalConfig \<Rightarrow> GlobalConfig) \<Rightarrow> assignment" where
  "on_u64 v f c =
     (case v of None \<Rightarrow> Inr c | Some s \<Rightarrow> (case stoull s of None \<Rightarrow> Inl Conversion_failed | Some n \<Rightarrow> Inr (st_config_update (f n) c)))"

definition on_level :: "string option \<Rightarrow> assignment" where
  "on_level v c =
     Inr (case v of None \<Rightarrow> c
          | Some s \<Rightarrow> (st_config_update (g_log_update (lg_level_update (\<lambda>_. s))) c)\<lparr>st_log_level := parse_log_level s\<rparr>)"

fun run_assignments :: "assignment list \<Rightarrow> assignment" where
  "run_assignments [] c = Inr c"
| "run_assignments (a # as) c = (case a c of Inl e \<Rightarrow> Inl e | Inr c' \<Rightarrow> run_assignments as c')"

definition ini_get :: "ini \<Rightarrow> string \<Rightarrow> string \<Rightarrow> string option" where
  "ini_get m section key = (case al_get m section of None \<Rightarrow> None | Some s \<Rightarrow> al_get s key)"

definition log_section :: "ini \<Rightarrow> assignment list" where
  "log_section m = (let s = ini_get m ''log'' in
     [on_level (s ''level''),
      on_text (s ''output'') (\<lambda>v. g_log_update (lg_output_update (\<lambda>_. v))),
      on_text (s ''file_path'') (\<lambda>v. g_log_update (lg_file_path_update (\<lambda>_. v)))])"

definition node_section :: "ini \<Rightarrow> assignment list" where
  "node_section m = (let s = ini_get m ''node'' in
     [on_text (s ''node_id'') (\<lambda>v. g_node_update (nc_node_id_update (\<lambda>_. v))),
      on_text (s ''bind_address'') (\<lambda>v. g_node_update (nc_bind_address_update (\<lambda>_. v))),
      on_int (s ''http_port'') (\<lambda>i. g_node_update (nc_http_port_update (\<lambda>_. word_of_int i)))])"

definition cache_section :: "ini \<Rightarrow> assignment list" where
  "cache_section m = (let s = ini_get m ''cache'' in
     [on_u64 (s ''memory_cache_size_mb'') (\<lambda>n. g_cache_update (memory_cache_size_mb_update (\<lambda>_. n))),
      on_u64 (s ''disk_cache_size_mb'') (\<lambda>n. g_cache_update (disk_cache_size_mb_update (\<lambda>_. n))),
      on_int (s ''chunk_size_mb'') (\<lambda>i. g_cache_update (chunk_size_mb_update (\<lambda>_. word_of_int i))),
      on_text (s ''disk_cache_path'') (\<lambda>v. g_cache_update (cfg_disk_cache_path_update (\<lambda>_. v)))])"

definition p2p_section :: "ini \<Rightarrow> assignment list" where
  "p2p_section m = (let s = ini_get m ''p2p'' in
     [on_int (s ''listen_port'') (\<lambda>i. g_p2p_update (cfg_listen_port_update (\<lambda>_. word_of_int i))),
      on_int (s ''max_connections'') (\<lambda>i. g_p2p_update (cfg_max_connections_update (\<lambda>_. word_of_int i))),
      on_int (s ''max_peers'') (\<lambda>i. g_p2p_update (cfg_max_peers_update (\<lambda>_. word_of_int i))),
      on_int (s ''selection_k'') (\<lambda>i. g_p2p_update (cfg_selection_k_update (\<lambda>_. word_of_int i)))])"

definition control_plane_section :: "ini \<Rightarrow> assignment list" where
  "control_plane_section m = (let s = ini_get m ''control_plane'' in
     [on_text (s ''endpoint'') (\<lambda>v. g_control_plane_update (pc_endpoint_update (\<lambda>_. v))),
      on_int (s ''port'') (\<lambda>i. g_control_plane_update (pc_port_update (\<lambda>_. word_of_int i))),
      on_text (s ''enable'') (\<lambda>v. g_control_plane_update (pc_enable_update (\<lambda>_. v = ''true'')))])"

definition storage_section :: "ini \<Rightarrow> assignment list" where
  "storage_section m = (let s = ini_get m ''storage'' in
     [on_text (s ''type'') (\<lambda>v. g_storage_update (sg_type_update (\<lambda>_. v))),
      on_text (s ''endpoint'') (\<lambda>v. g_storage_update (sg_endpoint_update (\<lambda>_. v))),
      on_text (s ''region'') (\<lambda>v. g_storage_update (sg_region_update (\<lambda>_. v))),
      on_text (s ''bucket'') (\<lambda>v. g_storage_update (sg_bucket_update (\<lambda>_. v))),
      on_text (s ''access_key'') (\<lambda>v. g_storage_update (sg_access_key_update (\<lambda>_. Some v))),
      on_text (s ''secret_key'') (\<lambda>v. g_storage_update (sg_secret_key_update (\<lambda>_. Some v)))])"

definition proxy_section :: "ini \<Rightarrow> assignment list" where
  "proxy_section m = (let s = ini_get m ''proxy'' in
     [on_int (s ''listen_port'') (\<lambda>i. g_proxy_update (px_listen_port_update (\<lambda>_. word_of_int i))),
      on_text (s ''bind_address'') (\<lambda>v. g_proxy_update (px_bind_address_update (\<lambda>_. v))),
      on_int (s ''max_connections'') (\<lambda>i. g_proxy_update (px_max_connections_update (\<lambda>_. word_of_int i)))])"

definition apply_ini :: "ini \<Rightarrow> assignment" where
  "apply_ini m = run_assignments (log_section m @ node_section m @ cache_section m @ p2p_section m @ control_plane_section m @
     storage_section m @ proxy_section m)"

section \<open>Loading a file\<close>

text \<open>\<open>std::filesystem::path::extension\<close>: of the last component, from its last dot, unless this is its first character.\<close>

definition path_extension :: "string \<Rightarrow> string" where
  "path_extension path =
     (let name = (case rfind_char (CHR ''/'') path of None \<Rightarrow> path | Some i \<Rightarrow> drop (i + 1) path)
      in case rfind_char (CHR ''.'') name of
           None \<Rightarrow> ''''
         | Some i \<Rightarrow> if i = 0 \<or> name = ''..'' then '''' else drop i name)"

definition load_ini :: "config_env \<Rightarrow> string \<Rightarrow> ConfigState \<Rightarrow> config_error + (bool \<times> ConfigState)" where
  "load_ini E path c = (case apply_ini (parse_ini_file E path) c of Inl e \<Rightarrow> Inl e | Inr c' \<Rightarrow> Inr (True, c'))"

text \<open>\<open>load_yaml\<close> and \<open>load_json\<close> only call \<open>load_from_file\<close> again with the same path.\<close>

partial_function (option) load_from_file :: "config_env \<Rightarrow> string \<Rightarrow> ConfigState \<Rightarrow> (config_error + (bool \<times> ConfigState)) option" where
  "load_from_file E path c =
     (if \<not> ce_exists E path then Some (Inr (False, c))
      else if path_extension path = ''.yaml'' \<or> path_extension path = ''.yml''
      then load_from_file E path (c\<lparr>st_config_file := path\<rparr>)
      else if path_extension path = ''.json'' then load_from_file E path (c\<lparr>st_config_file := path\<rparr>)
      else Some (load_ini E path (c\<lparr>st_config_file := path\<rparr>)))"

section \<open>The environment\<close>

definition override_from_env :: "config_env \<Rightarrow> assignment" where
  "override_from_env E = (let e = ce_getenv E in run_assignments
     [on_text (e ''ELIOP2P_NODE_ID'') (\<lambda>v. g_node_update (nc_node_id_update (\<lambda>_. v))),
      on_text (e ''ELIOP2P_BIND_ADDRESS'') (\<lambda>v. g_node_update (nc_bind_address_update (\<lambda>_. v))),
      on_level (e ''ELIOP2P_LOG_LEVEL''),
      on_text (e ''ELIOP2P_CONTROL_PLANE'') (\<lambda>v. g_control_plane_update (pc_endpoint_update (\<lambda>_. v))),
      on_int (e ''ELIOP2P_CONTROL_PLANE_PORT'') (\<lambda>i. g_control_plane_update (pc_port_update (\<lambda>_. word_of_int i))),
      on_text (e ''ELIOP2P_STORAGE_ENDPOINT'') (\<lambda>v. g_storage_update (sg_endpoint_update (\<lambda>_. v))),
      on_text (e ''ELIOP2P_STORAGE_REGION'') (\<lambda>v. g_storage_update (sg_region_update (\<lambda>_. v))),
      on_text (e ''ELIOP2P_STORAGE_BUCKET'') (\<lambda>v. g_storage_update (sg_bucket_update (\<lambda>_. v))),
      on_text (e ''ELIOP2P_STORAGE_ACCESS_KEY'') (\<lambda>v. g_storage_update (sg_access_key_update (\<lambda>_. Some v))),
      on_text (e ''ELIOP2P_STORAGE_SECRET_KEY'') (\<lambda>v. g_storage_update (sg_secret_key_update (\<lambda>_. Some v))),
      on_int (e ''ELIOP2P_P2P_PORT'') (\<lambda>i. g_p2p_update (cfg_listen_port_update (\<lambda>_. word_of_int i))),
      on_int (e ''ELIOP2P_P2P_GOSSIP_PORT'') (\<lambda>i. g_p2p_update (cfg_gossip_port_update (\<lambda>_. word_of_int i))),
      on_int (e ''ELIOP2P_PROXY_PORT'') (\<lambda>i. g_proxy_update (px_listen_port_update (\<lambda>_. word_of_int i))),
      on_text (e ''ELIOP2P_PROXY_ALLOWED_BUCKET'') (\<lambda>v. g_proxy_update (px_allowed_bucket_update (\<lambda>_. v)))])"

definition load_from_env :: "config_env \<Rightarrow> ConfigState \<Rightarrow> config_error + (bool \<times> ConfigState)" where
  "load_from_env E c = (case override_from_env E c of Inl e \<Rightarrow> Inl e | Inr c' \<Rightarrow> Inr (True, c'))"

section \<open>The command line\<close>

text \<open>
  CLI11 is a parameter: from the registered names and the arguments it gives an exit code, or the options
  that were given, in the order it stores them, with values converted to the type of the variable.
\<close>

datatype cli_value = Text string | Num nat | Real fp | Flag bool

type_synonym cli_parser = "string list \<Rightarrow> string list \<Rightarrow> nat + (string \<times> cli_value) list"

definition text_opt :: "(string \<Rightarrow> GlobalConfig \<Rightarrow> GlobalConfig) \<Rightarrow> cli_value \<Rightarrow> GlobalConfig \<Rightarrow> GlobalConfig" where
  "text_opt f v = (case v of Text s \<Rightarrow> f s | _ \<Rightarrow> (\<lambda>g. g))"

definition num_opt :: "(nat \<Rightarrow> GlobalConfig \<Rightarrow> GlobalConfig) \<Rightarrow> cli_value \<Rightarrow> GlobalConfig \<Rightarrow> GlobalConfig" where
  "num_opt f v = (case v of Num n \<Rightarrow> f n | _ \<Rightarrow> (\<lambda>g. g))"

definition real_opt :: "(fp \<Rightarrow> GlobalConfig \<Rightarrow> GlobalConfig) \<Rightarrow> cli_value \<Rightarrow> GlobalConfig \<Rightarrow> GlobalConfig" where
  "real_opt f v = (case v of Real x \<Rightarrow> f x | _ \<Rightarrow> (\<lambda>g. g))"

definition flag_opt :: "(bool \<Rightarrow> GlobalConfig \<Rightarrow> GlobalConfig) \<Rightarrow> cli_value \<Rightarrow> GlobalConfig \<Rightarrow> GlobalConfig" where
  "flag_opt f v = (case v of Flag b \<Rightarrow> f b | _ \<Rightarrow> (\<lambda>g. g))"

definition node_options :: "(string \<times> (cli_value \<Rightarrow> GlobalConfig \<Rightarrow> GlobalConfig)) list" where
  "node_options =
     [(''--node-id'', text_opt (\<lambda>v. g_node_update (nc_node_id_update (\<lambda>_. v)))),
      (''--bind-address'', text_opt (\<lambda>v. g_node_update (nc_bind_address_update (\<lambda>_. v)))),
      (''--http-port'', num_opt (\<lambda>n. g_node_update (nc_http_port_update (\<lambda>_. of_nat n)))),
      (''--log-level'', text_opt (\<lambda>v. g_log_update (lg_level_update (\<lambda>_. v)))),
      (''--log-output'', text_opt (\<lambda>v. g_log_update (lg_output_update (\<lambda>_. v)))),
      (''--log-file'', text_opt (\<lambda>v. g_log_update (lg_file_path_update (\<lambda>_. v))))]"

definition cache_options :: "(string \<times> (cli_value \<Rightarrow> GlobalConfig \<Rightarrow> GlobalConfig)) list" where
  "cache_options =
     [(''--cache-memory-size'', num_opt (\<lambda>n. g_cache_update (memory_cache_size_mb_update (\<lambda>_. of_nat n)))),
      (''--cache-disk-size'', num_opt (\<lambda>n. g_cache_update (disk_cache_size_mb_update (\<lambda>_. of_nat n)))),
      (''--cache-chunk-size'', num_opt (\<lambda>n. g_cache_update (chunk_size_mb_update (\<lambda>_. of_nat n)))),
      (''--cache-disk-path'', text_opt (\<lambda>v. g_cache_update (cfg_disk_cache_path_update (\<lambda>_. v)))),
      (''--cache-eviction-threshold'', real_opt (\<lambda>x. g_cache_update (cfg_eviction_threshold_update (\<lambda>_. x)))),
      (''--cache-eviction-target'', real_opt (\<lambda>x. g_cache_update (cfg_eviction_target_update (\<lambda>_. x))))]"

definition p2p_options :: "(string \<times> (cli_value \<Rightarrow> GlobalConfig \<Rightarrow> GlobalConfig)) list" where
  "p2p_options =
     [(''--p2p-port'', num_opt (\<lambda>n. g_p2p_update (cfg_listen_port_update (\<lambda>_. of_nat n)))),
      (''--p2p-max-connections'', num_opt (\<lambda>n. g_p2p_update (cfg_max_connections_update (\<lambda>_. of_nat n)))),
      (''--p2p-max-peers'', num_opt (\<lambda>n. g_p2p_update (cfg_max_peers_update (\<lambda>_. of_nat n)))),
      (''--p2p-max-upload-speed'', num_opt (\<lambda>n. g_p2p_update (cfg_max_upload_speed_mbps_update (\<lambda>_. of_nat n)))),
      (''--p2p-max-download-speed'', num_opt (\<lambda>n. g_p2p_update (cfg_max_download_speed_mbps_update (\<lambda>_. of_nat n)))),
      (''--p2p-selection-k'', num_opt (\<lambda>n. g_p2p_update (cfg_selection_k_update (\<lambda>_. of_nat n)))),
      (''--p2p-gossip-interval'', num_opt (\<lambda>n. g_p2p_update (cfg_gossip_interval_sec_update (\<lambda>_. of_nat n)))),
      (''--p2p-heartbeat-timeout'', num_opt (\<lambda>n. g_p2p_update (cfg_heartbeat_timeout_sec_update (\<lambda>_. of_nat n)))),
      (''--p2p-transport'', text_opt (\<lambda>v. g_p2p_update (cfg_transport_update (\<lambda>_. v))))]"

definition control_options :: "(string \<times> (cli_value \<Rightarrow> GlobalConfig \<Rightarrow> GlobalConfig)) list" where
  "control_options =
     [(''--control-plane-endpoint'', text_opt (\<lambda>v. g_control_plane_update (pc_endpoint_update (\<lambda>_. v)))),
      (''--control-plane-port'', num_opt (\<lambda>n. g_control_plane_update (pc_port_update (\<lambda>_. of_nat n)))),
      (''--control-plane-heartbeat'', num_opt (\<lambda>n. g_control_plane_update (pc_heartbeat_interval_sec_update (\<lambda>_. of_nat n)))),
      (''--control-plane-reconnect'', num_opt (\<lambda>n. g_control_plane_update (pc_reconnect_interval_sec_update (\<lambda>_. of_nat n)))),
      (''--control-plane-enable'', flag_opt (\<lambda>b. g_control_plane_update (pc_enable_update (\<lambda>_. b)))),
      (''--control-server-port'', num_opt (\<lambda>n. g_control_plane_server_update (sc_listen_port_update (\<lambda>_. of_nat n)))),
      (''--control-server-bind'', text_opt (\<lambda>v. g_control_plane_server_update (sc_bind_address_update (\<lambda>_. v)))),
      (''--control-server-timeout'', num_opt (\<lambda>n. g_control_plane_server_update (sc_heartbeat_timeout_sec_update (\<lambda>_. of_nat n)))),
      (''--control-server-max-nodes'', num_opt (\<lambda>n. g_control_plane_server_update (sc_max_nodes_update (\<lambda>_. of_nat n)))),
      (''--control-server-min-replicas'', num_opt (\<lambda>n. g_control_plane_server_update (sc_min_replicas_update (\<lambda>_. of_nat n)))),
      (''--control-server-max-replicas'', num_opt (\<lambda>n. g_control_plane_server_update (sc_max_replicas_update (\<lambda>_. of_nat n))))]"

definition storage_options :: "(string \<times> (cli_value \<Rightarrow> GlobalConfig \<Rightarrow> GlobalConfig)) list" where
  "storage_options =
     [(''--storage-type'', text_opt (\<lambda>v. g_storage_update (sg_type_update (\<lambda>_. v)))),
      (''--storage-endpoint'', text_opt (\<lambda>v. g_storage_update (sg_endpoint_update (\<lambda>_. v)))),
      (''--storage-region'', text_opt (\<lambda>v. g_storage_update (sg_region_update (\<lambda>_. v)))),
      (''--storage-bucket'', text_opt (\<lambda>v. g_storage_update (sg_bucket_update (\<lambda>_. v)))),
      (''--storage-access-key'', text_opt (\<lambda>v. g_storage_update (sg_access_key_update (\<lambda>_. Some v)))),
      (''--storage-secret-key'', text_opt (\<lambda>v. g_storage_update (sg_secret_key_update (\<lambda>_. Some v)))),
      (''--storage-https'', flag_opt (\<lambda>b. g_storage_update (sg_use_https_update (\<lambda>_. b)))),
      (''--storage-connection-timeout'', num_opt (\<lambda>n. g_storage_update (sg_connection_timeout_sec_update (\<lambda>_. of_nat n)))),
      (''--storage-read-timeout'', num_opt (\<lambda>n. g_storage_update (sg_read_timeout_sec_update (\<lambda>_. of_nat n))))]"

definition proxy_options :: "(string \<times> (cli_value \<Rightarrow> GlobalConfig \<Rightarrow> GlobalConfig)) list" where
  "proxy_options =
     [(''--proxy-port'', num_opt (\<lambda>n. g_proxy_update (px_listen_port_update (\<lambda>_. of_nat n)))),
      (''--proxy-bind-address'', text_opt (\<lambda>v. g_proxy_update (px_bind_address_update (\<lambda>_. v)))),
      (''--proxy-max-connections'', num_opt (\<lambda>n. g_proxy_update (px_max_connections_update (\<lambda>_. of_nat n)))),
      (''--proxy-auth-type'', text_opt (\<lambda>v. g_proxy_update (px_auth_type_update (\<lambda>_. v)))),
      (''--proxy-auth-token'', text_opt (\<lambda>v. g_proxy_update (px_auth_token_update (\<lambda>_. Some v))))]"

definition cli_options :: "(string \<times> (cli_value \<Rightarrow> GlobalConfig \<Rightarrow> GlobalConfig)) list" where
  "cli_options = node_options @ cache_options @ p2p_options @ control_options @ storage_options @ proxy_options"

text \<open>One stored option: the path of the configuration file, the server flag, or a field of the configuration.\<close>

definition store_option :: "string \<times> cli_value \<Rightarrow> string \<times> ConfigState \<Rightarrow> string \<times> ConfigState" where
  "store_option nv st =
     (case st of (file, c) \<Rightarrow>
        case nv of (n, v) \<Rightarrow>
          if n = ''--config'' then (case v of Text s \<Rightarrow> (s, c) | _ \<Rightarrow> st)
          else if n = ''--server'' then (case v of Flag b \<Rightarrow> (file, c\<lparr>st_server_mode := b\<rparr>) | _ \<Rightarrow> st)
          else case map_of cli_options n of None \<Rightarrow> st | Some f \<Rightarrow> (file, st_config_update (f v) c))"

definition apply_config_level :: "ConfigState \<Rightarrow> ConfigState" where
  "apply_config_level c =
     (if lg_level (g_log (st_config c)) = '''' then c else c\<lparr>st_log_level := parse_log_level (lg_level (g_log (st_config c)))\<rparr>)"

definition parse_command_line ::
  "config_env \<Rightarrow> cli_parser \<Rightarrow> string list \<Rightarrow> ConfigState \<Rightarrow> (config_error + (bool \<times> ConfigState)) option" where
  "parse_command_line E cli argv c =
     (let c1 = (case ce_getenv E ''ELIOP2P_LOG_LEVEL'' of None \<Rightarrow> c | Some v \<Rightarrow> c\<lparr>st_log_level := parse_log_level v\<rparr>)
      in case cli (''--config'' # map fst cli_options @ [''--server'', ''--version'']) argv of
           Inl code \<Rightarrow> Some (Inr (False, c1))
         | Inr given \<Rightarrow>
             (case fold store_option given ('''', c1) of (file, c2) \<Rightarrow>
                if file = '''' then Some (Inr (True, apply_config_level c2))
                else case load_from_file E file c2 of
                       None \<Rightarrow> None
                     | Some (Inl e) \<Rightarrow> Some (Inl e)
                     | Some (Inr (ok, c3)) \<Rightarrow> Some (Inr (True, apply_config_level c3))))"

definition config_validate :: "GlobalConfig \<Rightarrow> bool" where
  "config_validate g \<longleftrightarrow> nc_node_id (g_node g) \<noteq> '''' \<and> px_listen_port (g_proxy g) \<noteq> 0"

definition initial_config_state :: "LogLevel \<Rightarrow> ConfigState" where
  "initial_config_state l = \<lparr>st_config = default_config, st_config_file = '''', st_server_mode = False, st_log_level = l\<rparr>"

section \<open>Structured files\<close>

definition structured :: "string \<Rightarrow> bool" where
  "structured path \<longleftrightarrow> path_extension path \<in> {''.yaml'', ''.yml'', ''.json''}"

lemma load_returned:
  assumes "load_from_file E path c = Some r"
  shows "\<not> (ce_exists E path \<and> structured path)"
proof (rule load_from_file.raw_induct [where P = "\<lambda>E path c r. \<not> (ce_exists E path \<and> structured path)", OF _ assms], rule notI)
  fix f E path c r
  assume IH: "\<And>E path c r. f E path c = Some r \<Longrightarrow> \<not> (ce_exists E path \<and> structured path)"
    and eq: "(if \<not> ce_exists E path then Some (Inr (False, c))
      else if path_extension path = ''.yaml'' \<or> path_extension path = ''.yml''
      then f E path (c\<lparr>st_config_file := path\<rparr>)
      else if path_extension path = ''.json'' then f E path (c\<lparr>st_config_file := path\<rparr>)
      else Some (load_ini E path (c\<lparr>st_config_file := path\<rparr>))) = Some r"
    and s: "ce_exists E path \<and> structured path"
  then have "f E path (c\<lparr>st_config_file := path\<rparr>) = Some r" by (auto simp: structured_def split: if_splits)
  with IH s show False by blast
qed

lemma load_plain:
  assumes "\<not> structured path"
  shows "load_from_file E path c = Some (if ce_exists E path then load_ini E path (c\<lparr>st_config_file := path\<rparr>) else Inr (False, c))"
  using assms by (subst load_from_file.simps) (simp add: structured_def)

text \<open>C28. Structured files. Loading an existing file that is named as YAML or JSON never returns, since the two loaders call each other with the
  same path; every other call returns.\<close>

theorem load_from_file_returns_iff:
  "load_from_file E path c = None \<longleftrightarrow> ce_exists E path \<and> path_extension path \<in> {''.yaml'', ''.yml'', ''.json''}"
proof -
  have "load_from_file E path c \<noteq> None" if "\<not> ce_exists E path" using that by (subst load_from_file.simps) simp
  moreover have "load_from_file E path c = None" if "ce_exists E path" "structured path"
    using that load_returned [of E path c] by (cases "load_from_file E path c") auto
  moreover have "load_from_file E path c \<noteq> None" if "\<not> structured path" using load_plain [OF that] by simp
  ultimately show ?thesis unfolding structured_def by blast
qed

section \<open>Precedence\<close>

lemma run_assignments_append:
  "run_assignments (xs @ ys) c = (case run_assignments xs c of Inl e \<Rightarrow> Inl e | Inr c' \<Rightarrow> run_assignments ys c')"
  by (induction xs arbitrary: c) (auto split: sum.split)

lemma apply_ini_port:
  assumes "apply_ini m c = Inr c'" and "ini_get m ''proxy'' ''listen_port'' = Some s" and "stoi s = Some i"
  shows "px_listen_port (g_proxy (st_config c')) = word_of_int i"
proof -
  obtain c1 where "run_assignments (proxy_section m) c1 = Inr c'"
    using assms(1) by (auto simp: apply_ini_def run_assignments_append split: sum.splits)
  then show ?thesis using assms(2,3)
    by (auto simp: proxy_section_def Let_def on_int_def on_text_def split: option.splits sum.splits)
qed

lemma apply_level_config [simp]: "st_config (apply_config_level c) = st_config c"
  by (simp add: apply_config_level_def)

text \<open>C29. The file wins. When the command line names an INI file that sets the port of the proxy, the port is the one of the file,
  reduced to 16 bits, whatever the environment and the command line say.\<close>

theorem config_file_wins:
  assumes "parse_command_line E cli argv c = Some (Inr (True, c'))"
    and "cli (''--config'' # map fst cli_options @ [''--server'', ''--version'']) argv = Inr given"
    and "\<And>c1. fst (fold store_option given ('''', c1)) = file" and "file \<noteq> ''''"
    and "ce_exists E file" and "path_extension file \<notin> {''.yaml'', ''.yml'', ''.json''}"
    and "ini_get (parse_ini_file E file) ''proxy'' ''listen_port'' = Some s" and "stoi s = Some i"
  shows "uint (px_listen_port (g_proxy (st_config c'))) = i mod 2 ^ 16"
proof -
  define c1 where "c1 = (case ce_getenv E ''ELIOP2P_LOG_LEVEL'' of None \<Rightarrow> c | Some v \<Rightarrow> c\<lparr>st_log_level := parse_log_level v\<rparr>)"
  obtain c2 where f: "fold store_option given ('''', c1) = (file, c2)" using assms(3) [of c1] by (metis prod.collapse)
  have "load_from_file E file c2 = Some (load_ini E file (c2\<lparr>st_config_file := file\<rparr>))"
    using load_plain [of "file" E c2] assms(5,6) by (simp add: structured_def)
  then obtain ok c3 where "load_ini E file (c2\<lparr>st_config_file := file\<rparr>) = Inr (ok, c3)" "c' = apply_config_level c3"
    using assms(1,2,4) f by (auto simp: parse_command_line_def c1_def Let_def split: sum.splits)
  then have "px_listen_port (g_proxy (st_config c')) = word_of_int i"
    using apply_ini_port [OF _ assms(7,8)] by (auto simp: load_ini_def split: sum.splits)
  then show ?thesis by (simp add: uint_word_of_int)
qed

definition ex_config_env :: config_env where
  "ex_config_env = \<lparr>ce_exists = (\<lambda>p. p = ''n.ini''), ce_read = (\<lambda>p. Some (''[proxy]'' @ LF @ ''listen_port = 70000'' @ LF)),
     ce_getenv = (\<lambda>n. if n = ''ELIOP2P_PROXY_PORT'' then Some ''7000'' else None)\<rparr>"

definition ex_given :: "(string \<times> cli_value) list" where
  "ex_given = [(''--proxy-port'', Num 7001), (''--config'', Text ''n.ini'')]"

lemma ex_ini: "parse_ini_file ex_config_env ''n.ini'' = [(''proxy'', [(''listen_port'', ''70000'')])]"
  by code_simp

lemma ex_stored: "fst (fold store_option ex_given ('''', c1)) = ''n.ini''"
  by (simp add: ex_given_def store_option_def split: option.split)

lemma ex_extension: "path_extension ''n.ini'' \<notin> {''.yaml'', ''.yml'', ''.json''}"
  by code_simp

lemma ex_stoi: "stoi ''70000'' = Some 70000"
  by (simp add: stoi_def split_sign_def isspace_def isdigit_def digits_val_def)

lemmas section_defs = log_section_def node_section_def cache_section_def p2p_section_def control_plane_section_def
  storage_section_def proxy_section_def

lemma ex_applied: "\<exists>c'. apply_ini [(''proxy'', [(''listen_port'', ''70000'')])] c = Inr c'"
  by (simp add: apply_ini_def section_defs Let_def ini_get_def on_text_def on_int_def on_u64_def on_level_def ex_stoi)

theorem config_file_wins_witness:
  "\<exists>c'. parse_command_line ex_config_env (\<lambda>_ _. Inr ex_given) [] (initial_config_state Info) = Some (Inr (True, c')) \<and>
     uint (px_listen_port (g_proxy (st_config c'))) = 4464"
proof -
  let ?c = "initial_config_state Info" and ?cli = "\<lambda>_ _. Inr ex_given"
  have ex: "ce_exists ex_config_env ''n.ini''" "ce_getenv ex_config_env ''ELIOP2P_LOG_LEVEL'' = None" by (simp_all add: ex_config_env_def)
  obtain c2 where f: "fold store_option ex_given ('''', ?c) = (''n.ini'', c2)" using ex_stored [of ?c] by (metis prod.collapse)
  obtain c3 where "load_ini ex_config_env ''n.ini'' (c2\<lparr>st_config_file := ''n.ini''\<rparr>) = Inr (True, c3)"
    using ex_applied [of "c2\<lparr>st_config_file := ''n.ini''\<rparr>"] by (auto simp: load_ini_def ex_ini)
  then have "load_from_file ex_config_env ''n.ini'' c2 = Some (Inr (True, c3))"
    using load_plain [of "''n.ini''" ex_config_env c2] ex_extension ex(1) by (simp add: structured_def)
  then have r: "parse_command_line ex_config_env ?cli [] ?c = Some (Inr (True, apply_config_level c3))"
    by (simp add: parse_command_line_def ex(2) f)
  have port: "ini_get (parse_ini_file ex_config_env ''n.ini'') ''proxy'' ''listen_port'' = Some ''70000''"
    by (simp add: ex_ini ini_get_def)
  have "''n.ini'' \<noteq> ''''" by simp
  from config_file_wins [OF r refl ex_stored this ex(1) ex_extension port ex_stoi] r show ?thesis by auto
qed

section \<open>INI files, printed and parsed\<close>

text \<open>A file as one writes it: sections, and in each the keys and values.\<close>

definition ini_entry :: "string \<times> string \<Rightarrow> string" where
  "ini_entry kv = fst kv @ ''='' @ snd kv"

definition section_lines :: "string \<times> (string \<times> string) list \<Rightarrow> string list" where
  "section_lines s = (''['' @ fst s @ '']'') # map ini_entry (snd s)"

definition render_ini :: "ini \<Rightarrow> string" where
  "render_ini m = concat (map (\<lambda>l. l @ LF) (concat (map section_lines m)))"

definition trimmed :: "string \<Rightarrow> bool" where
  "trimmed s \<longleftrightarrow> trim_space s = s \<and> CHR 0x0A \<notin> set s"

definition entry_ok :: "string \<times> string \<Rightarrow> bool" where
  "entry_ok kv \<longleftrightarrow> trimmed (fst kv) \<and> trimmed (snd kv) \<and> fst kv \<noteq> '''' \<and> hd (fst kv) \<notin> {CHR ''#'', CHR '';'', CHR ''[''} \<and>
     CHR ''='' \<notin> set (fst kv) \<and> unquote (CHR 0x27) (unquote (CHR 0x22) (snd kv)) = snd kv"

lemma trim_space_id:
  assumes "s \<noteq> ''''" and "\<not> isspace (hd s)" and "\<not> isspace (last s)"
  shows "trim_space s = s"
proof -
  have "dropWhile isspace s = s" "dropWhile isspace (rev s) = rev s" using assms by (simp_all add: dropWhile_eq_self_iff hd_rev)
  then show ?thesis by (simp add: trim_space_def)
qed

lemma trimmed_ends:
  assumes "trim_space s = s" and "s \<noteq> ''''"
  shows "\<not> isspace (hd s)" and "\<not> isspace (last s)"
proof -
  have "length s \<le> length (dropWhile isspace s)"
    using assms(1) length_dropWhile_le [of isspace "rev (dropWhile isspace s)"] by (metis trim_space_def length_rev)
  then have "takeWhile isspace s = ''''"
    by (metis append_eq_append_conv append_Nil length_append add_le_same_cancel2 length_greater_0_conv not_gr_zero takeWhile_dropWhile_id le_zero_eq)
  then have d: "dropWhile isspace s = s" by (metis append_Nil takeWhile_dropWhile_id)
  show "\<not> isspace (hd s)" using d assms(2) by (simp add: dropWhile_eq_self_iff)
  have "dropWhile isspace (rev s) = rev s" using assms(1) d by (metis trim_space_def rev_rev_ident)
  then show "\<not> isspace (last s)" using assms(2) by (simp add: dropWhile_eq_self_iff hd_rev)
qed

lemma ini_line_entry:
  assumes "entry_ok kv" and "al_get m n = Some s"
  shows "ini_line (ini_entry kv) (n, m) = (n, smap_put n (smap_put (fst kv) (snd kv) s) m)"
proof -
  obtain k v where kv: "kv = (k, v)" by (cases kv)
  have k: "trim_space k = k" "k \<noteq> ''''" "hd k \<notin> {CHR ''#'', CHR '';'', CHR ''[''}" "CHR ''='' \<notin> set k"
    and v: "trim_space v = v" "unquote (CHR 0x27) (unquote (CHR 0x22) v) = v"
    using assms(1) by (simp_all add: entry_ok_def trimmed_def kv)
  have "\<not> isspace (last (k @ ''='' @ v))" using trimmed_ends(2) [OF v(1)] by (cases "v = ''''") (simp_all add: isspace_def)
  then have t: "trim_space (k @ ''='' @ v) = k @ ''='' @ v"
    using trimmed_ends(1) [OF k(1,2)] k(2) by (intro trim_space_id) simp_all
  have hd: "hd (k @ ''='' @ v) = hd k" using k(2) by simp
  show ?thesis using k v assms(2) find_char_append [OF k(4), of v]
    by (simp add: ini_line_def ini_entry_def kv t [simplified] hd [simplified])
qed

lemma ini_line_section:
  assumes "trimmed n"
  shows "ini_line (''['' @ n @ '']'') st = (n, smap_put n [] (snd st))"
proof -
  have "trim_space (''['' @ n @ '']'') = ''['' @ n @ '']''" by (intro trim_space_id) (simp_all add: isspace_def)
  then show ?thesis using assms by (cases st) (simp add: ini_line_def trimmed_def)
qed

lemma ini_entries:
  assumes "list_all entry_ok kvs" and "al_get m n = Some s"
  shows "\<exists>m'. fold ini_line (map ini_entry kvs) (n, m) = (n, m') \<and>
    map_of m' = (map_of m)(n \<mapsto> fold (\<lambda>kv. smap_put (fst kv) (snd kv)) kvs s)"
  using assms
proof (induction kvs arbitrary: m s)
  case Nil
  then show ?case by (auto simp: fun_upd_idem)
next
  case (Cons kv kvs)
  from Cons.IH [of "smap_put n (smap_put (fst kv) (snd kv) s) m" "smap_put (fst kv) (snd kv) s"] Cons.prems
  show ?case by (auto simp: ini_line_entry fun_upd_upd) (auto simp: fun_eq_iff)
qed

lemma entries_get: "map_of (fold (\<lambda>kv. smap_put (fst kv) (snd kv)) kvs s) = map_of s ++ map_of (rev kvs)"
  by (induction kvs arbitrary: s) (auto simp: fun_eq_iff map_add_def split: option.split)

lemma ini_sections:
  assumes "list_all (\<lambda>s. trimmed (fst s) \<and> list_all entry_ok (snd s)) secs"
  shows "map_of (snd (fold ini_line (concat (map section_lines secs)) (n, m))) =
    map_of m ++ map_of (rev (map (\<lambda>(s, kvs). (s, fold (\<lambda>kv. smap_put (fst kv) (snd kv)) kvs [])) secs))"
  using assms
proof (induction secs arbitrary: n m)
  case (Cons sec secs)
  obtain x kvs where sec: "sec = (x, kvs)" by (cases sec)
  have ok: "trimmed x" "list_all entry_ok kvs" using Cons.prems by (simp_all add: sec)
  have "al_get (smap_put x [] m) x = Some []" by simp
  from ini_entries [OF ok(2) this] obtain m' where m': "fold ini_line (map ini_entry kvs) (x, smap_put x [] m) = (x, m')"
      "map_of m' = (map_of (smap_put x [] m))(x \<mapsto> fold (\<lambda>kv. smap_put (fst kv) (snd kv)) kvs [])" by blast
  then have "fold ini_line (section_lines sec) (n, m) = (x, m')"
    using ini_line_section [OF ok(1), of "(n, m)"] by (simp add: section_lines_def sec)
  with Cons.IH [of x m'] Cons.prems m'(2) show ?case by (simp add: sec fun_eq_iff map_add_def split: option.split)
qed simp

lemma split_lines:
  assumes "\<And>l. l \<in> set ls \<Longrightarrow> CHR 0x0A \<notin> set l"
  shows "split_on (CHR 0x0A) (concat (map (\<lambda>l. l @ LF) ls)) = ls @ ['''']"
  using assms by (induction ls) (simp_all add: LF_def split_on_append)

text \<open>C27. An INI file is read as it was written: of a section that occurs more than once the last one counts, and of a key
  in it the last value, for names, keys and values that need no quotes.\<close>

theorem ini_roundtrip:
  assumes "list_all (\<lambda>s. trimmed (fst s) \<and> list_all entry_ok (snd s)) secs"
  shows "ini_get (parse_ini_text (render_ini secs)) s k = (case map_of (rev secs) s of None \<Rightarrow> None | Some kvs \<Rightarrow> map_of (rev kvs) k)"
proof -
  have "CHR 0x0A \<notin> set l" if "l \<in> set (concat (map section_lines secs))" for l
    using that assms by (auto simp: section_lines_def ini_entry_def entry_ok_def trimmed_def list_all_iff) fastforce+
  then have "split_on (CHR 0x0A) (render_ini secs) = concat (map section_lines secs) @ ['''']"
    unfolding render_ini_def by (rule split_lines)
  moreover have "ini_line '''' st = st" for st by (cases st) (simp add: ini_line_def trim_space_def)
  ultimately have "map_of (parse_ini_text (render_ini secs)) =
      map_of (rev (map (\<lambda>(s, kvs). (s, fold (\<lambda>kv. smap_put (fst kv) (snd kv)) kvs [])) secs))"
    using ini_sections [OF assms, of "''''" "[]"] by (simp add: parse_ini_text_def)
  then show ?thesis
    by (simp add: ini_get_def rev_map map_of_map entries_get split: option.split)
qed

theorem ini_roundtrip_witness:
  "ini_get (parse_ini_text (render_ini [(''node'', [(''node_id'', ''a b'')]), (''p2p'', []), (''node'', [(''x'', ''[1]'')])])) ''node'' ''x'' =
     Some ''[1]''"
proof -
  have "list_all (\<lambda>s. trimmed (fst s) \<and> list_all entry_ok (snd s)) [(''node'', [(''node_id'', ''a b'')]), (''p2p'', []), (''node'', [(''x'', ''[1]'')])]"
    by code_simp
  from ini_roundtrip [OF this, of "''node''" "''x''"] show ?thesis by simp
qed

end
