(* ===== verification/Base_Services.thy ===== *)
theory Base_Services
  imports Node_Config
begin

text \<open>
  The services that every component calls: the logger (\<open>base/logger.cpp\<close>), a wrapper around the one of
  the runtime library, which is a record of its operations, and the error codes (\<open>base/error_code.cpp\<close>).
\<close>

section \<open>Logger\<close>

datatype LogOutput = Stdout | Stderr | File

record 'e elio_logger =
  el_set_level :: "LogLevel \<Rightarrow> 'e \<Rightarrow> 'e"
  el_get_level :: "'e \<Rightarrow> LogLevel"
  el_log :: "LogLevel \<Rightarrow> string \<Rightarrow> 'e \<Rightarrow> 'e"

text \<open>The file stream is the path it was opened with and whether it is open.\<close>

record 'e Logger =
  lo_logger :: 'e
  lo_level :: LogLevel
  lo_file_stream :: "(string \<times> bool) option"

definition set_level :: "'e elio_logger \<Rightarrow> LogLevel \<Rightarrow> 'e Logger \<Rightarrow> 'e Logger" where
  "set_level ops level l = l\<lparr>lo_level := level, lo_logger := el_set_level ops level (lo_logger l)\<rparr>"

definition get_level :: "'e elio_logger \<Rightarrow> 'e Logger \<Rightarrow> LogLevel" where
  "get_level ops l = el_get_level ops (lo_logger l)"

definition env_level :: "string \<Rightarrow> LogLevel" where
  "env_level v =
     (let s = to_lower v
      in if s = ''debug'' then Debug else if s = ''warning'' \<or> s = ''warn'' then Warning else if s = ''error'' then Error else Info)"

definition init_from_env :: "'e elio_logger \<Rightarrow> string option \<Rightarrow> 'e Logger \<Rightarrow> 'e Logger" where
  "init_from_env ops env l = (case env of None \<Rightarrow> l | Some v \<Rightarrow> set_level ops (env_level v) l)"

definition new_logger :: "'e elio_logger \<Rightarrow> string option \<Rightarrow> 'e \<Rightarrow> 'e Logger" where
  "new_logger ops env e =
     init_from_env ops env (set_level ops Info \<lparr>lo_logger = e, lo_level = Info, lo_file_stream = None\<rparr>)"

definition set_output :: "LogOutput \<Rightarrow> 'e Logger \<Rightarrow> 'e Logger" where
  "set_output target l = l"

definition close_file_output :: "'e Logger \<Rightarrow> 'e Logger" where
  "close_file_output l = l\<lparr>lo_file_stream := None\<rparr>"

definition set_file_output :: "bool \<Rightarrow> string \<Rightarrow> 'e Logger \<Rightarrow> 'e Logger" where
  "set_file_output is_open path l = (close_file_output l)\<lparr>lo_file_stream := Some (path, is_open)\<rparr>"

definition log_message :: "'e elio_logger \<Rightarrow> LogLevel \<Rightarrow> string \<Rightarrow> 'e Logger \<Rightarrow> 'e Logger" where
  "log_message ops level message l = l\<lparr>lo_logger := el_log ops level message (lo_logger l)\<rparr>"

definition log_debug :: "'e elio_logger \<Rightarrow> string \<Rightarrow> 'e Logger \<Rightarrow> 'e Logger" where
  "log_debug ops = log_message ops Debug"

definition log_info :: "'e elio_logger \<Rightarrow> string \<Rightarrow> 'e Logger \<Rightarrow> 'e Logger" where
  "log_info ops = log_message ops Info"

definition log_warning :: "'e elio_logger \<Rightarrow> string \<Rightarrow> 'e Logger \<Rightarrow> 'e Logger" where
  "log_warning ops = log_message ops Warning"

definition log_error :: "'e elio_logger \<Rightarrow> string \<Rightarrow> 'e Logger \<Rightarrow> 'e Logger" where
  "log_error ops = log_message ops Error"

definition log_fatal :: "'e elio_logger \<Rightarrow> string \<Rightarrow> 'e Logger \<Rightarrow> 'e Logger" where
  "log_fatal ops message = log_message ops Error (''FATAL: '' @ message)"

section \<open>Error codes\<close>

datatype ErrorCode =
    Success
  | InvalidArgument | NotFound | AlreadyExists | Timeout | Cancelled | InternalError | NotImplemented
  | NetworkError | ConnectionFailed | ConnectionClosed | SendFailed | ReceiveFailed
  | CacheMiss | CacheFull | EvictionFailed
  | NodeNotFound | TransferFailed | ChunkNotAvailable
  | StorageError | AuthenticationFailed | BucketNotFound | ObjectNotFound
  | ControlPlaneError | RegistrationFailed | MetadataError

definition all_codes :: "(ErrorCode \<times> int \<times> string) list" where
  "all_codes =
    [(Success, 0, ''Success''),
     (InvalidArgument, 1001, ''Invalid argument''), (NotFound, 1002, ''Not found''), (AlreadyExists, 1003, ''Already exists''),
     (Timeout, 1004, ''Operation timed out''), (Cancelled, 1005, ''Operation cancelled''),
     (InternalError, 1006, ''Internal error''), (NotImplemented, 1007, ''Not implemented''),
     (NetworkError, 2001, ''Network error''), (ConnectionFailed, 2002, ''Connection failed''),
     (ConnectionClosed, 2003, ''Connection closed''), (SendFailed, 2004, ''Send failed''), (ReceiveFailed, 2005, ''Receive failed''),
     (CacheMiss, 3001, ''Cache miss''), (CacheFull, 3002, ''Cache is full''), (EvictionFailed, 3003, ''Eviction failed''),
     (NodeNotFound, 4001, ''Node not found''), (TransferFailed, 4002, ''Transfer failed''),
     (ChunkNotAvailable, 4003, ''Chunk not available''),
     (StorageError, 5001, ''Storage error''), (AuthenticationFailed, 5002, ''Authentication failed''),
     (BucketNotFound, 5003, ''Bucket not found''), (ObjectNotFound, 5004, ''Object not found''),
     (ControlPlaneError, 6001, ''Control plane error''), (RegistrationFailed, 6002, ''Registration failed''),
     (MetadataError, 6003, ''Metadata error'')]"

definition code_value :: "ErrorCode \<Rightarrow> int" where
  "code_value c = fst (the (map_of all_codes c))"

text \<open>The switch of \<open>to_string\<close> on the value, which may be none of the enumerators.\<close>

definition code_text :: "int \<Rightarrow> string" where
  "code_text ev = (case map_of (map snd all_codes) ev of Some t \<Rightarrow> t | None \<Rightarrow> ''Unknown error'')"

record error_code =
  ec_value :: int
  ec_category :: string

definition make_error_code :: "ErrorCode \<Rightarrow> error_code" where
  "make_error_code c = \<lparr>ec_value = code_value c, ec_category = ''ElioP2P''\<rparr>"

definition category_message :: "int \<Rightarrow> string" where
  "category_message ev = code_text ev"

record ElioP2PError =
  ep_code :: ErrorCode
  ep_message :: string

definition new_error :: "ErrorCode \<Rightarrow> string \<Rightarrow> ElioP2PError" where
  "new_error c message = \<lparr>ep_code = c, ep_message = code_text (code_value c) @ '': '' @ message\<rparr>"

lemma every_code: "c \<in> set (map fst all_codes)"
  by (cases c) (simp_all add: all_codes_def)

lemma codes_distinct:
  "distinct (map fst all_codes)" "distinct (map (fst \<circ> snd) all_codes)" "distinct (map (snd \<circ> snd) all_codes)"
  "''Unknown error'' \<notin> set (map (snd \<circ> snd) all_codes)"
  by code_simp+

lemma code_entry: obtains t where "(c, code_value c, t) \<in> set all_codes" and "code_text (code_value c) = t"
proof -
  obtain v t where m: "map_of all_codes c = Some (v, t)"
    using every_code [of c] by (metis map_of_eq_None_iff not_None_eq surj_pair list.set_map)
  then have e: "(c, v, t) \<in> set all_codes" by (rule map_of_SomeD)
  have "distinct (map fst (map snd all_codes))" using codes_distinct(2) by simp
  moreover have "(v, t) \<in> set (map snd all_codes)" using e by force
  ultimately have "map_of (map snd all_codes) v = Some t" by (rule map_of_is_SomeI)
  with m e show thesis by (intro that [of t]) (simp_all add: code_value_def code_text_def)
qed

text \<open>
  An error code survives the trip through \<open>std::error_code\<close>: the value and the message each determine
  the code, and no code has the message of an unknown one.
\<close>

lemma error_code_roundtrip:
  "(ec_value (make_error_code c) = ec_value (make_error_code d) \<longleftrightarrow> c = d) \<and>
   (category_message (ec_value (make_error_code c)) = category_message (ec_value (make_error_code d)) \<longleftrightarrow> c = d) \<and>
   category_message (ec_value (make_error_code c)) \<noteq> ''Unknown error''"
proof -
  obtain s where s: "(c, code_value c, s) \<in> set all_codes" "code_text (code_value c) = s" by (rule code_entry)
  obtain t where t: "(d, code_value d, t) \<in> set all_codes" "code_text (code_value d) = t" by (rule code_entry)
  have v: "code_value c = code_value d \<Longrightarrow> c = d"
    using codes_distinct(2) s(1) t(1) inj_onD [of "fst \<circ> snd" "set all_codes" "(c, code_value c, s)" "(d, code_value d, t)"]
    by (simp add: distinct_map)
  have m: "s = t \<Longrightarrow> c = d"
    using codes_distinct(3) s(1) t(1) inj_onD [of "snd \<circ> snd" "set all_codes" "(c, code_value c, s)" "(d, code_value d, t)"]
    by (simp add: distinct_map)
  have "s \<noteq> ''Unknown error''" using codes_distinct(4) s(1) by force
  with v m s(2) t(2) show ?thesis by (auto simp: make_error_code_def category_message_def)
qed

section \<open>The level of the logger\<close>

inductive logger_step :: "'e elio_logger \<Rightarrow> 'e Logger \<Rightarrow> 'e Logger \<Rightarrow> bool" for ops where
  ls_level: "logger_step ops l (set_level ops level l)"
| ls_output: "logger_step ops l (set_output target l)"
| ls_file: "logger_step ops l (set_file_output is_open path l)"
| ls_close: "logger_step ops l (close_file_output l)"
| ls_log: "logger_step ops l (log_message ops level message l)"
| ls_fatal: "logger_step ops l (log_fatal ops message l)"

text \<open>
  The level that the wrapper keeps is the one the messages are filtered with, after every sequence of
  calls, provided the level of the library is what was set last and a message does not change it.
\<close>

lemma logger_level_agrees:
  assumes "\<And>level e. el_get_level ops (el_set_level ops level e) = level"
    and "\<And>level message e. el_get_level ops (el_log ops level message e) = el_get_level ops e"
    and "(logger_step ops)\<^sup>*\<^sup>* (new_logger ops env e) l"
  shows "get_level ops l = lo_level l"
  using assms(3)
proof (induction rule: rtranclp_induct)
  case base
  show ?case by (simp add: new_logger_def init_from_env_def set_level_def get_level_def assms(1) split: option.split)
next
  case (step y z)
  from step(2,3) show ?case
    by (cases rule: logger_step.cases)
      (simp_all add: get_level_def set_level_def set_output_def set_file_output_def close_file_output_def log_message_def
        log_fatal_def assms(1,2))
qed

end
