(* ===== verification/Proxy_Server.thy ===== *)
theory Proxy_Server
  imports Node_Config
begin

text \<open>
  The HTTP front of the proxy (\<open>proxy/server.h\<close>, \<open>proxy/server.cpp\<close>): conversion of requests and responses, the routes,
  starting and stopping. The HTTP library is a parameter: a request and a response are records of what
  the code reads and sets, \<open>matches\<close> says whether a path matches a registered pattern, and listening has no effect
  on the state. Assigning the server thread while the previous one has not been joined terminates
  the program.
\<close>

section \<open>State\<close>

record ProxyMetrics =
  pm_total_requests :: u64
  pm_cache_hits :: u64
  pm_cache_misses :: u64
  pm_p2p_downloads :: u64
  pm_storage_downloads :: u64
  pm_total_bytes_served :: u64
  pm_total_bytes_downloaded :: u64
  pm_avg_latency_ms :: fp

definition zero_metrics :: ProxyMetrics where
  "zero_metrics = \<lparr>pm_total_requests = 0, pm_cache_hits = 0, pm_cache_misses = 0, pm_p2p_downloads = 0,
     pm_storage_downloads = 0, pm_total_bytes_served = 0, pm_total_bytes_downloaded = 0, pm_avg_latency_ms = Fin 0\<rparr>"

definition cache_hit_rate :: "ProxyMetrics \<Rightarrow> fp" where
  "cache_hit_rate m =
     (let n = pm_cache_hits m + pm_cache_misses m
      in if n > 0 then fp_div rnd32 (float_of_u64 (pm_cache_hits m)) (float_of_u64 n) else Fin 0)"

datatype http_method = GET | HEAD | POST | PUT | DELETE | OPTIONS

fun method_to_string :: "http_method \<Rightarrow> string" where
  "method_to_string GET = ''GET''"
| "method_to_string HEAD = ''HEAD''"
| "method_to_string POST = ''POST''"
| "method_to_string PUT = ''PUT''"
| "method_to_string DELETE = ''DELETE''"
| "method_to_string OPTIONS = ''OPTIONS''"

record 'w ProxyServer =
  ps_config :: ProxyConfig
  ps_running :: bool
  ps_metrics :: ProxyMetrics
  ps_request_handler :: "'w RequestHandler"
  ps_thread_joinable :: bool
  ps_transfer_manager :: bool
  ps_scheduler :: bool
  ps_enable_p2p_fallback :: bool
  ps_routes :: "(http_method \<times> string) list option"

definition new_proxy_server :: "ProxyConfig \<Rightarrow> ChunkManager option \<Rightarrow> 'w \<Rightarrow> 'w ProxyServer" where
  "new_proxy_server cfg cm w =
     (let h = new_request_handler cm w
      in \<lparr>ps_config = cfg, ps_running = False, ps_metrics = zero_metrics,
          ps_request_handler = (if px_allowed_bucket cfg \<noteq> '''' then set_allowed_bucket (px_allowed_bucket cfg) h else h),
          ps_thread_joinable = False, ps_transfer_manager = False, ps_scheduler = False, ps_enable_p2p_fallback = True,
          ps_routes = None\<rparr>)"

section \<open>Requests\<close>

record elio_request =
  er_method :: http_method
  er_path :: string
  er_query :: string
  er_headers :: "(string \<times> string) list"
  er_body :: string

record elio_response =
  es_status :: nat
  es_headers :: "(string \<times> string) list"
  es_body :: string

text \<open>The body of a request is not kept: the request handler reads none.\<close>

definition convert_request :: "elio_request \<Rightarrow> HttpRequest" where
  "convert_request q = \<lparr>hr_method = method_to_string (er_method q), hr_path = er_path q, hr_query_string = er_query q,
     hr_headers = fold (\<lambda>(k, v). al_put k v) (er_headers q) []\<rparr>"

definition convert_response :: "HttpResponse \<Rightarrow> elio_response" where
  "convert_response r = \<lparr>es_status = rs_status_code r, es_headers = fold (\<lambda>(k, v). al_put k v) (rs_headers r) [],
     es_body = to_str (rs_body r)\<rparr>"

definition proxy_request_handler :: "'w proxy_env \<Rightarrow> elio_request \<Rightarrow> (elio_response, 'w RequestHandler) io" where
  "proxy_request_handler env q = bind_io (handle_request env (convert_request q)) (\<lambda>r. return_io (convert_response r))"

definition proxy_routes :: "(http_method \<times> string) list" where
  "proxy_routes = [(GET, ''/''), (GET, ''/*''), (POST, ''/*''), (PUT, ''/*''), (DELETE, ''/*'')]"

definition not_found_response :: "elio_request \<Rightarrow> elio_response" where
  "not_found_response q =
     \<lparr>es_status = 404, es_headers = [(''Content-Type'', ''application/json'')],
      es_body = ''{'' @ [CHR 0x22] @ ''error'' @ [CHR 0x22] @ '': '' @ [CHR 0x22] @ ''Not Found'' @ [CHR 0x22] @ '', '' @
        [CHR 0x22] @ ''path'' @ [CHR 0x22] @ '': '' @ [CHR 0x22] @ er_path q @ [CHR 0x22] @ ''}''\<rparr>"

text \<open>Every registered route has the same handler.\<close>

definition serve_http ::
  "(string \<Rightarrow> string \<Rightarrow> bool) \<Rightarrow> 'w proxy_env \<Rightarrow> elio_request \<Rightarrow> 'w ProxyServer \<Rightarrow> (elio_response run \<times> 'w ProxyServer) option" where
  "serve_http matches env q s =
     (if (case ps_routes s of None \<Rightarrow> False | Some rs \<Rightarrow> list_ex (\<lambda>(m, p). m = er_method q \<and> matches p (er_path q)) rs)
      then (case proxy_request_handler env q (ps_request_handler s) of
              None \<Rightarrow> None
            | Some (r, h) \<Rightarrow> Some (r, s\<lparr>ps_request_handler := h\<rparr>))
      else Some (Done (not_found_response q), s))"

section \<open>Starting and stopping\<close>

definition proxy_bind :: "ProxyConfig \<Rightarrow> bind_target \<times> bool option" where
  "proxy_bind cfg =
     (if px_bind_address cfg = ''0.0.0.0'' then (Any_ipv4 (px_listen_port cfg), None)
      else if px_bind_address cfg = ''::'' \<or> px_bind_address cfg = '''' then (Any_ipv6 (px_listen_port cfg), Some False)
      else (Address (px_bind_address cfg) (px_listen_port cfg), Some (CHR '':'' \<in> set (px_bind_address cfg))))"

definition proxy_start :: "'w ProxyServer \<Rightarrow> ((bool \<times> bind_target \<times> bool option) \<times> 'w ProxyServer) option" where
  "proxy_start s =
     (if ps_thread_joinable s then None
      else Some ((True, proxy_bind (ps_config s)),
                 s\<lparr>ps_running := True, ps_routes := Some proxy_routes, ps_thread_joinable := True\<rparr>))"

definition proxy_stop :: "'w ProxyServer \<Rightarrow> 'w ProxyServer" where
  "proxy_stop s = (if ps_running s then s\<lparr>ps_running := False, ps_thread_joinable := False\<rparr> else s)"

definition proxy_get_metrics :: "'w ProxyServer \<Rightarrow> ProxyMetrics" where
  "proxy_get_metrics s = ps_metrics s"

definition proxy_is_running :: "'w ProxyServer \<Rightarrow> bool" where
  "proxy_is_running s = ps_running s"

definition proxy_set_transfer_manager :: "bool \<Rightarrow> 'w ProxyServer \<Rightarrow> 'w ProxyServer" where
  "proxy_set_transfer_manager given s =
     s\<lparr>ps_transfer_manager := given, ps_request_handler := set_transfer_manager given (ps_request_handler s)\<rparr>"

definition proxy_set_scheduler :: "bool \<Rightarrow> 'w ProxyServer \<Rightarrow> 'w ProxyServer" where
  "proxy_set_scheduler given s = s\<lparr>ps_scheduler := given\<rparr>"

definition proxy_set_p2p_fallback_enabled :: "bool \<Rightarrow> 'w ProxyServer \<Rightarrow> 'w ProxyServer" where
  "proxy_set_p2p_fallback_enabled b s =
     s\<lparr>ps_enable_p2p_fallback := b, ps_request_handler := set_p2p_fallback_enabled b (ps_request_handler s)\<rparr>"

section \<open>Reachable servers\<close>

inductive ps_step :: "(string \<Rightarrow> string \<Rightarrow> bool) \<Rightarrow> 'w proxy_env \<Rightarrow> 'w ProxyServer \<Rightarrow> 'w ProxyServer \<Rightarrow> bool"
  for matches :: "string \<Rightarrow> string \<Rightarrow> bool" and env :: "'w proxy_env" where
  Start: "proxy_start s = Some (x, s') \<Longrightarrow> ps_step matches env s s'"
| Stop: "ps_step matches env s (proxy_stop s)"
| Serve: "serve_http matches env q s = Some (r, s') \<Longrightarrow> ps_step matches env s s'"
| Transfer: "ps_step matches env s (proxy_set_transfer_manager given s)"
| Scheduler: "ps_step matches env s (proxy_set_scheduler given s)"
| Fallback: "ps_step matches env s (proxy_set_p2p_fallback_enabled b s)"

inductive ps_reach :: "(string \<Rightarrow> string \<Rightarrow> bool) \<Rightarrow> 'w proxy_env \<Rightarrow> ProxyConfig \<Rightarrow> 'w ProxyServer \<Rightarrow> bool"
  for matches :: "string \<Rightarrow> string \<Rightarrow> bool" and env :: "'w proxy_env" and cfg :: ProxyConfig where
  Init: "ps_reach matches env cfg (new_proxy_server cfg cm w)"
| Step: "ps_reach matches env cfg s \<Longrightarrow> ps_step matches env s s' \<Longrightarrow> ps_reach matches env cfg s'"

inductive_cases ps_stepE: "ps_step matches env s s'"

section \<open>What a request keeps\<close>

definition keeps :: "('h \<Rightarrow> bool) \<Rightarrow> ('a, 'h) io \<Rightarrow> bool" where
  "keeps I f \<longleftrightarrow> (\<forall>h x h'. I h \<longrightarrow> f h = Some (x, h') \<longrightarrow> I h')"

lemma keepsI: "(\<And>h x h'. I h \<Longrightarrow> f h = Some (x, h') \<Longrightarrow> I h') \<Longrightarrow> keeps I f"
  by (simp add: keeps_def)

lemma keepsD: "keeps I f \<Longrightarrow> I h \<Longrightarrow> f h = Some (x, h') \<Longrightarrow> I h'"
  by (auto simp: keeps_def)

lemma keeps_return [intro!, simp]: "keeps I (return_io a)"
  by (auto simp: keeps_def return_io_def)

lemma keeps_const [intro!, simp]: "keeps I (\<lambda>h. Some (x, h))"
  by (auto simp: keeps_def)

lemma keeps_bind [intro!]:
  assumes "keeps I f" and "\<And>a. keeps I (g a)"
  shows "keeps I (bind_io f g)"
proof (rule keepsI)
  fix h x h' assume h: "I h" and eq: "bind_io f g h = Some (x, h')"
  then obtain r h1 where r: "f h = Some (r, h1)" by (auto simp: bind_io_def split: option.splits)
  from keepsD [OF assms(1) h r] have h1: "I h1" .
  show "I h'"
  proof (cases r)
    case (Done a)
    with eq r have "g a h1 = Some (x, h')" by (simp add: bind_io_def)
    then show ?thesis by (rule keepsD [OF assms(2) h1])
  qed (use eq r h1 in \<open>simp_all add: bind_io_def\<close>)
qed

lemma keeps_cond [intro!]:
  assumes "keeps I f" and "keeps I g"
  shows "keeps I (\<lambda>h. if P h then f h else g h)"
proof (rule keepsI)
  fix h x h' assume h: "I h" and eq: "(if P h then f h else g h) = Some (x, h')"
  show "I h'"
  proof (cases "P h")
    case True
    with eq have "f h = Some (x, h')" by simp
    then show ?thesis by (rule keepsD [OF assms(1) h])
  next
    case False
    with eq have "g h = Some (x, h')" by simp
    then show ?thesis by (rule keepsD [OF assms(2) h])
  qed
qed

text \<open>A property of the handler that the cache, the peers and the storage do not touch is kept by a whole request.\<close>

locale handler_frame =
  fixes I :: "'w RequestHandler \<Rightarrow> bool" and env :: "'w proxy_env"
  assumes cache: "I h \<Longrightarrow> I (h\<lparr>rh_cache_manager := cm\<rparr>)"
    and download: "I h \<Longrightarrow> p2p_download (pe_p2p env) req (rh_world h) = (d, w) \<Longrightarrow> I (h\<lparr>rh_world := w\<rparr>)"
    and announce: "I h \<Longrightarrow> I (h\<lparr>rh_world := p2p_announce (pe_p2p env) k (rh_world h)\<rparr>)"
    and head: "I h \<Longrightarrow> pe_storage env = Some sc \<Longrightarrow> head_object sc b k (rh_world h) = (md, w) \<Longrightarrow> I (h\<lparr>rh_world := w\<rparr>)"
    and get: "I h \<Longrightarrow> pe_storage env = Some sc \<Longrightarrow> get_object sc b k off len (rh_world h) = (bs, w) \<Longrightarrow> I (h\<lparr>rh_world := w\<rparr>)"
begin

lemma cache_keeps [intro!]: "keeps I (cache_get env k)" "keeps I (cache_store env k data)"
  by (auto intro!: keepsI simp: cache_get_def cache_store_def cache split: option.splits prod.splits)

lemma peers_keep [intro!]: "keeps I (peer_download env req)" "keeps I (announce_local env k)"
  by (auto intro!: keepsI simp: peer_download_def announce_local_def announce download split: prod.splits outcome.splits if_splits)

lemma origin_keeps [intro!]: "keeps I (origin_head env b k)" "keeps I (origin_get env b k off len)"
  by (auto intro!: keepsI simp: origin_head_def origin_get_def head get split: option.splits prod.splits)

lemma origin_info_keeps [intro!]: "keeps I (object_info_from_origin env info)"
  unfolding object_info_from_origin_def Let_def by (auto split: option.split)

lemma peers_info_keeps [intro!]: "keeps I (object_info_from_peers env info)"
  unfolding object_info_from_peers_def [abs_def] by (auto split: option.split)

lemma object_info_keeps [intro!]: "keeps I (get_object_info env info)"
  unfolding get_object_info_def by (auto split: option.split)

lemma update_meta_keeps [intro!]: "keeps I (update_meta env info obj i data)"
  unfolding update_meta_def Let_def by (auto split: option.split)

lemma storage_chunk_keeps [intro!]: "keeps I (chunk_from_storage env info obj i k)"
  unfolding chunk_from_storage_def by (auto split: option.split)

lemma peers_chunk_keeps [intro!]: "keeps I (chunk_from_peers env info obj i k)"
  unfolding chunk_from_peers_def [abs_def] by (auto split: option.split)

lemma fetch_keeps [intro!]: "keeps I (fetch_chunk env info obj i)"
  unfolding fetch_chunk_def by (auto split: option.split)

lemma assemble_keeps [intro!]: "keeps I (assemble env info obj rng a z ns acc)"
proof (induction ns arbitrary: acc)
  case Nil
  then show ?case by (auto simp: keeps_def return_io_def)
next
  case (Cons n ns)
  obtain body xc srcs where acc: "acc = (body, xc, srcs)" by (cases acc)
  have "keeps I (bind_io (fetch_chunk env info obj (of_nat n)) (\<lambda>(d, src).
       case d of
         None \<Rightarrow> return_io None
       | Some data \<Rightarrow>
           (case trim_chunk rng a z (of_nat n) data of
              Done part \<Rightarrow>
                assemble env info obj rng a z ns
                  (body @ part, x_cache_step src xc, srcs @ (if a < of_nat n then '','' else '''') @ source_tag (of_nat n) src)
            | Raised \<Rightarrow> (\<lambda>h. Some (Raised, h))
            | Undefined \<Rightarrow> (\<lambda>h. Some (Undefined, h)))))"
    using Cons.IH by (auto split: option.split run.split)
  then show ?case by (simp add: acc keeps_def)
qed

lemma request_keeps: "keeps I (handle_request env r)"
proof -
  have "keeps I (serve_range env info obj rng b)" for info obj rng b
    unfolding serve_range_def Let_def by (auto split: option.split)
  then have "keeps I (serve_object env r info obj)" for info obj
    unfolding serve_object_def Let_def by auto
  then have "keeps I (bind_io (get_object_info env info) (\<lambda>o'.
                      case o' of
                        None \<Rightarrow> return_io (text_response 404 ''Not Found'' (''Object not found: '' @ ci_full_object_key info))
                      | Some obj \<Rightarrow> serve_object env r info obj))" for info
    by (auto split: option.split)
  then show ?thesis
    unfolding keeps_def handle_request_def by (auto simp: return_io_def split: option.splits if_splits)
qed

end

text \<open>The settings of the handler.\<close>

definition settings_are :: "bool \<Rightarrow> bool \<Rightarrow> string \<Rightarrow> 'w RequestHandler \<Rightarrow> bool" where
  "settings_are tm fb bucket h \<longleftrightarrow> rh_transfer_manager h = tm \<and> rh_enable_p2p_fallback h = fb \<and> rh_allowed_bucket h = bucket"

interpretation settings: handler_frame "settings_are tm fb bucket" env for tm fb bucket env
  by unfold_locales (auto simp: settings_are_def)

section \<open>Properties\<close>

definition ps_inv :: "ProxyConfig \<Rightarrow> 'w ProxyServer \<Rightarrow> bool" where
  "ps_inv cfg s \<longleftrightarrow> ps_config s = cfg \<and> ps_running s = ps_thread_joinable s \<and> ps_metrics s = zero_metrics \<and>
     (ps_running s \<longrightarrow> ps_routes s = Some proxy_routes) \<and>
     settings_are (ps_transfer_manager s) (ps_enable_p2p_fallback s) (px_allowed_bucket cfg) (ps_request_handler s)"

lemma serve_http_settings:
  assumes "serve_http matches env q s = Some (r, s')" and "settings_are tm fb b (ps_request_handler s)"
  shows "settings_are tm fb b (ps_request_handler s') \<and> s' = s\<lparr>ps_request_handler := ps_request_handler s'\<rparr>"
proof -
  have "keeps (settings_are tm fb b) (proxy_request_handler env q)"
    unfolding proxy_request_handler_def using settings.request_keeps by blast
  then show ?thesis using assms keepsD by (fastforce simp: serve_http_def split: option.splits if_splits)
qed

lemma ps_inv_new: "ps_inv cfg (new_proxy_server cfg cm w)"
  by (simp add: ps_inv_def new_proxy_server_def settings_are_def set_allowed_bucket_def new_request_handler_def Let_def)

lemma ps_inv_step: "ps_step matches env s s' \<Longrightarrow> ps_inv cfg s \<Longrightarrow> ps_inv cfg s'"
proof (induction rule: ps_step.induct)
  case (Serve q s r s')
  then have i: "settings_are (ps_transfer_manager s) (ps_enable_p2p_fallback s) (px_allowed_bucket cfg) (ps_request_handler s)"
    by (simp add: ps_inv_def)
  from serve_http_settings [OF Serve(1) i] obtain h where "s' = s\<lparr>ps_request_handler := h\<rparr>"
      "settings_are (ps_transfer_manager s) (ps_enable_p2p_fallback s) (px_allowed_bucket cfg) h" by metis
  with Serve(2) show ?case by (simp add: ps_inv_def)
qed (auto simp: ps_inv_def proxy_start_def proxy_stop_def proxy_set_transfer_manager_def set_transfer_manager_def proxy_set_scheduler_def
    proxy_set_p2p_fallback_enabled_def set_p2p_fallback_enabled_def settings_are_def split: if_splits)

text \<open>C20. In every reachable state of the proxy server the thread runs exactly when the server does, a running server has its routes, the handler
  has the bucket of the configuration and the flags of the server, so that a restriction to one bucket cannot be lost; and the metrics are
  zero: no operation counts anything.\<close>

theorem proxy_server_invariant:
  assumes "ps_reach matches env cfg s"
  shows "ps_running s = ps_thread_joinable s \<and> (ps_running s \<longrightarrow> ps_routes s = Some proxy_routes) \<and>
    rh_allowed_bucket (ps_request_handler s) = px_allowed_bucket cfg \<and>
    rh_transfer_manager (ps_request_handler s) = ps_transfer_manager s \<and>
    rh_enable_p2p_fallback (ps_request_handler s) = ps_enable_p2p_fallback s \<and> proxy_get_metrics s = zero_metrics"
proof -
  have "ps_inv cfg s" using assms by induction (auto intro: ps_inv_new ps_inv_step)
  then show ?thesis by (simp add: ps_inv_def settings_are_def proxy_get_metrics_def)
qed

theorem proxy_server_invariant_witness:
  "rh_allowed_bucket (ps_request_handler (proxy_stop (new_proxy_server (default_proxy\<lparr>px_allowed_bucket := ''b''\<rparr>) None ()))) = ''b''"
proof -
  have "ps_reach (\<lambda>_ _. True) (ex_proxy []) (default_proxy\<lparr>px_allowed_bucket := ''b''\<rparr>)
      (proxy_stop (new_proxy_server (default_proxy\<lparr>px_allowed_bucket := ''b''\<rparr>) None ()))"
    by (rule ps_reach.Step [OF ps_reach.Init ps_step.Stop])
  from proxy_server_invariant [OF this] show ?thesis by simp
qed

end
