(* ===== verification/Oss_Client.thy ===== *)
theory Oss_Client
  imports S3_Client
begin

text \<open>
  The OSS client of \<open>src/storage/oss_client.cpp\<close>. It is an \<open>S3Client\<close> with its own signatures and URLs, so
  its state is the record of the S3 client and it inherits the operations on objects. HMAC-SHA1,
  \<open>EVP_EncodeBlock\<close> and the clock are parameters.
\<close>

record oss_env =
  os_hmac_sha1 :: "string \<Rightarrow> string \<Rightarrow> string"
  os_encode_block :: "string \<Rightarrow> string"
  os_time :: u64
  os_date :: string

definition hmac_sha1_base64 :: "oss_env \<Rightarrow> string \<Rightarrow> string \<Rightarrow> string" where
  "hmac_sha1_base64 A key data = os_encode_block A (os_hmac_sha1 A key data)"

definition url_encode_oss :: "string \<Rightarrow> string" where
  "url_encode_oss value = percent_encode unreserved value"

definition get_object_url :: "S3Client \<Rightarrow> string \<Rightarrow> string \<Rightarrow> string" where
  "get_object_url c bucket key = ''https://'' @ bucket @ ''.'' @ sg_endpoint (s3_config c) @ ''/'' @ key"

definition strip_port :: "string \<Rightarrow> string" where
  "strip_port e = (case rfind_char (CHR '':'') e of None \<Rightarrow> e | Some colon \<Rightarrow> take colon e)"

definition presigned_string_oss :: "string \<Rightarrow> string \<Rightarrow> string \<Rightarrow> string" where
  "presigned_string_oss expires bucket key = ''GET'' @ LF @ LF @ LF @ expires @ LF @ ''/'' @ bucket @ ''/'' @ key"

definition generate_presigned_url_internal_oss :: "oss_env \<Rightarrow> S3Client \<Rightarrow> string \<Rightarrow> string \<Rightarrow> u64 \<Rightarrow> string \<Rightarrow> string" where
  "generate_presigned_url_internal_oss A c bucket key expires_in query_params =
     (if \<not> has_credentials c then get_object_url c bucket key
      else let endpoint = strip_port (strip_scheme (sg_endpoint (s3_config c)));
               expires = to_string (unat (os_time A + expires_in));
               sig = hmac_sha1_base64 A (s3_secret_key c) (presigned_string_oss expires bucket key)
           in protocol_text c @ bucket @ ''.'' @ endpoint @ ''/'' @ key @ ''?OSSAccessKeyId='' @ s3_access_key c @
              ''&Expires='' @ expires @ ''&Signature='' @ url_encode_oss sig)"

definition generate_signed_url :: "oss_env \<Rightarrow> S3Client \<Rightarrow> string \<Rightarrow> string \<Rightarrow> u64 \<Rightarrow> string" where
  "generate_signed_url A c bucket key expires_in = generate_presigned_url_internal_oss A c bucket key expires_in ''''"

definition oss_generate_presigned_url :: "oss_env \<Rightarrow> S3Client \<Rightarrow> string \<Rightarrow> string \<Rightarrow> u64 \<Rightarrow> string" where
  "oss_generate_presigned_url A c bucket key expires_in = generate_presigned_url_internal_oss A c bucket key expires_in ''''"

text \<open>The header loop of \<open>sign_request_oss\<close>: \<open>content_md5\<close>, \<open>content_type\<close> and the sorted \<open>x-oss-\<close> headers.\<close>

definition oss_header_step :: "string \<times> string \<Rightarrow> string \<times> string \<times> (string \<times> string) list \<Rightarrow> string \<times> string \<times> (string \<times> string) list" where
  "oss_header_step h st =
     (case st of (md5, ctype, m) \<Rightarrow>
        let k = to_lower (fst h)
        in if k = ''content-md5'' then (snd h, ctype, m)
           else if k = ''content-type'' then (md5, snd h, m)
           else if take 6 k = ''x-oss-'' then (md5, ctype, smap_put k (snd h) m)
           else (md5, ctype, m))"

definition canonical_string_oss :: "string \<Rightarrow> string \<Rightarrow> string \<Rightarrow> string \<Rightarrow> (string \<times> string) list \<Rightarrow> string" where
  "canonical_string_oss meth date bucket key headers =
     (case fold oss_header_step headers ('''', '''', []) of (md5, ctype, m) \<Rightarrow>
        meth @ LF @ md5 @ LF @ ctype @ LF @ date @ LF @ concat (map (\<lambda>(n, v). n @ '':'' @ v @ LF) m) @
        ''/'' @ bucket @ ''/'' @ key)"

definition sign_request_oss ::
  "oss_env \<Rightarrow> S3Client \<Rightarrow> string \<Rightarrow> string \<Rightarrow> string \<Rightarrow> string \<Rightarrow> (string \<times> string) list \<Rightarrow> string \<Rightarrow> (string \<times> string) list" where
  "sign_request_oss A c meth bucket key query_string headers payload_hash =
     (if \<not> has_credentials c then []
      else [(''Date'', os_date A),
            (''Authorization'', ''OSS '' @ s3_access_key c @ '':'' @
               hmac_sha1_base64 A (s3_secret_key c) (canonical_string_oss meth (os_date A) bucket key headers))])"

definition authenticate_request_oss ::
  "oss_env \<Rightarrow> S3Client \<Rightarrow> string \<Rightarrow> string \<Rightarrow> string \<Rightarrow> (string \<times> string) list \<Rightarrow> string \<Rightarrow> AuthenticatedRequest" where
  "authenticate_request_oss A c meth bucket key original_headers original_query =
     (let url = get_object_url c bucket key
      in if original_query \<noteq> '''' then
           (let has_sig = str_contains ''OSSAccessKeyId'' original_query \<or> str_contains ''Signature'' original_query
            in \<lparr>ar_url = (if has_sig \<and> has_credentials c then generate_presigned_url_internal_oss A c bucket key 3600 original_query
                           else url @ ''?'' @ original_query),
                ar_headers = [], ar_needs_passthrough = False\<rparr>)
         else if ''Authorization'' \<in> fst ` set original_headers then
           \<lparr>ar_url = url,
            ar_headers = (if has_credentials c
                          then original_headers @ sign_request_oss A c meth bucket key '''' original_headers '''' else original_headers),
            ar_needs_passthrough = False\<rparr>
         else \<lparr>ar_url = url, ar_headers = [], ar_needs_passthrough = (s3_access_key c = '''')\<rparr>)"

definition set_bucket_lifecycle :: "string \<Rightarrow> string \<Rightarrow> int \<Rightarrow> bool" where
  "set_bucket_lifecycle bucket rule_id days = True"

definition enable_bucket_cors :: "string \<Rightarrow> string list \<Rightarrow> string list \<Rightarrow> bool" where
  "enable_bucket_cors bucket allowed_origins allowed_methods = True"

section \<open>Signatures\<close>

text \<open>What the service computes from the headers of a request: the values of two headers, the date and the sorted
  \<open>x-oss-\<close> headers, found by name.\<close>

definition oss_get :: "(string \<times> string) list \<Rightarrow> string \<Rightarrow> string" where
  "oss_get hs n = (case map_of (rev (map (\<lambda>(k, v). (to_lower k, v)) hs)) n of Some v \<Rightarrow> v | None \<Rightarrow> '''')"

definition oss_server_string :: "string \<Rightarrow> string \<Rightarrow> string \<Rightarrow> (string \<times> string) list \<Rightarrow> string" where
  "oss_server_string meth bucket key hs =
     meth @ LF @ oss_get hs ''content-md5'' @ LF @ oss_get hs ''content-type'' @ LF @ oss_get hs ''date'' @ LF @
     concat (map (\<lambda>n. n @ '':'' @ oss_get hs n @ LF)
       (sorted_list_of_set (set (filter (\<lambda>n. take 6 n = ''x-oss-'') (map (to_lower \<circ> fst) hs))))) @
     ''/'' @ bucket @ ''/'' @ key"

lemma oss_fold:
  "fold oss_header_step hs (a, b, m) =
     (let g = map_of (rev (map (\<lambda>(k, v). (to_lower k, v)) hs))
      in (case g ''content-md5'' of Some v \<Rightarrow> v | None \<Rightarrow> a, case g ''content-type'' of Some v \<Rightarrow> v | None \<Rightarrow> b,
          fold (\<lambda>(k, v). smap_put (to_lower k) v) (filter (\<lambda>(k, v). take 6 (to_lower k) = ''x-oss-'') hs) m))"
proof (induction hs arbitrary: a b m)
  case (Cons h hs)
  obtain k v where h: "h = (k, v)" by (cases h)
  define l where "l = to_lower k"
  have "take 6 l \<noteq> ''x-oss-''" if "l = ''content-md5'' \<or> l = ''content-type''" using that by auto
  then have step: "oss_header_step h (a, b, m) = (if l = ''content-md5'' then v else a, if l = ''content-type'' then v else b,
      if take 6 l = ''x-oss-'' then smap_put l v m else m)"
    by (auto simp: h oss_header_step_def l_def)
  show ?case
    unfolding fold_simps step Cons.IH
    by (auto simp: h Let_def map_add_def l_def [symmetric] split: option.split)
qed simp

lemma oss_fold_map:
  "map_of (fold (\<lambda>(k, v). smap_put (to_lower k) v) hs m) n =
     (case map_of (rev (map (\<lambda>(k, v). (to_lower k, v)) hs)) n of Some v \<Rightarrow> Some v | None \<Rightarrow> map_of m n)"
  by (induction hs arbitrary: m) (auto simp: map_add_def split: option.split)

lemma oss_filter_get:
  "map_of (rev (map (\<lambda>(k, v). (to_lower k, v)) (filter (\<lambda>(k, v). take 6 (to_lower k) = ''x-oss-'') hs))) n =
     (if take 6 n = ''x-oss-'' then map_of (rev (map (\<lambda>(k, v). (to_lower k, v)) hs)) n else None)"
  by (induction hs) (auto simp: map_add_def split: option.split)

lemma oss_fold_wf: "smap_wf m \<Longrightarrow> smap_wf (fold (\<lambda>(k, v). smap_put (to_lower k) v) hs m)"
  by (induction hs arbitrary: m) (auto simp: smap_wf_put)

lemma smap_enum:
  assumes "smap_wf m"
  shows "m = map (\<lambda>n. (n, the (map_of m n))) (sorted_list_of_set (dom (map_of m)))"
proof -
  have s: "sorted (map fst m)" "distinct (map fst m)" using assms by (simp_all add: smap_wf_def strict_sorted_iff)
  then have "map fst m = sorted_list_of_set (fst ` set m)"
    by (metis set_map sorted_list_of_set.idem_if_sorted_distinct)
  moreover have "m = map (\<lambda>n. (n, the (map_of m n))) (map fst m)"
    using s(2) by (auto intro!: map_idI [symmetric] simp: comp_def)
  ultimately show ?thesis by (metis dom_map_of_conv_image_fst)
qed

text \<open>The string that is signed is the one the service computes from the headers with the signature appended.\<close>

lemma oss_strings_agree:
  assumes "has_credentials c" and "sent = hs @ sign_request_oss A c meth bucket key query hs payload"
  shows "oss_server_string meth bucket key sent = canonical_string_oss meth (os_date A) bucket key hs"
proof -
  let ?lower = "map (\<lambda>(k, v). (to_lower k, v))"
  define m where "m = fold (\<lambda>(k, v). smap_put (to_lower k) v) (filter (\<lambda>(k, v). take 6 (to_lower k) = ''x-oss-'') hs) []"
  have f: "fold oss_header_step hs ('''', '''', []) = (oss_get hs ''content-md5'', oss_get hs ''content-type'', m)"
    by (simp add: oss_fold Let_def oss_get_def m_def)
  have low: "to_lower ''Date'' = ''date''" "to_lower ''Authorization'' = ''authorization''" by code_simp+
  obtain sig where sent: "sent = hs @ [(''Date'', os_date A), (''Authorization'', sig)]"
    using assms by (auto simp: sign_request_oss_def)
  have get: "map_of (rev (?lower sent)) n = map_of (rev (?lower hs)) n" if "n \<noteq> ''date''" "n \<noteq> ''authorization''" for n
    using that by (simp add: sent low)
  have "oss_get sent n = oss_get hs n" if "n \<noteq> ''date''" "n \<noteq> ''authorization''" for n
    using get [OF that] by (simp only: oss_get_def)
  from this [of "''content-md5''"] this [of "''content-type''"]
  have fields: "oss_get sent ''content-md5'' = oss_get hs ''content-md5''" "oss_get sent ''content-type'' = oss_get hs ''content-type''"
    by simp_all
  have date: "oss_get sent ''date'' = os_date A" by (simp add: oss_get_def sent low)
  have m: "map_of m n = (if take 6 n = ''x-oss-'' then map_of (rev (?lower hs)) n else None)" for n
    unfolding m_def oss_fold_map oss_filter_get by (simp split: option.split)
  have "dom (map_of (rev (?lower hs))) = (to_lower \<circ> fst) ` set hs"
    by (force simp: dom_map_of_conv_image_fst)
  then have "dom (map_of m) = {n \<in> (to_lower \<circ> fst) ` set hs. take 6 n = ''x-oss-''}"
    by (auto simp: m dom_def split: if_splits)
  then have dom: "dom (map_of m) = set (filter (\<lambda>n. take 6 n = ''x-oss-'') (map (to_lower \<circ> fst) sent))"
    by (auto simp: sent low)
  have val: "oss_get sent n = the (map_of m n)" if "n \<in> dom (map_of m)" for n
  proof -
    have "take 6 n = ''x-oss-''" using that by (auto simp: m split: if_splits)
    then have "n \<noteq> ''date''" "n \<noteq> ''authorization''" by auto
    then show ?thesis using that get [of n] by (auto simp: oss_get_def m split: if_splits)
  qed
  have "smap_wf m" unfolding m_def by (rule oss_fold_wf) (simp add: smap_wf_def)
  from smap_enum [OF this] have "concat (map (\<lambda>(n, v). n @ '':'' @ v @ LF) m) =
      concat (map (\<lambda>n. n @ '':'' @ the (map_of m n) @ LF) (sorted_list_of_set (dom (map_of m))))"
    by (metis (mono_tags, lifting) case_prod_conv map_map comp_apply map_cong)
  also have "\<dots> = concat (map (\<lambda>n. n @ '':'' @ oss_get sent n @ LF) (sorted_list_of_set (dom (map_of m))))"
  proof -
    have "finite (dom (map_of m))" by (simp add: finite_dom_map_of)
    then show ?thesis by (intro arg_cong [where f = concat] map_cong) (simp_all add: val)
  qed
  finally show ?thesis by (simp only: oss_server_string_def canonical_string_oss_def f case_prod_conv fields date dom)
qed

text \<open>A request that carried a signature of its own is signed again for OSS so that it verifies: the service computes, from
  the headers that are forwarded, the string that was signed with the secret of this client.\<close>

theorem oss_signature_verifies:
  assumes "has_credentials c" and "''Authorization'' \<in> fst ` set hs"
  shows "oss_get (ar_headers (authenticate_request_oss A c meth bucket key hs '''')) ''authorization'' =
    ''OSS '' @ s3_access_key c @ '':'' @ hmac_sha1_base64 A (s3_secret_key c)
      (oss_server_string meth bucket key (ar_headers (authenticate_request_oss A c meth bucket key hs '''')))"
proof -
  define sent where "sent = hs @ sign_request_oss A c meth bucket key '''' hs ''''"
  have "ar_headers (authenticate_request_oss A c meth bucket key hs '''') = sent"
    using assms by (simp add: authenticate_request_oss_def sent_def Let_def)
  moreover have "to_lower ''Date'' = ''date''" "to_lower ''Authorization'' = ''authorization''" by code_simp+
  then have "oss_get sent ''authorization'' = ''OSS '' @ s3_access_key c @ '':'' @
      hmac_sha1_base64 A (s3_secret_key c) (canonical_string_oss meth (os_date A) bucket key hs)"
    using assms(1) by (simp add: sent_def sign_request_oss_def oss_get_def)
  ultimately show ?thesis using oss_strings_agree [OF assms(1) sent_def] by simp
qed

theorem oss_signature_verifies_witness:
  "oss_get (ar_headers (authenticate_request_oss \<lparr>os_hmac_sha1 = (@), os_encode_block = rev, os_time = 7, os_date = ''d''\<rparr>
      ex_s3 ''GET'' ''b'' ''k'' [(''Authorization'', ''x''), (''X-Oss-B'', ''2''), (''x-oss-a'', ''1'')] '''')) ''authorization'' =
    ''OSS '' @ s3_access_key ex_s3 @ '':'' @
    hmac_sha1_base64 \<lparr>os_hmac_sha1 = (@), os_encode_block = rev, os_time = 7, os_date = ''d''\<rparr> (s3_secret_key ex_s3)
      (oss_server_string ''GET'' ''b'' ''k'' (ar_headers (authenticate_request_oss
        \<lparr>os_hmac_sha1 = (@), os_encode_block = rev, os_time = 7, os_date = ''d''\<rparr> ex_s3 ''GET'' ''b'' ''k''
        [(''Authorization'', ''x''), (''X-Oss-B'', ''2''), (''x-oss-a'', ''1'')] '''')))"
  by (rule oss_signature_verifies [OF ex_has]) simp

text \<open>The operations on objects that the client inherits are signed for S3, never for OSS.\<close>

lemma oss_objects_signed_as_s3:
  assumes "create_backend cfg = OSS" and "c = new_s3_client cfg" and "has_credentials c"
    and "(to_lower \<circ> fst) ` set hs \<inter> {''host'', ''x-amz-date'', ''x-amz-content-sha256'', ''authorization''} = {}"
  shows "\<exists>rest. header_on_wire (prepare_request C ts c meth bucket key query hs body ctype) ''authorization'' =
    Some (''AWS4-HMAC-SHA256 Credential='' @ rest)"
  using wire_header_prepared(2) [OF assms(3,4) refl refl refl] by (simp add: authorization_text_def)

end
