(* ===== verification/S3_Service.thy ===== *)
theory S3_Service
  imports S3_Client
begin

text \<open>
  The proxy over the S3 client over an S3 service. The service is an assumption on \<open>en_send\<close>: it
  answers only requests whose signature it can recompute, and those as RFC 9110 says. The client meets
  what the request handler expects of its storage, so a \<open>GET\<close> at the proxy returns what the service holds.
\<close>

section \<open>The service\<close>

definition authorized :: "crypto \<Rightarrow> time_stamps \<Rightarrow> S3Client \<Rightarrow> wire_request \<Rightarrow> bool" where
  "authorized C ts c q \<longleftrightarrow>
     (\<exists>names. sorted_wrt (<) names \<and> {''host'', ''x-amz-date'', ''x-amz-content-sha256''} \<subseteq> set names \<and>
        header_on_wire q ''authorization'' = Some (authorization_text (s3_access_key c) ts (signing_region c) names
          (signature C ts (s3_secret_key c) (signing_region c) (server_canonical q names))))"

definition s3_service :: "'w storage_env \<Rightarrow> S3Client \<Rightarrow> string \<Rightarrow> string \<Rightarrow> bytes \<Rightarrow> bool" where
  "s3_service E c bucket key obj \<longleftrightarrow>
     (let url = build_object_url c bucket key True
      in en_url_ok E url \<and>
         (\<forall>q w. wq_path q = ''/'' @ bucket @ ''/'' @ url_encode_path key \<and> wq_query q = '''' \<and>
            authorized (en_crypto E) (en_clock E w) c q \<longrightarrow>
            (wq_method q = ''HEAD'' \<longrightarrow>
               (\<exists>a w'. en_send E q url w = (Some a, w') \<and> ha_status a = 200 \<and>
                  ha_header a ''Content-Length'' = to_string (length obj))) \<and>
            (\<forall>x y. wq_method q = ''GET'' \<and> x \<le> y \<and> y < length obj \<and>
               header_on_wire q ''range'' = Some (''bytes='' @ to_string x @ ''-'' @ to_string y) \<longrightarrow>
               (\<exists>a w'. en_send E q url w = (Some a, w') \<and> ha_status a = 206 \<and>
                  ha_body a = to_str (slice_of obj x (y + 1))))))"

section \<open>The client over it\<close>

lemma lower_range: "to_lower ''Range'' = ''range''"
  by code_simp

lemma prepared_authorized:
  assumes "has_credentials c" and "bucket \<noteq> ''''" and "clean (host_header c)" and "clean (ts_amz_date ts)"
    and "hs = [] \<or> hs = [(''Range'', v)]" and "q = prepare_request C ts c meth bucket key query hs body ctype"
  shows "authorized C ts c q"
proof -
  have "(to_lower \<circ> fst) ` set hs \<inter> {''host'', ''x-amz-date'', ''x-amz-content-sha256'', ''authorization''} = {}"
    using assms(5) lower_range by auto
  from signed_request_verifies [OF assms(1,2) this assms(3,4,6)] show ?thesis unfolding authorized_def by auto
qed

lemma prepared_request:
  assumes "q = prepare_request C ts c meth bucket key '''' hs body ctype"
  shows "wq_path q = ''/'' @ bucket @ ''/'' @ url_encode_path key" "wq_query q = ''''" "wq_method q = meth"
    "hs = [(''Range'', v)] \<Longrightarrow> header_on_wire q ''range'' = Some v"
  using assms
  by (simp_all add: prepare_request_def Let_def canonicalize_query_string_def query_text_def header_on_wire_def lower_range)

lemma range_value_nat:
  assumes "0 < unat len" and "unat off + unat len < 2 ^ 64"
  shows "range_value off len = ''bytes='' @ to_string (unat off) @ ''-'' @ to_string (unat off + unat len - 1)"
proof -
  have "unat (off + len - 1) = unat off + unat len - 1"
    using assms by (simp add: unat_sub_if' unat_plus_if' word_le_nat_alt)
  moreover have "len > 0" using assms(1) by (simp add: word_less_nat_alt)
  ultimately show ?thesis by (simp add: range_value_def)
qed

lemma s3_head_size:
  assumes "s3_service E c bucket key obj" and "has_credentials c" and "bucket \<noteq> ''''" and "clean (host_header c)"
    and "\<And>w. clean (ts_amz_date (en_clock E w))" and "length obj < 2 ^ 64"
  shows "\<exists>md w'. head_object (s3_storage E c) bucket key w = (Some md, w') \<and> om_size md = size64 obj"
proof -
  define q where "q = prepare_request (en_crypto E) (en_clock E w) c ''HEAD'' bucket key '''' [] '''' ''''"
  have "authorized (en_crypto E) (en_clock E w) c q"
    by (rule prepared_authorized [OF assms(2,3,4,5) _ q_def]) simp
  then obtain a w' where a: "en_send E q (build_object_url c bucket key True) w = (Some a, w')" "ha_status a = 200"
      "ha_header a ''Content-Length'' = to_string (length obj)" "en_url_ok E (build_object_url c bucket key True)"
    using assms(1) prepared_request [OF q_def] unfolding s3_service_def Let_def by blast
  then have "execute_request E c ''HEAD'' bucket key '''' [] '''' '''' w = (Some a, w')"
    by (simp add: execute_request_def Let_def q_def)
  with a(2,3) stoull_to_string [OF assms(6)] show ?thesis
    by (simp add: s3_storage_def s3_head_object_def ObjectMetadata.truncate_def size64_def)
qed

lemma s3_get_slice:
  assumes "s3_service E c bucket key obj" and "has_credentials c" and "bucket \<noteq> ''''" and "clean (host_header c)"
    and "\<And>w. clean (ts_amz_date (en_clock E w))" and "length obj < 2 ^ 64"
    and len: "0 < unat len" "unat off + unat len \<le> length obj"
  shows "\<exists>w'. get_object (s3_storage E c) bucket key off len w = (Some (take (unat len) (drop (unat off) obj)), w')"
proof -
  let ?hs = "[(''Range'', range_value off len)]"
  define q where "q = prepare_request (en_crypto E) (en_clock E w) c ''GET'' bucket key '''' ?hs '''' ''''"
  have "authorized (en_crypto E) (en_clock E w) c q"
    by (rule prepared_authorized [OF assms(2,3,4,5) _ q_def]) simp
  moreover have "range_value off len = ''bytes='' @ to_string (unat off) @ ''-'' @ to_string (unat off + unat len - 1)"
    by (rule range_value_nat) (use len assms(6) in simp_all)
  then have "header_on_wire q ''range'' = Some (''bytes='' @ to_string (unat off) @ ''-'' @ to_string (unat off + unat len - 1))"
    using prepared_request(4) [OF q_def refl] by simp
  moreover have "unat off \<le> unat off + unat len - 1" "unat off + unat len - 1 < length obj" using len by simp_all
  ultimately obtain a w' where a: "en_send E q (build_object_url c bucket key True) w = (Some a, w')" "ha_status a = 206"
      "ha_body a = to_str (slice_of obj (unat off) (unat off + unat len - 1 + 1))" "en_url_ok E (build_object_url c bucket key True)"
    using assms(1) prepared_request(1,2,3) [OF q_def] unfolding s3_service_def Let_def by blast
  then have "execute_request E c ''GET'' bucket key '''' ?hs '''' '''' w = (Some a, w')"
    by (simp add: execute_request_def Let_def q_def)
  moreover have "len > 0" using len(1) by (simp add: word_less_nat_alt)
  ultimately show ?thesis using a(2,3) len(1) by (simp add: s3_storage_def s3_get_object_def slice_of_def)
qed

lemma s3_origin_serves:
  assumes "s3_service E c (ci_bucket info) (ci_object_key info) obj" and "has_credentials c" and "ci_bucket info \<noteq> ''''"
    and "clean (host_header c)" and "\<And>w. clean (ts_amz_date (en_clock E w))" and "length obj < 2 ^ 64"
    and "pe_storage env = Some (s3_storage E c)"
  shows "origin_serves env info obj"
  unfolding origin_serves_def using assms(7) s3_head_size [OF assms(1-6)] s3_get_slice [OF assms(1-6)] by blast

section \<open>An example\<close>

text \<open>A service with one object of three bytes.\<close>

definition ex_service :: "unit storage_env" where
  "ex_service = \<lparr>en_crypto = ex_crypto, en_clock = (\<lambda>_. ex_stamps), en_url_ok = (\<lambda>_. True),
     en_send = (\<lambda>q url w.
       (if wq_method q = ''HEAD'' then Some \<lparr>ha_status = 200, ha_header = (\<lambda>n. if n = ''Content-Length'' then ''3'' else ''''), ha_body = ''''\<rparr>
        else case header_on_wire q ''range'' of
               None \<Rightarrow> None
             | Some v \<Rightarrow> (let rng = parse_range_header v 3
                          in if br_valid rng
                             then Some \<lparr>ha_status = 206, ha_header = (\<lambda>_. ''''),
                                        ha_body = to_str (slice_of [7, 8, 9] (unat (br_start rng)) (unat (br_end rng) + 1))\<rparr>
                             else None), w)),
     en_indeterminate = (\<lambda>_. 0)\<rparr>"

lemma ex_range:
  assumes "x \<le> y" and "y < 3"
  shows "parse_range_header (''bytes='' @ to_string x @ ''-'' @ to_string y) 3 = \<lparr>br_start = of_nat x, br_end = of_nat y, br_valid = True\<rparr>"
proof -
  have "x = 0 \<or> x = 1 \<or> x = 2" "y = 0 \<or> y = 1 \<or> y = 2" using assms by auto
  moreover have "to_string 0 = ''0''" "to_string 1 = ''1''" "to_string (Suc 0) = ''1''" "to_string 2 = ''2''" by code_simp+
  ultimately show ?thesis using assms
    by (elim disjE) (simp_all add: parse_range_header_def starts_with_def parse_range_spec_def stoull_def strtoull_def
        split_sign_def isspace_def isdigit_def digits_val_def)
qed

lemma ex_service_ok: "s3_service ex_service ex_s3 bucket key [7, 8, 9]"
proof -
  have "unat (of_nat y :: u64) = y" if "y < 3" for y using that by (simp add: unat_of_nat take_bit_nat_eq_self)
  moreover have "to_string (Suc (Suc (Suc 0))) = ''3''" by code_simp
  ultimately show ?thesis
    using ex_range by (auto simp: s3_service_def ex_service_def Let_def)
qed

definition ex_s3_proxy :: "unit proxy_env" where
  "ex_s3_proxy = (ex_proxy [])\<lparr>pe_storage := Some (s3_storage ex_service ex_s3)\<rparr>"

end
