(* ===== verification/Application.thy ===== *)
theory Application
  imports Proxy_Server Oss_Client S3_Service
begin

text \<open>
  The program (\<open>main.cpp\<close>): reading the configuration, building and connecting the components, starting and stopping them,
  and the exit code. The objects that the components share live once: the cache manager inside the request handler of the proxy
  server, the transfer manager and the node discovery in its world. A pointer that may be null is an
  option, and following it when it is null is \<open>Undefined\<close>. Bindings, the clock, the number of processors and the
  arrival of a signal are parameters.
\<close>

section \<open>Components\<close>

type_synonym node_world = "TransferManager \<times> NodeDiscovery option"

record Application =
  ap_scheduler_threads :: "u64 option"
  ap_storage_client :: "(StorageBackend \<times> S3Client) option"
  ap_proxy_server :: "node_world ProxyServer option"
  ap_control_client :: "unit ControlPlaneClient option"
  ap_control_plane_server :: "ControlPlaneServer option"

record platform =
  pf_config_env :: config_env
  pf_cli :: cli_parser
  pf_fs :: FileSystem
  pf_clocks :: clocks
  pf_now :: int
  pf_processors :: u64
  pf_loop_exited :: bool

definition nd_set_scheduler :: "bool \<Rightarrow> NodeDiscovery \<Rightarrow> NodeDiscovery" where
  "nd_set_scheduler given s = s\<lparr>has_scheduler := given\<rparr>"

text \<open>The backend and the state of the storage client; \<open>set_scheduler\<close> of the client does nothing.\<close>

definition create_storage :: "StorageConfig \<Rightarrow> StorageBackend \<times> S3Client" where
  "create_storage cfg = (create_backend cfg, new_s3_client cfg)"

definition open_cache :: "FileSystem \<Rightarrow> CacheConfig \<Rightarrow> ChunkManager" where
  "open_cache fs cfg =
     (let cm = new_chunk_manager fs cfg
      in if cfg_disk_cache_path cfg = '''' then cm
         else snd (initialize_disk_cache (set_disk_cache_path (cfg_disk_cache_path cfg) cm)))"

text \<open>The callbacks by which peers read from and write to the cache of the node.\<close>

definition node_callbacks :: "(bytes \<Rightarrow> string) \<Rightarrow> u64 \<Rightarrow> ChunkManager callbacks" where
  "node_callbacks sha now =
     \<lparr>provider = Some (\<lambda>chunk_id cm. map_option (\<lambda>(c, cm'). (map_option ck_data c, cm')) (get_chunk now chunk_id cm)),
      consumer = Some (\<lambda>chunk_id data cm. store_chunk sha now chunk_id data cm)\<rparr>"

definition build_node :: "platform \<Rightarrow> GlobalConfig \<Rightarrow> Application \<Rightarrow> Application" where
  "build_node P g a =
     (let cm = open_cache (pf_fs P) (g_cache g);
          nd = nd_set_scheduler True (new_node_discovery (pf_clocks P) (cfg_max_peers (g_p2p g)));
          tm = set_scheduler True (new_transfer_manager (pf_now P) (pf_fs P) (g_p2p g))
      in a\<lparr>ap_storage_client := Some (create_storage (g_storage g)),
           ap_proxy_server := Some (proxy_set_scheduler True (new_proxy_server (g_proxy g) (Some cm) (tm, Some nd))),
           ap_control_client := Some (new_control_client (g_control_plane g))\<rparr>)"

definition build_application :: "platform \<Rightarrow> ConfigState \<Rightarrow> Application" where
  "build_application P c =
     (let g = st_config c;
          threads = (if cfg_worker_threads (g_p2p g) > 0 then cfg_worker_threads (g_p2p g) else pf_processors P);
          a = \<lparr>ap_scheduler_threads = Some threads, ap_storage_client = None, ap_proxy_server = None, ap_control_client = None,
               ap_control_plane_server = None\<rparr>
      in if st_server_mode c then a\<lparr>ap_control_plane_server := Some (new_control_server (g_control_plane_server g))\<rparr>
         else build_node P g a)"

text \<open>\<open>None\<close> does not return, \<open>Inl\<close> is an exception, and \<open>Inr (None, c)\<close> a request for help, a version or an error of the arguments.\<close>

definition app_initialize :: "platform \<Rightarrow> string list \<Rightarrow> ConfigState \<Rightarrow> (config_error + (Application option \<times> ConfigState)) option" where
  "app_initialize P argv c =
     (case load_from_env (pf_config_env P) c of
        Inl e \<Rightarrow> Some (Inl e)
      | Inr (ok, c1) \<Rightarrow>
          (case parse_command_line (pf_config_env P) (pf_cli P) argv c1 of
             None \<Rightarrow> None
           | Some (Inl e) \<Rightarrow> Some (Inl e)
           | Some (Inr (False, c2)) \<Rightarrow> Some (Inr (None, c2))
           | Some (Inr (True, c2)) \<Rightarrow> Some (Inr (Some (build_application P c2), c2))))"

definition start_node :: "platform \<Rightarrow> node_world ProxyServer \<Rightarrow> (bool \<times> node_world ProxyServer) run" where
  "start_node P s =
     (let h = ps_request_handler s;
          (tm, nd) = rh_world h;
          w = (snd (tm_start tm), map_option nd_start nd);
          s1 = proxy_set_transfer_manager True (s\<lparr>ps_request_handler := h\<lparr>rh_world := w\<rparr>\<rparr>)
      in case proxy_start s1 of None \<Rightarrow> Undefined | Some ((ok, target), s2) \<Rightarrow> Done (ok, s2))"

definition app_start :: "platform \<Rightarrow> bool \<Rightarrow> Application \<Rightarrow> (bool \<times> Application) run" where
  "app_start P server_mode a =
     (if server_mode
      then (case ap_control_plane_server a of
              None \<Rightarrow> Undefined
            | Some cs \<Rightarrow>
                (case server_start cs of
                   None \<Rightarrow> Undefined
                 | Some (cs', target, only, ok) \<Rightarrow> Done (ok, a\<lparr>ap_control_plane_server := Some cs'\<rparr>)))
      else (case ap_proxy_server a of
              None \<Rightarrow> Undefined
            | Some s \<Rightarrow>
                (case start_node P s of
                   Done (ok, s') \<Rightarrow> Done (ok, a\<lparr>ap_proxy_server := Some s'\<rparr>)
                 | Raised \<Rightarrow> Raised
                 | Undefined \<Rightarrow> Undefined)))"

definition stop_node :: "platform \<Rightarrow> node_world ProxyServer \<Rightarrow> node_world ProxyServer" where
  "stop_node P s =
     (let s1 = proxy_stop s; h = ps_request_handler s1; (tm, nd) = rh_world h
      in s1\<lparr>ps_request_handler := h\<lparr>rh_world := (tm_stop (pf_loop_exited P) tm, map_option nd_stop nd)\<rparr>\<rparr>)"

definition app_stop :: "platform \<Rightarrow> bool \<Rightarrow> Application \<Rightarrow> Application" where
  "app_stop P server_mode a =
     (if server_mode then a\<lparr>ap_control_plane_server := map_option server_stop (ap_control_plane_server a)\<rparr>
      else a\<lparr>ap_control_client := map_option disconnect (ap_control_client a),
             ap_proxy_server := map_option (stop_node P) (ap_proxy_server a)\<rparr>)"

text \<open>The destructor of the application, and then those of its members.\<close>

definition app_destroy :: "platform \<Rightarrow> Application \<Rightarrow> Application" where
  "app_destroy P a =
     (let a1 = a\<lparr>ap_proxy_server := map_option proxy_stop (ap_proxy_server a),
                 ap_control_plane_server := map_option server_stop (ap_control_plane_server a), ap_scheduler_threads := None\<rparr>
      in app_stop P True (app_stop P False a1))"

section \<open>What happens between start and stop\<close>

text \<open>
  A connection to the transfer server: the peer reads from the cache or pushes a chunk into it. \<open>None\<close> is a call that does
  not return.
\<close>

definition serve_peer ::
  "'s stream_ops \<Rightarrow> (bytes \<Rightarrow> bytes) \<Rightarrow> (bytes \<Rightarrow> string) \<Rightarrow> endian \<Rightarrow> (nat \<Rightarrow> int) \<Rightarrow> u64 \<Rightarrow> 's \<Rightarrow>
     node_world ProxyServer \<Rightarrow> node_world ProxyServer option" where
  "serve_peer ops sha digest e clk now conn s =
     (let h = ps_request_handler s; (tm, nd) = rh_world h
      in case rh_cache_manager h of
           None \<Rightarrow> Some s
         | Some cm \<Rightarrow>
             (case handle_chunk_request ops sha e clk (node_callbacks digest now) (upload_limiter tm) conn cm of
                None \<Rightarrow> None
              | Some (l, _, cm') \<Rightarrow>
                  Some (s\<lparr>ps_request_handler := h\<lparr>rh_cache_manager := Some cm', rh_world := (tm\<lparr>upload_limiter := l\<rparr>, nd)\<rparr>\<rparr>)))"

definition node_start_task :: "u16 option \<Rightarrow> node_world ProxyServer \<Rightarrow> node_world ProxyServer" where
  "node_start_task bnd s =
     (let h = ps_request_handler s; (tm, nd) = rh_world h in s\<lparr>ps_request_handler := h\<lparr>rh_world := (run_start_task bnd tm, nd)\<rparr>\<rparr>)"

text \<open>What a started node does: the start of the transfer server, HTTP requests, and connections of peers while that server runs.\<close>

inductive node_step :: "(string \<Rightarrow> string \<Rightarrow> bool) \<Rightarrow> node_world proxy_env \<Rightarrow> 's stream_ops \<Rightarrow> node_world ProxyServer \<Rightarrow> node_world ProxyServer \<Rightarrow> bool"
  for matches :: "string \<Rightarrow> string \<Rightarrow> bool" and env :: "node_world proxy_env" and ops :: "'s stream_ops" where
  ns_start_task: "node_step matches env ops s (node_start_task bnd s)"
| ns_http: "serve_http matches env q s = Some (r, s') \<Longrightarrow> node_step matches env ops s s'"
| ns_peer: "tcp_server_running (fst (rh_world (ps_request_handler s))) \<Longrightarrow>
    serve_peer ops sha digest e clk now conn s = Some s' \<Longrightarrow> node_step matches env ops s s'"

inductive app_step :: "(string \<Rightarrow> string \<Rightarrow> bool) \<Rightarrow> node_world proxy_env \<Rightarrow> 's stream_ops \<Rightarrow> 'j json_api \<Rightarrow> Application \<Rightarrow> Application \<Rightarrow> bool"
  for matches :: "string \<Rightarrow> string \<Rightarrow> bool" and env :: "node_world proxy_env" and ops :: "'s stream_ops" and J :: "'j json_api" where
  as_node: "ap_proxy_server a = Some s \<Longrightarrow> node_step matches env ops s s' \<Longrightarrow> app_step matches env ops J a (a\<lparr>ap_proxy_server := Some s'\<rparr>)"
| as_control: "ap_control_plane_server a = Some cs \<Longrightarrow> serve J ms q cs = (cs', r) \<Longrightarrow>
    app_step matches env ops J a (a\<lparr>ap_control_plane_server := Some cs'\<rparr>)"

section \<open>The main program\<close>

definition main_log_level :: "config_env \<Rightarrow> LogLevel option" where
  "main_log_level E =
     map_option (\<lambda>v. let l = to_lower v
                     in if l = ''debug'' then Debug
                        else if l = ''warning'' \<or> l = ''warn'' then Warning
                        else if l = ''error'' \<or> l = ''err'' then Error else Info) (ce_getenv E ''ELIOP2P_LOG_LEVEL'')"

definition signal_handler :: "int \<Rightarrow> bool \<Rightarrow> bool" where
  "signal_handler sig running = (if sig = 2 \<or> sig = 15 then False else running)"

text \<open>The main loop polls \<open>g_running\<close> between the signals that arrive; \<open>None\<close> is a loop that none of them ends.\<close>

fun run_loop :: "int list \<Rightarrow> unit option" where
  "run_loop [] = None"
| "run_loop (sig # sigs) = (if signal_handler sig True then run_loop sigs else Some ())"

text \<open>
  The exit code, and the components as they are then. \<open>served\<close> is what the started components have become when the signal
  arrives, or \<open>None\<close> if they did something undefined. The result is \<open>None\<close> for a program that does not come to its end: a main loop
  without a signal, or the recursion of the configuration loader, which only the end of the stack stops.
\<close>

definition main_program ::
  "platform \<Rightarrow> string list \<Rightarrow> int list \<Rightarrow> (Application \<Rightarrow> Application option) \<Rightarrow> LogLevel \<Rightarrow> ((nat \<times> Application option) run) option" where
  "main_program P argv signals served level =
     (let c = initial_config_state (case main_log_level (pf_config_env P) of None \<Rightarrow> level | Some l \<Rightarrow> l)
      in case app_initialize P argv c of
           None \<Rightarrow> None
         | Some (Inl e) \<Rightarrow> Some (Done (1, None))
         | Some (Inr (None, c1)) \<Rightarrow> Some (Done (0, None))
         | Some (Inr (Some a, c1)) \<Rightarrow>
             (case app_start P (st_server_mode c1) a of
                Undefined \<Rightarrow> Some Undefined
              | Raised \<Rightarrow> Some (Done (1, None))
              | Done (False, a1) \<Rightarrow> Some (Done (1, Some (app_destroy P a1)))
              | Done (True, a1) \<Rightarrow>
                  (case (run_loop signals, served a1) of
                     (None, _) \<Rightarrow> None
                   | (Some _, None) \<Rightarrow> Some Undefined
                   | (Some _, Some a2) \<Rightarrow> Some (Done (0, Some (app_destroy P (app_stop P (st_server_mode c1) a2)))))))"

section \<open>Every component is there\<close>

definition app_wf :: "bool \<Rightarrow> Application \<Rightarrow> bool" where
  "app_wf server_mode a \<longleftrightarrow>
     (ap_control_plane_server a \<noteq> None) = server_mode \<and> (ap_proxy_server a \<noteq> None) = (\<not> server_mode) \<and>
     (ap_control_client a \<noteq> None) = (\<not> server_mode) \<and> (ap_storage_client a \<noteq> None) = (\<not> server_mode)"

lemma build_wf: "app_wf (st_server_mode c) (build_application P c)"
  by (simp add: app_wf_def build_application_def build_node_def Let_def)

text \<open>A proxy server that is not running is started, with its transfer manager and node discovery.\<close>

lemma start_node_fresh:
  assumes "\<not> ps_thread_joinable s" and "rh_world (ps_request_handler s) = (tm, nd)"
  shows "\<exists>s'. start_node P s = Done (True, s') \<and> ps_running s' \<and> ps_routes s' = Some proxy_routes \<and>
    rh_world (ps_request_handler s') = (snd (tm_start tm), map_option nd_start nd)"
  using assms by (simp add: start_node_def proxy_start_def proxy_set_transfer_manager_def set_transfer_manager_def)

lemma new_proxy_world [simp]: "rh_world (ps_request_handler (new_proxy_server cfg cm w)) = w" "\<not> ps_thread_joinable (new_proxy_server cfg cm w)"
  by (simp_all add: new_proxy_server_def set_allowed_bucket_def new_request_handler_def Let_def)

lemma set_scheduler_world [simp]: "ps_request_handler (proxy_set_scheduler b s) = ps_request_handler s"
    "ps_thread_joinable (proxy_set_scheduler b s) = ps_thread_joinable s"
  by (simp_all add: proxy_set_scheduler_def)

definition fresh_world :: "platform \<Rightarrow> GlobalConfig \<Rightarrow> node_world" where
  "fresh_world P g = (set_scheduler True (new_transfer_manager (pf_now P) (pf_fs P) (g_p2p g)),
     Some (nd_set_scheduler True (new_node_discovery (pf_clocks P) (cfg_max_peers (g_p2p g)))))"

lemma start_built_node:
  assumes "\<not> st_server_mode c"
  shows "\<exists>a1 s. app_start P False (build_application P c) = Done (True, a1) \<and> app_wf False a1 \<and> ap_proxy_server a1 = Some s \<and>
    ps_running s \<and> ps_routes s = Some proxy_routes \<and> ap_control_client a1 = Some (new_control_client (g_control_plane (st_config c))) \<and>
    rh_world (ps_request_handler s) =
      (snd (tm_start (fst (fresh_world P (st_config c)))), map_option nd_start (snd (fresh_world P (st_config c))))"
proof -
  obtain s where p: "ap_proxy_server (build_application P c) = Some s" "\<not> ps_thread_joinable s"
      "rh_world (ps_request_handler s) = fresh_world P (st_config c)"
    using assms by (simp add: build_application_def build_node_def Let_def fresh_world_def)
  obtain s' where "start_node P s = Done (True, s')" "ps_running s'" "ps_routes s' = Some proxy_routes"
      "rh_world (ps_request_handler s') =
        (snd (tm_start (fst (fresh_world P (st_config c)))), map_option nd_start (snd (fresh_world P (st_config c))))"
    using start_node_fresh [OF p(2), of "fst (fresh_world P (st_config c))" "snd (fresh_world P (st_config c))"] p(3) by auto
  moreover have "ap_control_client (build_application P c) = Some (new_control_client (g_control_plane (st_config c)))"
    using assms by (simp add: build_application_def build_node_def Let_def)
  ultimately show ?thesis using p build_wf [of c P] assms by (simp add: app_start_def app_wf_def)
qed


lemma initialize_built:
  "app_initialize P argv c = Some (Inr (Some a, c1)) \<Longrightarrow> a = build_application P c1"
  by (auto simp: app_initialize_def split: sum.splits option.splits bool.splits)









definition ex_platform :: "(string \<Rightarrow> string option) \<Rightarrow> nat + (string \<times> cli_value) list \<Rightarrow> platform" where
  "ex_platform env parsed = \<lparr>pf_config_env = \<lparr>ce_exists = (\<lambda>_. False), ce_read = (\<lambda>_. None), ce_getenv = env\<rparr>,
     pf_cli = (\<lambda>_ _. parsed), pf_fs = ex_fs, pf_clocks = ex_clk, pf_now = 0, pf_processors = 4, pf_loop_exited = True\<rparr>"



section \<open>Errors of the arguments\<close>

definition succeeds :: "assignment \<Rightarrow> bool" where
  "succeeds a \<longleftrightarrow> (\<forall>c. \<exists>c'. a c = Inr c')"

definition bad_number :: "string option \<Rightarrow> bool" where
  "bad_number v \<longleftrightarrow> (case v of None \<Rightarrow> False | Some s \<Rightarrow> stoi s = None)"

lemma assignment_outcomes [simp]: "succeeds (on_text v f)" "succeeds (on_level v)" "succeeds (on_int v g) \<longleftrightarrow> \<not> bad_number v"
  "bad_number v \<Longrightarrow> on_int v g c = Inl Conversion_failed"
  by (auto simp: succeeds_def on_text_def on_level_def on_int_def bad_number_def split: option.splits)

lemma run_assignments_outcome:
  assumes "list_all (\<lambda>a. succeeds a \<or> (\<forall>c. a c = Inl Conversion_failed)) xs"
  shows "(\<exists>c'. run_assignments xs c = Inr c') \<longleftrightarrow> list_all succeeds xs"
  using assms
proof (induction xs arbitrary: c)
  case (Cons a xs)
  consider "succeeds a" | "\<And>c. a c = Inl Conversion_failed" "\<not> succeeds a" using Cons.prems by (auto simp: succeeds_def)
  then show ?case
  proof cases
    case 1
    then obtain c' where "a c = Inr c'" by (auto simp: succeeds_def)
    with Cons 1 show ?thesis by simp
  qed simp
qed simp

definition port_variables :: "string list" where
  "port_variables = [''ELIOP2P_CONTROL_PLANE_PORT'', ''ELIOP2P_P2P_PORT'', ''ELIOP2P_P2P_GOSSIP_PORT'', ''ELIOP2P_PROXY_PORT'']"

lemma env_outcome:
  "(\<exists>c'. override_from_env E c = Inr c') \<longleftrightarrow> list_all (\<lambda>n. \<not> bad_number (ce_getenv E n)) port_variables"
proof -
  have "succeeds (on_int v f) \<or> (\<forall>c. on_int v f c = Inl Conversion_failed)" for v f by (cases "bad_number v") simp_all
  then show ?thesis
    unfolding override_from_env_def Let_def by (subst run_assignments_outcome) (simp_all add: port_variables_def conj_ac)
qed

text \<open>Arguments that cannot be parsed. Whatever error code the parser of the command line gives, the program
  exits with 0, as for a request for help; before that, a port in the environment that is no number makes it exit with 1.\<close>

theorem argument_errors_exit_zero:
  assumes "pf_cli P (''--config'' # map fst cli_options @ [''--server'', ''--version'']) argv = Inl code"
  shows "main_program P argv signals served level =
    Some (Done (if list_all (\<lambda>n. \<not> bad_number (ce_getenv (pf_config_env P) n)) port_variables then 0 else 1, None))"
proof -
  define c where "c = initial_config_state (case main_log_level (pf_config_env P) of None \<Rightarrow> level | Some l \<Rightarrow> l)"
  have cl: "\<exists>c'. parse_command_line (pf_config_env P) (pf_cli P) argv x = Some (Inr (False, c'))" for x
    using assms by (simp add: parse_command_line_def Let_def)
  show ?thesis
  proof (cases "override_from_env (pf_config_env P) c")
    case (Inl e)
    then have "\<not> list_all (\<lambda>n. \<not> bad_number (ce_getenv (pf_config_env P) n)) port_variables" using env_outcome [of "pf_config_env P" c] by simp
    moreover have "app_initialize P argv c = Some (Inl e)" by (simp add: app_initialize_def load_from_env_def Inl)
    ultimately show ?thesis by (simp only: main_program_def Let_def c_def [symmetric] option.case sum.case if_False)
  next
    case (Inr c1)
    then have "list_all (\<lambda>n. \<not> bad_number (ce_getenv (pf_config_env P) n)) port_variables" using env_outcome [of "pf_config_env P" c] by blast
    moreover obtain c2 where "parse_command_line (pf_config_env P) (pf_cli P) argv c1 = Some (Inr (False, c2))" using cl by blast
    then have "app_initialize P argv c = Some (Inr (None, c2))" by (simp add: app_initialize_def load_from_env_def Inr)
    ultimately show ?thesis by (simp only: main_program_def Let_def c_def [symmetric] option.case sum.case prod.case if_True)
  qed
qed

theorem argument_errors_exit_zero_witness:
  "main_program (ex_platform (\<lambda>_. None) (Inl 109)) [''--bogus''] [] Some Info = Some (Done (0, None))"
proof -
  have "pf_cli (ex_platform (\<lambda>_. None) (Inl 109)) (''--config'' # map fst cli_options @ [''--server'', ''--version'']) [''--bogus''] = Inl 109"
    by (simp add: ex_platform_def)
  from argument_errors_exit_zero [OF this, of "[]" Some Info] show ?thesis by (simp add: port_variables_def bad_number_def ex_platform_def)
qed

section \<open>A started node is alone\<close>

text \<open>Nothing in the program enters a peer or gives the node an identity.\<close>

definition alone :: "node_world \<Rightarrow> bool" where
  "alone w \<longleftrightarrow> (\<exists>m d. w = (m, Some d) \<and> nd_peers d = [] \<and> local_node_id d = '''' \<and> \<not> gossip_running d)"

lemma alone_download:
  assumes "alone (m, nd)" and "rq_sources req = []" and "download_chunk E clk nd rep req m = (r, m')"
  shows "r = Returned None" and "alone (m', nd)"
proof -
  from assms(1) obtain d where d: "nd = Some d" "nd_peers d = []" by (auto simp: alone_def)
  then have "candidate_peers clk nd req = []"
    using assms(2) by (simp add: candidate_peers_def get_peers_with_chunk_def concat_eq_Nil_conv split: option.split)
  then show "r = Returned None" using assms(3) by (auto simp: download_chunk_def Let_def split: if_splits prod.splits)
  show "alone (m', nd)" using assms(1) by (auto simp: alone_def)
qed

lemma alone_announce: "alone (m, nd) \<Longrightarrow> announce_local_chunk shuffle clk k nd = nd"
  by (auto simp: alone_def announce_local_chunk_def announce_chunk_def)

lemma alone_started:
  assumes "\<not> st_server_mode c"
  shows "alone (snd (tm_start (fst (fresh_world P (st_config c)))), map_option nd_start (snd (fresh_world P (st_config c))))"
  by (simp add: alone_def fresh_world_def nd_start_def nd_set_scheduler_def new_node_discovery_def)

definition storage_apart :: "node_world StorageClient \<Rightarrow> bool" where
  "storage_apart sc \<longleftrightarrow> (\<forall>b k w. snd (head_object sc b k w) = w) \<and> (\<forall>b k off len w. snd (get_object sc b k off len w) = w)"

lemma alone_frame:
  assumes "storage_apart sc"
  shows "handler_frame (\<lambda>h. alone (rh_world h)) (tm_proxy_env sha hex E clk shuffle (Some sc))"
proof (unfold_locales, goal_cases)
  case (2 h req d w)
  obtain m nd where w: "rh_world h = (m, nd)" by (cases "rh_world h")
  then have "snd w = nd" using 2(2) by (auto simp: tm_proxy_env_def split: prod.splits)
  then show ?case using 2(1) w by (cases w) (auto simp: alone_def)
next
  case (3 h k)
  then show ?case by (cases "rh_world h") (simp add: tm_proxy_env_def alone_announce)
next
  case (4 h sc' b k md w)
  have "snd (head_object sc b k (rh_world h)) = rh_world h" using assms unfolding storage_apart_def by blast
  with 4 show ?case by (simp add: tm_proxy_env_def)
next
  case (5 h sc' b k off len bs w)
  have "snd (get_object sc b k off len (rh_world h)) = rh_world h" using assms unfolding storage_apart_def by blast
  with 5 show ?case by (simp add: tm_proxy_env_def)
qed simp

text \<open>The requests of the handler name no peers, so a download finds none.\<close>

lemma alone_peer_download:
  assumes "alone (rh_world h)" and "rq_sources req = []"
    and "peer_download (tm_proxy_env sha hex E clk shuffle storage) req h = Some (x, h')"
  shows "x = Done None"
proof -
  obtain m nd where w: "rh_world h = (m, nd)" by (cases "rh_world h")
  then have al: "alone (m, nd)" using assms(1) by simp
  obtain r m' where r: "download_chunk ((E req)\<lparr>te_sha := sha, te_hex := hex\<rparr>) clk nd False req m = (r, m')" by fastforce
  from alone_download(1) [OF al assms(2) r] show ?thesis
    using assms(3) w r by (simp add: peer_download_def tm_proxy_env_def)
qed

lemma object_from_storage:
  "chunk_from_storage env info obj i k h = Some (Done (d, src), h') \<Longrightarrow> src = FromStorage"
  by (auto simp: chunk_from_storage_def bind_io_def return_io_def split: option.splits run.splits prod.splits if_splits)

lemma alone_fetch:
  assumes "storage_apart sc" and env: "env = tm_proxy_env sha hex E clk shuffle (Some sc)" and al: "alone (rh_world h)"
    and f: "fetch_chunk env info obj i h = Some (Done (d, src), h')"
  shows "src \<noteq> FromPeers"
proof -
  obtain k where k: "fetch_chunk env info obj i = bind_io (cache_get env k) (\<lambda>c.
      case c of Some data \<Rightarrow> return_io (Some data, FromCache) | None \<Rightarrow> chunk_from_peers env info obj i k)"
    using f by (auto simp: fetch_chunk_def split: option.splits)
  obtain c h1 where c: "cache_get env k h = Some (Done c, h1)"
    using f k by (auto simp: bind_io_def split: option.splits run.splits prod.splits)
  have al1: "alone (rh_world h1)"
    using keepsD [OF handler_frame.cache_keeps(1) [OF alone_frame [OF assms(1)]] al c [unfolded env]] .
  show ?thesis
  proof (cases c)
    case (Some data)
    with f k c show ?thesis by (auto simp: bind_io_def return_io_def)
  next
    case None
    then have p: "chunk_from_peers env info obj i k h1 = Some (Done (d, src), h')" using f k c by (simp add: bind_io_def)
    show ?thesis
    proof (cases "rh_enable_p2p_fallback h1 \<and> rh_transfer_manager h1")
      case True
      with p obtain x h2 where x: "peer_download env (chunk_request info obj i k) h1 = Some (x, h2)"
        by (auto simp: chunk_from_peers_def bind_io_def split: option.splits)
      have "x = Done None"
        by (rule alone_peer_download [OF al1 _ x [unfolded env]]) (simp add: chunk_request_def)
      with True p x have "chunk_from_storage env info obj i k h2 = Some (Done (d, src), h')"
        by (simp add: chunk_from_peers_def bind_io_def)
      then show ?thesis using object_from_storage by blast
    next
      case False
      with p have "chunk_from_storage env info obj i k h1 = Some (Done (d, src), h')" by (auto simp: chunk_from_peers_def)
      then show ?thesis using object_from_storage by blast
    qed
  qed
qed

lemma alone_step:
  assumes "node_step matches env ops s s'" and al: "alone (rh_world (ps_request_handler s))"
    and "storage_apart sc" and env: "env = tm_proxy_env sha hex E clk shuffle (Some sc)"
  shows "alone (rh_world (ps_request_handler s'))"
  using assms(1)
proof (cases rule: node_step.cases)
  case (ns_http q r)
  have "keeps (\<lambda>h. alone (rh_world h)) (proxy_request_handler env q)"
    unfolding proxy_request_handler_def env using handler_frame.request_keeps [OF alone_frame [OF assms(3)]] by blast
  with ns_http al show ?thesis using keepsD by (fastforce simp: serve_http_def split: option.splits if_splits)
qed (use al in \<open>auto simp: node_start_task_def serve_peer_def alone_def Let_def split: option.splits prod.splits\<close>)

lemma alone_served:
  assumes "(node_step matches env ops)\<^sup>*\<^sup>* s s'" and "alone (rh_world (ps_request_handler s))"
    and "storage_apart sc" and "env = tm_proxy_env sha hex E clk shuffle (Some sc)"
  shows "alone (rh_world (ps_request_handler s'))"
  using assms(1,2)
proof induction
  case (step s1 s2)
  then show ?case using alone_step [OF _ _ assms(3,4)] by blast
qed

text \<open>C17. A node is alone. The program starts the node discovery and the transfer manager, but nothing registers the node, enters a peer or connects to the
  control plane: whatever HTTP requests the started node serves and whatever peers ask of its transfer server or push into its cache, it has no
  peer, no identity and no gossip, it never fetches a chunk from a peer, and the client of the control plane is as it was built.\<close>

theorem started_node_alone:
  assumes "app_initialize P argv c = Some (Inr (Some a, c1))" and "\<not> st_server_mode c1"
    and "app_start P False a = Done (True, a1)" and "ap_proxy_server a1 = Some s"
    and "storage_apart sc" and "env = tm_proxy_env sha hex E clk shuffle (Some sc)"
    and "(node_step matches env ops)\<^sup>*\<^sup>* s s'"
  shows "alone (rh_world (ps_request_handler s')) \<and> ap_control_client a1 = Some (new_control_client (g_control_plane (st_config c1))) \<and>
    (fetch_chunk env info obj i (ps_request_handler s') = Some (Done (d, src), h') \<longrightarrow> src \<noteq> FromPeers)"
proof -
  obtain s0 where "ap_proxy_server a1 = Some s0" "ap_control_client a1 = Some (new_control_client (g_control_plane (st_config c1)))"
      "rh_world (ps_request_handler s0) =
        (snd (tm_start (fst (fresh_world P (st_config c1)))), map_option nd_start (snd (fresh_world P (st_config c1))))"
    using start_built_node [OF assms(2), of P] assms(3) initialize_built [OF assms(1)] by auto
  moreover from this have "alone (rh_world (ps_request_handler s))" using alone_started [OF assms(2)] assms(4) by simp
  then have "alone (rh_world (ps_request_handler s'))" by (rule alone_served [OF assms(7) _ assms(5,6)])
  ultimately show ?thesis using alone_fetch [OF assms(5,6)] by blast
qed

definition ex_apart :: "node_world StorageClient" where
  "ex_apart = \<lparr>head_object = (\<lambda>b k w. (None, w)), get_object = (\<lambda>b k off len w. (None, w))\<rparr>"

theorem started_node_alone_witness:
  "\<exists>a c1 a1 s. app_initialize (ex_platform (\<lambda>_. None) (Inr [])) [] (initial_config_state Info) = Some (Inr (Some a, c1)) \<and>
     app_start (ex_platform (\<lambda>_. None) (Inr [])) False a = Done (True, a1) \<and> ap_proxy_server a1 = Some s \<and>
     alone (rh_world (ps_request_handler (node_start_task (Some 9000) s)))"
proof -
  let ?P = "ex_platform (\<lambda>_. None) (Inr [])"
  obtain a c1 where i: "app_initialize ?P [] (initial_config_state Info) = Some (Inr (Some a, c1))" and m: "\<not> st_server_mode c1"
    by (simp add: app_initialize_def ex_platform_def load_from_env_def override_from_env_def on_text_def on_int_def on_level_def
      parse_command_line_def Let_def initial_config_state_def apply_config_level_def)
  obtain a1 s where st: "app_start ?P False a = Done (True, a1)" "ap_proxy_server a1 = Some s"
    using start_built_node [OF m, of ?P] initialize_built [OF i] by auto
  have ap: "storage_apart ex_apart" by (simp add: storage_apart_def ex_apart_def)
  define env where "env = tm_proxy_env ex_sha to_str ex_peer_env ex_clk (\<lambda>ps. ps) (Some ex_apart)"
  have "(node_step (\<lambda>_ _. True) env seg_ops)\<^sup>*\<^sup>* s (node_start_task (Some 9000) s)" by (intro r_into_rtranclp ns_start_task)
  from started_node_alone [OF i m st ap env_def this] i st show ?thesis by blast
qed

section \<open>A request from the network to the storage\<close>

text \<open>C2. End to end over S3: for a non-empty object of a service that answers only requests whose signature it can recompute, a \<open>GET\<close> at the HTTP server of
  the proxy is answered with status 200 and the bytes of the object, or with a \<open>Range\<close> header status 206 and exactly the bytes of
  the range, or 416 for a range outside of the object; peers that answer have to be honest, and the cache holds only
  true copies before and after.\<close>

theorem http_get_returns_object:
  assumes "s3_service E c (ci_bucket info) (ci_object_key info) obj" and "has_credentials c"
    and "clean (host_header c)" and "\<And>w. clean (ts_amz_date (en_clock E w))"
    and "pe_storage env = Some (s3_storage E c)" and "peers_honest env info obj"
    and "ps_routes s = Some proxy_routes" and "er_method q = GET" and "matches ''/*'' (er_path q)"
    and "parse_cache_key (convert_request q) = Some info" and "ci_bucket info \<noteq> ''''"
    and "rh_allowed_bucket (ps_request_handler s) = '''' \<or> rh_allowed_bucket (ps_request_handler s) = ci_bucket info"
    and "handler_ok info obj K (ps_request_handler s)" and "0 < length obj" and "length obj < 2 ^ 64"
  shows "\<exists>resp s'. serve_http matches env q s = Some (Done resp, s') \<and> handler_ok info obj K (ps_request_handler s') \<and>
    (if has_header ''Range'' (convert_request q)
     then let rng = parse_range_header (get_header ''Range'' (convert_request q)) (size64 obj)
          in if br_valid rng
             then es_status resp = 206 \<and> es_body resp = to_str (slice_of obj (unat (br_start rng)) (unat (br_end rng) + 1))
             else es_status resp = 416 \<and> es_body resp = ''''
     else es_status resp = 200 \<and> es_body resp = to_str obj)"
proof -
  have "hr_method (convert_request q) = ''GET''" using assms(8) by (simp add: convert_request_def)
  from get_request_served [OF this assms(10,12) s3_origin_serves [OF assms(1,2,11,3,4,15,5)] assms(6,13,14,15)]
  obtain rs h' where r: "handle_request env (convert_request q) (ps_request_handler s) = Some (Done rs, h')" "handler_ok info obj K h'"
      "if has_header ''Range'' (convert_request q)
       then let rng = parse_range_header (get_header ''Range'' (convert_request q)) (size64 obj)
            in if br_valid rng
               then rs_status_code rs = 206 \<and> rs_body rs = slice_of obj (unat (br_start rng)) (unat (br_end rng) + 1)
               else rs_status_code rs = 416 \<and> rs_body rs = []
       else rs_status_code rs = 200 \<and> rs_body rs = obj" by blast
  have "serve_http matches env q s = Some (Done (convert_response rs), s\<lparr>ps_request_handler := h'\<rparr>)"
    using r(1) assms(7,8,9) by (simp add: serve_http_def proxy_routes_def proxy_request_handler_def bind_io_def return_io_def)
  with r(2,3) show ?thesis by (auto simp: convert_response_def Let_def to_str_def)
qed

definition ex_http_get :: elio_request where
  "ex_http_get = \<lparr>er_method = GET, er_path = ''/b/x'', er_query = '''', er_headers = [], er_body = ''''\<rparr>"

definition ex_server :: "unit ProxyServer" where
  "ex_server = (new_proxy_server default_proxy None ())\<lparr>ps_routes := Some proxy_routes, ps_request_handler := ex_handler\<rparr>"

theorem http_get_returns_object_witness:
  "\<exists>resp s'. serve_http (\<lambda>p _. p = ''/*'') ex_s3_proxy ex_http_get ex_server = Some (Done resp, s') \<and>
     es_status resp = 200 \<and> es_body resp = to_str [7, 8, 9]"
proof -
  let ?o = "[7, 8, 9] :: bytes"
  have q: "convert_request ex_http_get = ex_get []" by (simp add: convert_request_def ex_http_get_def ex_get_def)
  obtain info where info: "parse_cache_key (convert_request ex_http_get) = Some info" "ci_bucket info = ''b''"
    unfolding q by (rule ex_cache_key)
  have clean: "clean (ts_amz_date (en_clock ex_service w))" for w using ex_clean_date by (simp add: ex_service_def)
  have st: "pe_storage ex_s3_proxy = Some (s3_storage ex_service ex_s3)" by (simp add: ex_s3_proxy_def)
  have ph: "peers_honest ex_s3_proxy info ?o" by (simp add: peers_honest_def ex_s3_proxy_def ex_proxy_def)
  have s: "ps_routes ex_server = Some proxy_routes" "ps_request_handler ex_server = ex_handler" by (simp_all add: ex_server_def)
  have r: "er_method ex_http_get = GET" by (simp add: ex_http_get_def)
  have b: "ci_bucket info \<noteq> ''''" using info by simp
  have bk: "rh_allowed_bucket (ps_request_handler ex_server) = '''' \<or> rh_allowed_bucket (ps_request_handler ex_server) = ci_bucket info"
    by (simp add: s ex_handler_def set_transfer_manager_def new_request_handler_def)
  have ok: "handler_ok info ?o (object_keys info) (ps_request_handler ex_server)" unfolding s by (rule ex_handler_ok)
  have len: "0 < length ?o" "length ?o < 2 ^ 64" by simp_all
  have m: "(\<lambda>p (_ :: string). p = ''/*'') ''/*'' (er_path ex_http_get)" by simp
  have "\<not> has_header ''Range'' (convert_request ex_http_get)" by (simp add: q ex_get_def has_header_def)
  with http_get_returns_object [where matches = "\<lambda>p _. p = ''/*''", OF ex_service_ok ex_has ex_clean_host clean st ph s(1) r m info(1) b bk ok len]
  show ?thesis by auto
qed

end
