(* ===== verification/Spec2Isabelle.thy ===== *)
theory Spec2Isabelle
  imports Request_Handler Control_Client Metadata_Manager S3_Listing Gossip_Lifecycle Base_Services Application
begin

text \<open>
  A verification development for ElioP2P, a caching HTTP proxy for object storage whose nodes
  exchange chunks of objects with each other.

  \<^bold>\<open>The program.\<close> A node runs the proxy (\<open>proxy/request_handler.cpp\<close>): a \<open>GET\<close> is answered from chunks
  that come from the local cache, from peers, or from the storage, in this order, and every chunk
  that arrives is cached. The cache (\<open>cache/chunk_manager.cpp\<close>) has a memory tier, a weighted LRU cache
  (\<open>cache/lru_cache.cpp\<close>), and a disk tier. Peers are found by gossip (\<open>p2p/node_discovery.cpp\<close>) and
  chunks are moved by a framed TCP protocol with hedged parallel downloads (\<open>p2p/transfer.cpp\<close>). The
  optional control plane is an HTTP server with a node registry and a chunk location index
  (\<open>control/server.cpp\<close>), a client in each node (\<open>control/client.cpp\<close>) and a metadata store
  (\<open>control/metadata.cpp\<close>). The storage is reached through signed HTTP requests in the dialects of S3
  (\<open>storage/s3_client.cpp\<close>) and OSS (\<open>storage/oss_client.cpp\<close>). The proxy has an HTTP server
  (\<open>proxy/server.cpp\<close>); the configuration comes from defaults, environment, command line and file
  (\<open>base/config.cpp\<close>), and \<open>main.cpp\<close> builds, starts and stops the components.

  \<^bold>\<open>Theories, in the order of their dependencies.\<close>

  \<^item> \<open>Elio_Prelude\<close>: bytes, big-endian integers, strings and the standard library routines on them,
    association lists as the model of the unordered containers.
  \<^item> \<open>Ieee_Float\<close>: the \<open>float\<close> and \<open>double\<close> arithmetic of eviction scores and peer metrics, as rationals
    rounded to binary32 and binary64 with infinities and NaN.
  \<^item> \<open>Lru_Cache\<close>: \<open>LRUCache\<close> with its three structures (chunk table, recency list, iterator map), every
    operation, eviction by score and the statistics. A loop that may not end is a
    \<open>partial_function (option)\<close>. Shown: the structures agree in every reachable state, a store
    returns when no key is empty and stays within the capacity, the sampled victim has the best score;
    and a store hangs when the empty key is the victim.
  \<^item> \<open>Chunk_Manager\<close>: the two tiers over a model of the cache directory. Shown: the store refines a map,
    the files stay inside the directory, what a restart finds again and what it forgets.
  \<^item> \<open>Chunk_Wire\<close>: the chunk message header, \<open>read_exact\<close> and \<open>write_exact\<close> over an abstract stream, the
    bandwidth limiter, the server side (\<open>handle_chunk_request\<close>, uploads) and the client side
    (\<open>download_from_peer\<close>, \<open>upload_to_peer\<close>). Shown: encoding round trips and both ends composed.
  \<^item> \<open>Location_Table\<close>: the contract of a chunk location table as a locale, interpreted on the server's index,
    on the metadata manager and on the locations of the gossip node.
  \<^item> \<open>Gossip_Wire\<close> and \<open>Node_Discovery\<close>: gossip messages and their encoding at the width of each field, peer
    and location tables, every message handler. Shown: table invariants by rule induction, the round
    trip of messages, what each type of message does to the locations, an announcement made at one node is
    known at another.
  \<^item> \<open>Gossip_Server\<close>: the owner of the object, the thread of the gossip TCP server, its accept loop and
    handlers, the gossip loop and the start task of \<open>register_node\<close> as one inductive step relation, whose
    steps are whole operations. Shown: a failed bind leaves a thread that is never joined, loops pile
    up over restarts, a start can overtake a stop.
  \<^item> \<open>Gossip_Lifecycle\<close>: starting and stopping that server again, read by read and write by write, with any
    number of starts under way. Shown for all interleavings: what the flag, the listener and the threads
    say about each other; stopping returns when no start is under way; and, where one is, a
    stop can miss it and two starts can terminate the program.
  \<^item> \<open>Transfer_Manager\<close>: candidate selection, hedged download with fallback, progress files, statistics.
    The peers are an environment \<open>transfer_env\<close>, in which other coroutines may change the manager while a
    download is suspended; the sorting routine is the locale \<open>std_sort\<close>. Shown: one
    good candidate is enough when nobody stops the download, and what is returned has the expected hash.
  \<^item> \<open>Request_Handler\<close>: cache keys, ranges, object metadata with chunk hashes, the sources of a chunk and
    the assembly of the response, with out-of-range iterators as the value \<open>Undefined\<close>. The locale
    \<open>verified_peers\<close> is what the handler relies on; it is interpreted on \<open>Transfer_Manager\<close>. Shown: a
    response is the object or the requested part of it.
  \<^item> \<open>Json_Api\<close>: the operations of the JSON library as a record of functions and their documented laws as
    the locale \<open>json_lib\<close>, with a reference instance.
  \<^item> \<open>Control_Server\<close>: every HTTP handler of the control plane server as a function on its state, and
    its response documents. Shown: invariants of the registry and the index for every sequence of
    requests, equivalence of the index with a scan; no replication command is ever issued.
  \<^item> \<open>Http_Client\<close>: the socket HTTP client of the control plane. Shown: responses are reassembled
    whatever the segmentation, and an overflow in a chunk size makes a request endless.
  \<^item> \<open>Control_Client\<close>: every operation of the control plane client over an abstract network, and its
    composition with the server.
  \<^item> \<open>Metadata_Manager\<close>: the metadata store and its persistence, with every intermediate file system of a
    save. Shown: what a save and a load bring back, and what the state file holds at any moment.
  \<^item> \<open>S3_Client\<close>: URL encoding, canonical requests, signatures, presigned URLs, every object operation and the
    choice of the backend, with the hash functions and the HTTP transport as arguments. Shown: the
    signature of a request on the wire is the one a server recomputes from it, query strings round trip.
  \<^item> \<open>S3_Listing\<close>: the parsing of listings against a rendering of them. Shown: objects and prefixes round
    trip, and the continuation token loses its first two characters.
  \<^item> \<open>S3_Service\<close>: a service that answers only requests whose signature it can recompute; the S3 client over it
    is an origin for the proxy.
  \<^item> \<open>Oss_Client\<close>: the OSS signature and URLs, and what of the S3 client the subclass inherits.
  \<^item> \<open>Node_Config\<close>: the settings, their defaults and the loaders. Loading a file is a
    \<open>partial_function (option)\<close>. Shown: INI files round trip, which source of a setting wins, and which
    files make the loader recurse without end.
  \<^item> \<open>Proxy_Server\<close>: the routes, the conversion of requests and responses, start and stop. What the handler
    keeps of its settings is the locale \<open>handler_frame\<close>, interpreted on \<open>Request_Handler\<close>.
  \<^item> \<open>Application\<close>: \<open>main.cpp\<close>, with a step relation for what a started application serves (HTTP requests, connections
    of peers, control plane requests). Shown: the components of a mode exist when they are used, the exit
    code of bad arguments, what a started node can and cannot do, and a \<open>GET\<close> from the HTTP server down to the signed storage request.
  \<^item> \<open>Base_Services\<close>: the logger and the error codes.

  \<^bold>\<open>How state and concurrency are modelled.\<close> An object is a record, an operation a function from the
  record to the record and a result; the operations hold the object's mutex for their whole body, so
  they are atomic and interleaving is a sequence of operations. A coroutine gives up control where it is
  suspended: what others do to the transfer manager during a download or an upload is a function of the
  environment. Where a download runs several
  attempts at once the order in which they finish is an argument. The gossip server is started and stopped without
  a lock, so \<open>Gossip_Lifecycle\<close> takes each access to its flags, its listener and its thread as a step of its own. The clock, the random source,
  SHA-256, sockets, the file system and the storage client are arguments; what is relied on is an
  assumption of the theorem or of a locale. Exceptions are values (\<open>None\<close> or a constructor), and so is
  a call that does not return.

  \<^bold>\<open>Integers.\<close> Sizes, times and counters of the code are words of their width where they can
  overflow; lengths of in-memory data are naturals, with \<open>mod\<close> written out where a length received
  from outside is added.

  \<^bold>\<open>Bounds and fuel.\<close> No operation is cut off by fuel: recursions terminate by a measure, and loops
  that may not end are partial functions whose result \<open>None\<close> means that they do not. Theorems that a
  call returns are stated as such.

  \<^bold>\<open>Not modelled.\<close> The text of log messages and \<open>Config::print\<close>; races on data that the code protects by no
  lock, such as the tables of the gossip node, below the atomic steps named above; the insides of third-party code: the elio runtime (sockets, HTTP
  server and client, scheduler), CLI11, OpenSSL, the JSON library and the operating system, which are
  arguments with the behaviour relied on as assumptions. Test programs are left out.
\<close>

end
